(* ===== verification/Prelude.thy ===== *)
theory Prelude
  imports Main "HOL-Library.Multiset" "HOL-Library.Char_ord" "HOL-Library.List_Lexorder"
begin

text \<open>
  Shared material of the development: the two collections of rewrite rules the component proofs
  use, errors as the Go code wraps them, loops over slices that stop at the first error, and the
  sorting routines of Go's \<^verbatim>\<open>sort\<close> and \<^verbatim>\<open>slices\<close> packages with the contract that every comparison
  function of the program has to meet (the locale \<open>strict_weak_order\<close>).
\<close>

named_theorems go_str \<open>facts about the string functions of package strings\<close>
named_theorems go_loop \<open>facts about the loop combinators\<close>

section \<open>Errors\<close>

text \<open>
  The program builds errors with \<^verbatim>\<open>cockroachdb/errors\<close>: a sentinel, wrapped with context on its way
  up. An error is modelled by its sentinel and the wrapping path; the message texts are not.
\<close>

text \<open>The classes of API server errors the controller distinguishes; everything else is \<open>OtherAPIError\<close>.\<close>

datatype k8s_err =
    NotFound | ServerTimeout | Timeout | TooManyRequests | InternalError | ServiceUnavailable | OtherAPIError

text \<open>Errors of the controller and of its configuration.\<close>

datatype ctl_err =
    ErrInvalidParameters | NoParametersRef | UnsupportedParametersRef | TunnelIDRequired | SecretKeyMissing
  | SecretKeyEmpty | EmptyToken | InvalidBase64 | InvalidTokenJSON | MissingAccountID | MissingTunnelID
  | MissingSecret | NoAccounts | MultipleAccounts | NoGatewayClass | ConflictingParametersRef
  | RulesLimitExceeded | BrokenDataPlane | CloudflareAPIError | BackendRefInvalid

datatype err_id =
    errURLRequired | errWeightNonNegative | errUnknownPathType | errUnknownHeaderType
  | errUnknownQueryType | errNameRequired | errPathValueRequired | errUnknownFilterType
  | errStaleVersion | ErrLostConfigPushRace | errTLSMirrorWithoutTransportFactory
  | errVersionNonNegative | errUnknownProtocol | errFilterConfigRequired | errMirrorPercentRange
  | errCORSMaxAge | errRegexpCompile | errNilDereference | errUnexpectedStatusCode
  | errSendRequest | errDecodeStatus | errEmptyLabelKey | errParseSelector | errListGrants
  | errInvalidSelector | errParseDuration | errCreateRequest | errMarshalConfig | errUnmarshalConfig
  | errContextCanceled | errDeadlineExceeded | errTransportTimeout | errBackendTLSNoPeerCert
  | errBackendTLSSANMissing | errBackendTLSChainVerify | errBackendCABundleInvalid | errDial | errHandshake
  | errK8s k8s_err | errCtl ctl_err

datatype err_ctx =
    AtRule nat | AtMatch nat | AtFilter nat | AtBackend nat | AtBackendFilter nat nat
  | AtHeader nat | AtQueryParam nat | AtValue string | InText string

datatype gerr = Sentinel err_id | Wrapped err_ctx gerr

fun errors_is :: "gerr \<Rightarrow> err_id \<Rightarrow> bool" where
  "errors_is (Sentinel e) t \<longleftrightarrow> e = t"
| "errors_is (Wrapped c e) t \<longleftrightarrow> errors_is e t"

section \<open>Loops with an early return\<close>

text \<open>\<open>first_err f i xs\<close> is the loop \<^verbatim>\<open>for idx, x := range xs\<close> whose body returns a non-nil error
  at once; \<open>i\<close> is the index of the first element.\<close>

fun first_err :: "(nat \<Rightarrow> 'a \<Rightarrow> gerr option) \<Rightarrow> nat \<Rightarrow> 'a list \<Rightarrow> gerr option" where
  "first_err f i [] = None"
| "first_err f i (x # xs) =
     (case f i x of Some e \<Rightarrow> Some e | None \<Rightarrow> first_err f (Suc i) xs)"

text \<open>\<open>traverse f i xs\<close> is the loop that appends the result of the body to a slice and returns the
  first error.\<close>

fun traverse :: "(nat \<Rightarrow> 'a \<Rightarrow> gerr + 'b) \<Rightarrow> nat \<Rightarrow> 'a list \<Rightarrow> gerr + 'b list" where
  "traverse f i [] = Inr []"
| "traverse f i (x # xs) =
     (case f i x of
        Inl e \<Rightarrow> Inl e
      | Inr y \<Rightarrow> (case traverse f (Suc i) xs of Inl e \<Rightarrow> Inl e | Inr ys \<Rightarrow> Inr (y # ys)))"

text \<open>\<open>then_err a b\<close> is a check that returns its error, followed by the rest.\<close>

definition then_err :: "gerr option \<Rightarrow> gerr option \<Rightarrow> gerr option" where
  "then_err a b = (case a of Some e \<Rightarrow> Some e | None \<Rightarrow> b)"

definition wrap_err :: "err_ctx \<Rightarrow> gerr option \<Rightarrow> gerr option" where
  "wrap_err c e = map_option (Wrapped c) e"

definition wrap_res :: "err_ctx \<Rightarrow> gerr + 'a \<Rightarrow> gerr + 'a" where
  "wrap_res c r = (case r of Inl e \<Rightarrow> Inl (Wrapped c e) | Inr x \<Rightarrow> Inr x)"

text \<open>The index of the first element that satisfies a test, as a loop that returns it.\<close>

fun find_index_from :: "('a \<Rightarrow> bool) \<Rightarrow> nat \<Rightarrow> 'a list \<Rightarrow> nat option" where
  "find_index_from P i [] = None"
| "find_index_from P i (x # xs) = (if P x then Some i else find_index_from P (Suc i) xs)"

section \<open>Sorting\<close>

text \<open>
  \<^verbatim>\<open>sort.SliceStable\<close> and \<^verbatim>\<open>slices.SortStableFunc\<close> return the stable sort with respect to a strict
  weak order, which is unique; insertion sort computes it. \<^verbatim>\<open>sort.Slice\<close> is not stable: where it is
  used, the order of the elements the comparison cannot tell apart is not determined by the input.
\<close>

fun insert_by :: "('a \<Rightarrow> 'a \<Rightarrow> bool) \<Rightarrow> 'a \<Rightarrow> 'a list \<Rightarrow> 'a list" where
  "insert_by lt x [] = [x]"
| "insert_by lt x (y # ys) = (if lt y x then y # insert_by lt x ys else x # y # ys)"

definition sort_stable :: "('a \<Rightarrow> 'a \<Rightarrow> bool) \<Rightarrow> 'a list \<Rightarrow> 'a list" where
  "sort_stable lt xs = foldr (insert_by lt) xs []"

text \<open>What \<^verbatim>\<open>sort.Slice\<close> promises: a permutation in which no later element is less than an earlier
  one.\<close>

definition sort_slice_result :: "('a \<Rightarrow> 'a \<Rightarrow> bool) \<Rightarrow> 'a list \<Rightarrow> 'a list \<Rightarrow> bool" where
  "sort_slice_result lt xs ys \<longleftrightarrow> mset ys = mset xs \<and> sorted_wrt (\<lambda>a b. \<not> lt b a) ys"

section \<open>Lemmas on loops\<close>

lemma first_err_None_iff [go_loop]:
  "first_err f i xs = None \<longleftrightarrow> (\<forall>k < length xs. f (i + k) (xs ! k) = None)"
proof (induction xs arbitrary: i)
  case Nil
  then show ?case by simp
next
  case (Cons x xs)
  have "(\<forall>k < length (x # xs). f (i + k) ((x # xs) ! k) = None) \<longleftrightarrow>
        f i x = None \<and> (\<forall>k < length xs. f (Suc i + k) (xs ! k) = None)"
    by (auto simp: less_Suc_eq_0_disj)
  with Cons.IH [of "Suc i"] show ?case by (cases "f i x") auto
qed

lemma first_err_cong_None:
  "(\<And>i x. x \<in> set xs \<Longrightarrow> f i x = None) \<Longrightarrow> first_err f i xs = None"
  by (simp add: first_err_None_iff)

lemma wrap_err_None [simp]: "wrap_err c e = None \<longleftrightarrow> e = None"
  by (simp add: wrap_err_def)

lemma then_err_None [simp]: "then_err a b = None \<longleftrightarrow> a = None \<and> b = None"
  by (simp add: then_err_def split: option.split)

lemma first_err_wrap_iff [go_loop]:
  "first_err (\<lambda>i x. wrap_err (c i) (g x)) i xs = None \<longleftrightarrow> (\<forall>x \<in> set xs. g x = None)"
  by (simp add: first_err_None_iff all_set_conv_all_nth)

lemma wrap_res_Inr [simp]: "wrap_res c r = Inr x \<longleftrightarrow> r = Inr x"
  by (cases r) (auto simp: wrap_res_def)

lemma wrap_res_of_Inr [simp]: "wrap_res c (Inr x) = Inr x"
  by (simp add: wrap_res_def)

lemma traverse_Inr [go_loop]:
  "traverse f i xs = Inr ys \<longleftrightarrow>
     length ys = length xs \<and> (\<forall>k < length xs. f (i + k) (xs ! k) = Inr (ys ! k))"
proof (induction xs arbitrary: i ys)
  case Nil
  then show ?case by auto
next
  case (Cons x xs)
  show ?case
  proof (cases ys)
    case Nil
    then show ?thesis by (auto split: sum.splits)
  next
    case (Cons y ys')
    have "(\<forall>k < length (x # xs). f (i + k) ((x # xs) ! k) = Inr ((y # ys') ! k)) \<longleftrightarrow>
          f i x = Inr y \<and> (\<forall>k < length xs. f (Suc i + k) (xs ! k) = Inr (ys' ! k))"
      by (auto simp: less_Suc_eq_0_disj)
    with Cons Cons.IH [of "Suc i" ys'] show ?thesis
      by (auto split: sum.splits)
  qed
qed

lemma traverse_Inl: "traverse f i xs = Inl e \<Longrightarrow> \<exists>j x. x \<in> set xs \<and> f j x = Inl e"
  by (induction f i xs rule: traverse.induct) (auto split: sum.splits)

lemma errors_is_wrap_res:
  "wrap_res c r = Inl e \<Longrightarrow> \<exists>e'. r = Inl e' \<and> errors_is e t = errors_is e' t"
  by (auto simp: wrap_res_def split: sum.splits)

lemma traverse_length: "traverse f i xs = Inr ys \<Longrightarrow> length ys = length xs"
  by (simp add: traverse_Inr)

lemma traverse_total:
  "(\<And>i x. x \<in> set xs \<Longrightarrow> \<exists>y. f i x = Inr y) \<Longrightarrow> \<exists>ys. traverse f i xs = Inr ys"
proof (induction xs arbitrary: i)
  case Nil
  then show ?case by simp
next
  case (Cons x xs)
  obtain y where "f i x = Inr y" using Cons.prems by (meson list.set_intros(1))
  moreover obtain ys where "traverse f (Suc i) xs = Inr ys"
    using Cons.IH Cons.prems by (meson list.set_intros(2))
  ultimately show ?case by simp
qed

lemma find_index_from_None [go_loop]:
  "find_index_from P i xs = None \<longleftrightarrow> (\<forall>x \<in> set xs. \<not> P x)"
  by (induction xs arbitrary: i) auto

lemma find_index_from_Some [go_loop]:
  "find_index_from P i xs = Some j \<longleftrightarrow>
     (\<exists>k < length xs. j = i + k \<and> P (xs ! k) \<and> (\<forall>l < k. \<not> P (xs ! l)))"
proof (induction xs arbitrary: i)
  case Nil
  then show ?case by simp
next
  case (Cons x xs)
  show ?case
  proof (cases "P x")
    case True
    then show ?thesis by (auto simp: less_Suc_eq_0_disj)
  next
    case False
    have "(\<exists>k < length (x # xs). j = i + k \<and> P ((x # xs) ! k) \<and> (\<forall>l < k. \<not> P ((x # xs) ! l))) \<longleftrightarrow>
          (\<exists>k < length xs. j = Suc i + k \<and> P (xs ! k) \<and> (\<forall>l < k. \<not> P (xs ! l)))"
      (is "?L \<longleftrightarrow> ?R")
    proof
      assume ?L
      then obtain k where k: "k < Suc (length xs)" "j = i + k" "P ((x # xs) ! k)"
        "\<forall>l < k. \<not> P ((x # xs) ! l)" by auto
      with False obtain k' where "k = Suc k'" by (cases k) auto
      with k have "\<forall>l < k'. \<not> P (xs ! l)" by force
      with k \<open>k = Suc k'\<close> show ?R by (intro exI [of _ k']) auto
    next
      assume ?R
      then obtain k where "k < length xs" "j = Suc i + k" "P (xs ! k)" "\<forall>l < k. \<not> P (xs ! l)"
        by auto
      with False show ?L by (intro exI [of _ "Suc k"]) (auto simp: less_Suc_eq_0_disj)
    qed
    with False Cons.IH [of "Suc i"] show ?thesis by simp
  qed
qed

lemma find_index_from_map:
  "find_index_from P i xs = find_index_from (\<lambda>b. b) i (map P xs)"
  by (induction xs arbitrary: i) auto

text \<open>A value between the ends of a sequence lies in one of its steps.\<close>

lemma between_step:
  fixes f :: "nat \<Rightarrow> 'a::linorder"
  assumes "f 0 \<le> x" and "x < f n"
  shows "\<exists>k < n. f k \<le> x \<and> x < f (Suc k)"
  using assms
proof (induction n)
  case 0
  then show ?case by simp
next
  case (Suc n)
  show ?case
  proof (cases "x < f n")
    case True
    then show ?thesis using Suc by (meson less_SucI)
  next
    case False
    then show ?thesis using Suc.prems(2) by (metis lessI not_less)
  qed
qed

section \<open>Lemmas on sorting\<close>

lemma mset_insert_by [simp]: "mset (insert_by lt x ys) = add_mset x (mset ys)"
  by (induction ys) auto

lemma set_insert_by [simp]: "set (insert_by lt x ys) = insert x (set ys)"
  by (induction ys) auto

lemma sort_stable_Nil [simp]: "sort_stable lt [] = []"
  by (simp add: sort_stable_def)

lemma sort_stable_Cons [simp]:
  "sort_stable lt (x # xs) = insert_by lt x (sort_stable lt xs)"
  by (simp add: sort_stable_def)

lemma mset_sort_stable [simp]: "mset (sort_stable lt xs) = mset xs"
  by (induction xs) auto

lemma set_sort_stable [simp]: "set (sort_stable lt xs) = set xs"
  by (induction xs) auto

lemma length_sort_stable [simp]: "length (sort_stable lt xs) = length xs"
  by (metis mset_sort_stable size_mset)

lemma distinct_sort_stable [simp]: "distinct (sort_stable lt xs) = distinct xs"
  by (metis mset_sort_stable mset_eq_imp_distinct_iff)

locale strict_weak_order =
  fixes lt :: "'a \<Rightarrow> 'a \<Rightarrow> bool"
  assumes less_irrefl: "\<not> lt x x"
    and less_trans: "lt x y \<Longrightarrow> lt y z \<Longrightarrow> lt x z"
    and less_neg_trans: "\<not> lt x y \<Longrightarrow> \<not> lt y z \<Longrightarrow> \<not> lt x z"
begin

lemma less_asym: "lt x y \<Longrightarrow> \<not> lt y x"
  using less_irrefl less_trans by blast

lemma less_le_trans: "lt x y \<Longrightarrow> \<not> lt z y \<Longrightarrow> lt x z"
  using less_neg_trans by blast

lemma sorted_insert_by:
  "sorted_wrt (\<lambda>a b. \<not> lt b a) ys \<Longrightarrow> sorted_wrt (\<lambda>a b. \<not> lt b a) (insert_by lt x ys)"
proof (induction ys)
  case Nil
  then show ?case by simp
next
  case (Cons y ys)
  show ?case
  proof (cases "lt y x")
    case True
    then show ?thesis using Cons less_asym [OF True] by auto
  next
    case False
    then have "\<not> lt z x" if "z \<in> set ys" for z
      using Cons.prems that less_neg_trans [of z y x] by simp
    then show ?thesis using Cons.prems False by simp
  qed
qed

lemma sorted_sort_stable: "sorted_wrt (\<lambda>a b. \<not> lt b a) (sort_stable lt xs)"
  by (induction xs) (auto intro: sorted_insert_by)

lemma sort_stable_is_sort_slice: "sort_slice_result lt xs (sort_stable lt xs)"
  by (simp add: sort_slice_result_def sorted_sort_stable)

text \<open>The first element of a sorted list that passes a test is minimal among those that do.\<close>

lemma find_sorted_minimal:
  "sorted_wrt (\<lambda>a b. \<not> lt b a) xs \<Longrightarrow> find P xs = Some x \<Longrightarrow>
     x \<in> set xs \<and> P x \<and> (\<forall>y \<in> set xs. P y \<longrightarrow> \<not> lt y x)"
proof (induction xs)
  case Nil
  then show ?case by simp
next
  case (Cons a xs)
  show ?case
  proof (cases "P a")
    case True
    with Cons.prems show ?thesis by (auto simp: less_irrefl)
  next
    case False
    with Cons show ?thesis by auto
  qed
qed

text \<open>Stability: elements the order cannot tell apart keep their relative order.\<close>

lemma filter_insert_by_other:
  "\<not> P x \<Longrightarrow> filter P (insert_by lt x ys) = filter P ys"
  by (induction ys) auto

lemma filter_insert_by_same:
  assumes "P x" and "\<And>a b. P a \<Longrightarrow> P b \<Longrightarrow> \<not> lt a b"
    and "sorted_wrt (\<lambda>a b. \<not> lt b a) ys"
  shows "filter P (insert_by lt x ys) = x # filter P ys"
  using assms(3)
proof (induction ys)
  case Nil
  then show ?case using assms(1) by simp
next
  case (Cons y ys)
  then show ?case using assms(1,2) by auto
qed

lemma sort_stable_stable:
  assumes "\<And>a b. P a \<Longrightarrow> P b \<Longrightarrow> \<not> lt a b"
  shows "filter P (sort_stable lt xs) = filter P xs"
proof (induction xs)
  case Nil
  then show ?case by simp
next
  case (Cons x xs)
  show ?case
  proof (cases "P x")
    case True
    then show ?thesis
      using Cons.IH filter_insert_by_same [where P = P and x = x, OF True _ sorted_sort_stable] assms
      by simp
  next
    case False
    then show ?thesis using Cons.IH by (simp add: filter_insert_by_other)
  qed
qed

text \<open>Where the order is total on the elements, every sorted permutation is the same list: the
  result does not depend on the order of the input.\<close>

lemma sorted_unique:
  assumes "sorted_wrt (\<lambda>a b. \<not> lt b a) xs" and "sorted_wrt (\<lambda>a b. \<not> lt b a) ys"
    and "mset xs = mset ys"
    and "\<And>a b. a \<in> set xs \<Longrightarrow> b \<in> set xs \<Longrightarrow> \<not> lt a b \<Longrightarrow> \<not> lt b a \<Longrightarrow> a = b"
  shows "xs = ys"
  using assms
proof (induction xs arbitrary: ys)
  case Nil
  then show ?case by simp
next
  case (Cons x xs)
  then obtain y ys' where ys: "ys = y # ys'" by (cases ys) auto
  have sets: "insert x (set xs) = insert y (set ys')"
    using Cons.prems(3) ys by (metis list.simps(15) mset_eq_setD)
  have "\<not> lt y x" using sets Cons.prems(1) less_irrefl
    by (metis insertE insertI1 sorted_wrt.simps(2))
  moreover have "\<not> lt x y" using sets Cons.prems(2) ys less_irrefl
    by (metis insertE insertI1 sorted_wrt.simps(2))
  moreover have "y \<in> set (x # xs)" using sets by simp
  ultimately have "x = y" using Cons.prems(4) [of x y] by simp
  moreover have "xs = ys'"
  proof (rule Cons.IH)
    show "mset xs = mset ys'" using Cons.prems(3) ys \<open>x = y\<close> by simp
  qed (use Cons.prems ys in simp_all)
  ultimately show ?case using ys by simp
qed

lemma sort_stable_order_independent:
  assumes "mset xs = mset ys"
    and "\<And>a b. a \<in> set xs \<Longrightarrow> b \<in> set xs \<Longrightarrow> \<not> lt a b \<Longrightarrow> \<not> lt b a \<Longrightarrow> a = b"
  shows "sort_stable lt xs = sort_stable lt ys"
  using assms by (intro sorted_unique) (auto intro: sorted_sort_stable)

lemma sort_stable_sorted_id:
  "sorted_wrt (\<lambda>a b. \<not> lt b a) xs \<Longrightarrow> sort_stable lt xs = xs"
proof (induction xs)
  case Nil
  then show ?case by simp
next
  case (Cons x xs)
  then show ?case by (cases xs) auto
qed

lemma sort_stable_idem: "sort_stable lt (sort_stable lt xs) = sort_stable lt xs"
  by (rule sort_stable_sorted_id) (rule sorted_sort_stable)

end

text \<open>The pullback of a strict weak order along a function, and the lexicographic combination of
  two, are strict weak orders; the comparison functions of the program are built this way.\<close>

definition less_on :: "('a \<Rightarrow> 'k::linorder) \<Rightarrow> 'a \<Rightarrow> 'a \<Rightarrow> bool" where
  "less_on key x y \<longleftrightarrow> key x < key y"

interpretation less_on: strict_weak_order "less_on key"
  by unfold_locales (auto simp: less_on_def)

end
