(* ===== verification/GoStrings.thy ===== *)
theory GoStrings
  imports Prelude
begin

text \<open>
  The functions of Go's \<^verbatim>\<open>strings\<close>, \<^verbatim>\<open>strconv\<close>, \<^verbatim>\<open>path\<close> and \<^verbatim>\<open>net/http\<close> packages the program calls,
  on strings as byte lists. \<^verbatim>\<open>strings.ToLower\<close> is modelled on ASCII, where it works byte by byte: the
  program applies it to host names and header names, which the API server and \<^verbatim>\<open>net/http\<close> keep to
  ASCII. The rest is exact.
\<close>

section \<open>Package strings\<close>

definition has_prefix :: "string \<Rightarrow> string \<Rightarrow> bool" where
  "has_prefix s p \<longleftrightarrow> take (length p) s = p"

definition has_suffix :: "string \<Rightarrow> string \<Rightarrow> bool" where
  "has_suffix s p \<longleftrightarrow> length p \<le> length s \<and> drop (length s - length p) s = p"

definition trim_prefix :: "string \<Rightarrow> string \<Rightarrow> string" where
  "trim_prefix s p = (if has_prefix s p then drop (length p) s else s)"

definition trim_suffix :: "string \<Rightarrow> string \<Rightarrow> string" where
  "trim_suffix s p = (if has_suffix s p then take (length s - length p) s else s)"

text \<open>\<^verbatim>\<open>strings.CutPrefix\<close>: the rest after the prefix, or None where the second result is false.\<close>

definition cut_prefix :: "string \<Rightarrow> string \<Rightarrow> string option" where
  "cut_prefix s p = (if has_prefix s p then Some (drop (length p) s) else None)"

definition cut_suffix :: "string \<Rightarrow> string \<Rightarrow> string option" where
  "cut_suffix s p = (if has_suffix s p then Some (take (length s - length p) s) else None)"

text \<open>\<^verbatim>\<open>strings.Cut\<close> around the first occurrence of a separator.\<close>

fun str_cut :: "string \<Rightarrow> string \<Rightarrow> (string \<times> string) option" where
  "str_cut [] sep = (if sep = [] then Some ([], []) else None)"
| "str_cut (c # s) sep =
     (if has_prefix (c # s) sep then Some ([], drop (length sep) (c # s))
      else map_option (\<lambda>(a, b). (c # a, b)) (str_cut s sep))"

fun str_contains :: "string \<Rightarrow> string \<Rightarrow> bool" where
  "str_contains [] p \<longleftrightarrow> p = []"
| "str_contains (c # s) p \<longleftrightarrow> has_prefix (c # s) p \<or> str_contains s p"

text \<open>\<^verbatim>\<open>strings.LastIndex\<close> for a single byte, None for -1.\<close>

fun last_index :: "string \<Rightarrow> char \<Rightarrow> nat option" where
  "last_index [] c = None"
| "last_index (x # s) c =
     (case last_index s c of
        Some i \<Rightarrow> Some (Suc i)
      | None \<Rightarrow> if x = c then Some 0 else None)"

text \<open>\<^verbatim>\<open>strings.Split\<close> on a single byte.\<close>

fun str_split :: "char \<Rightarrow> string \<Rightarrow> string list" where
  "str_split c [] = [[]]"
| "str_split c (x # s) =
     (if x = c then [] # str_split c s
      else (case str_split c s of [] \<Rightarrow> [[x]] | w # ws \<Rightarrow> (x # w) # ws))"

fun str_join :: "string list \<Rightarrow> string \<Rightarrow> string" where
  "str_join [] sep = []"
| "str_join [s] sep = s"
| "str_join (s # t # ss) sep = s @ sep @ str_join (t # ss) sep"

definition char_lower :: "char \<Rightarrow> char" where
  "char_lower c =
     (if 65 \<le> (of_char c :: int) \<and> (of_char c :: int) \<le> 90 then char_of (of_char c + 32 :: int) else c)"

definition char_upper :: "char \<Rightarrow> char" where
  "char_upper c =
     (if 97 \<le> (of_char c :: int) \<and> (of_char c :: int) \<le> 122 then char_of (of_char c - 32 :: int) else c)"

definition to_lower :: "string \<Rightarrow> string" where
  "to_lower s = map char_lower s"

text \<open>\<^verbatim>\<open>strings.EqualFold\<close>, on ASCII.\<close>

definition equal_fold :: "string \<Rightarrow> string \<Rightarrow> bool" where
  "equal_fold s t \<longleftrightarrow> to_lower s = to_lower t"

definition is_space :: "char \<Rightarrow> bool" where
  "is_space c \<longleftrightarrow> of_char c \<in> {9, 10, 11, 12, 13, 32 :: int}"

definition trim_space :: "string \<Rightarrow> string" where
  "trim_space s = rev (dropWhile is_space (rev (dropWhile is_space s)))"

section \<open>Package strconv\<close>

function digits :: "int \<Rightarrow> string" where
  "digits n =
     (if n < 10 then [char_of (48 + n)] else digits (n div 10) @ [char_of (48 + n mod 10)])"
  by auto
termination
  by (relation "measure nat") auto

declare digits.simps [simp del]

definition itoa :: "int \<Rightarrow> string" where
  "itoa i = (if i < 0 then ''-'' @ digits (- i) else digits i)"

section \<open>Package path\<close>

text \<open>\<^verbatim>\<open>path.Clean\<close>: the elements between slashes are put on a stack; an empty element and
  \<^verbatim>\<open>.\<close> are dropped, \<^verbatim>\<open>..\<close> removes the element below it, and at the root it is dropped.\<close>

fun clean_elems :: "bool \<Rightarrow> string list \<Rightarrow> string list \<Rightarrow> string list" where
  "clean_elems rooted stack [] = rev stack"
| "clean_elems rooted stack (e # es) =
     (if e = [] \<or> e = ''.'' then clean_elems rooted stack es
      else if e = ''..'' then
        (case stack of
           [] \<Rightarrow> clean_elems rooted (if rooted then [] else [''..'']) es
         | e' # rest \<Rightarrow>
             clean_elems rooted (if e' = ''..'' then ''..'' # stack else rest) es)
      else clean_elems rooted (e # stack) es)"

definition path_clean :: "string \<Rightarrow> string" where
  "path_clean p =
     (let rooted = has_prefix p ''/'';
          body = str_join (clean_elems rooted [] (str_split (CHR ''/'') p)) ''/''
      in if rooted then ''/'' @ body else if body = [] then ''.'' else body)"

section \<open>Facts about strings\<close>

lemma has_prefix_iff [go_str]: "has_prefix s p \<longleftrightarrow> (\<exists>r. s = p @ r)"
  unfolding has_prefix_def by (metis append_eq_conv_conj append_take_drop_id)

lemma has_suffix_iff [go_str]: "has_suffix s p \<longleftrightarrow> (\<exists>l. s = l @ p)"
proof
  assume "has_suffix s p"
  then have "s = take (length s - length p) s @ p"
    unfolding has_suffix_def by (metis append_take_drop_id)
  then show "\<exists>l. s = l @ p" by blast
next
  assume "\<exists>l. s = l @ p"
  then show "has_suffix s p" by (auto simp: has_suffix_def)
qed

lemma has_prefix_append [simp]: "has_prefix (p @ r) p"
  by (simp add: has_prefix_def)

lemma has_suffix_append [simp]: "has_suffix (l @ p) p"
  by (simp add: has_suffix_def)

lemma has_prefix_Nil [simp]: "has_prefix s []"
  by (simp add: has_prefix_def)

lemma has_prefix_of_Nil [simp]: "has_prefix [] p \<longleftrightarrow> p = []"
  by (auto simp: has_prefix_def)

lemma has_prefix_Cons [simp]: "has_prefix (c # s) (d # p) \<longleftrightarrow> c = d \<and> has_prefix s p"
  by (auto simp: has_prefix_def)

lemma has_suffix_Nil [simp]: "has_suffix s []"
  by (simp add: has_suffix_def)

lemma has_suffix_length: "has_suffix s p \<Longrightarrow> length p \<le> length s"
  by (simp add: has_suffix_def)

lemma has_suffix_trans: "has_suffix a b \<Longrightarrow> has_suffix b c \<Longrightarrow> has_suffix a c"
  by (metis has_suffix_iff append.assoc)

lemma has_suffix_total:
  assumes "has_suffix s a" and "has_suffix s b" and "length a \<le> length b"
  shows "has_suffix b a"
proof -
  obtain l m where s: "s = l @ a" "s = m @ b" using assms(1,2) unfolding has_suffix_iff by blast
  then have "l @ a = m @ b" by simp
  then obtain us where "(l = m @ us \<and> us @ a = b) \<or> (l @ us = m \<and> a = us @ b)"
    by (auto simp: append_eq_append_conv2)
  with assms(3) have "\<exists>us. b = us @ a" by auto
  then show ?thesis by (simp add: has_suffix_iff)
qed

lemma has_suffix_same_length:
  "has_suffix s a \<Longrightarrow> has_suffix s b \<Longrightarrow> length a = length b \<Longrightarrow> a = b"
  by (simp add: has_suffix_def)

lemma cut_prefix_Some [go_str]: "cut_prefix s p = Some r \<longleftrightarrow> s = p @ r"
  by (auto simp: cut_prefix_def has_prefix_def) (metis append_take_drop_id)

lemma trim_prefix_append [simp]: "trim_prefix (p @ r) p = r"
  by (simp add: trim_prefix_def)

lemma str_cut_Some:
  "str_cut s sep = Some (a, b) \<Longrightarrow> s = a @ sep @ b"
proof (induction s sep arbitrary: a b rule: str_cut.induct)
  case (1 sep)
  then show ?case by (simp split: if_splits)
next
  case (2 c s sep)
  then show ?case by (auto simp: has_prefix_iff split: if_splits)
qed

lemma str_contains_iff [go_str]: "str_contains s p \<longleftrightarrow> (\<exists>l r. s = l @ p @ r)"
proof (induction s)
  case Nil
  then show ?case by simp
next
  case (Cons c s)
  show ?case
  proof
    assume "str_contains (c # s) p"
    then show "\<exists>l r. c # s = l @ p @ r"
      using Cons by (metis append.left_neutral append_Cons has_prefix_iff str_contains.simps(2))
  next
    assume "\<exists>l r. c # s = l @ p @ r"
    then obtain l r where "c # s = l @ p @ r" by blast
    then show "str_contains (c # s) p"
    proof (cases l)
      case Nil
      with \<open>c # s = l @ p @ r\<close> show ?thesis by (metis append_Nil has_prefix_append str_contains.simps(2))
    next
      case l: (Cons d l')
      with \<open>c # s = l @ p @ r\<close> have "s = l' @ p @ r" by simp
      then show ?thesis using Cons.IH by auto
    qed
  qed
qed

lemma last_index_None [go_str]: "last_index s c = None \<longleftrightarrow> c \<notin> set s"
  by (induction s) (auto split: option.splits)

lemma last_index_Some:
  "last_index s c = Some i \<Longrightarrow>
     i < length s \<and> s ! i = c \<and> c \<notin> set (drop (Suc i) s)"
  by (induction s arbitrary: i)
    (auto simp: last_index_None split: option.splits if_splits)

lemma str_split_not_Nil [simp]: "str_split c s \<noteq> []"
  by (induction s) (auto split: list.splits)

lemma str_join_split: "str_join (str_split c s) [c] = s"
proof (induction s)
  case Nil
  then show ?case by simp
next
  case (Cons x s)
  obtain w ws where "str_split c s = w # ws"
    by (metis list.exhaust str_split_not_Nil)
  then show ?case using Cons by (cases ws) auto
qed

lemma str_split_no_sep: "w \<in> set (str_split c s) \<Longrightarrow> c \<notin> set w"
proof (induction s arbitrary: w)
  case Nil
  then show ?case by simp
next
  case (Cons x s)
  obtain u us where u: "str_split c s = u # us"
    by (metis list.exhaust str_split_not_Nil)
  show ?case
  proof (cases "x = c")
    case True
    then show ?thesis using Cons by auto
  next
    case False
    then have "w = x # u \<or> w \<in> set us" using Cons.prems u by simp
    then show ?thesis using False Cons.IH u by auto
  qed
qed

lemma of_char_of_small: "0 \<le> n \<Longrightarrow> n < 256 \<Longrightarrow> (of_char (char_of n :: char) :: int) = n"
  by (simp only: of_char_of mod_pos_pos_trivial)

lemma char_lower_idem [simp]: "char_lower (char_lower c) = char_lower c"
proof (cases "65 \<le> (of_char c :: int) \<and> (of_char c :: int) \<le> 90")
  case True
  define m where "m = (of_char c :: int) + 32"
  have low: "char_lower c = char_of m" unfolding char_lower_def m_def by (rule if_P [OF True])
  have "0 \<le> m" "m < 256" "\<not> m \<le> 90" using True unfolding m_def by linarith+
  then have "\<not> (65 \<le> (of_char (char_of m :: char) :: int) \<and> (of_char (char_of m :: char) :: int) \<le> 90)"
    by (simp only: of_char_of_small) blast
  then have "char_lower (char_of m) = char_of m" unfolding char_lower_def by (rule if_not_P)
  with low show ?thesis by (simp only:)
next
  case False
  then have "char_lower c = c" unfolding char_lower_def by (rule if_not_P)
  then show ?thesis by (simp only:)
qed

lemma to_lower_idem [simp]: "to_lower (to_lower s) = to_lower s"
  by (simp add: to_lower_def)

lemma length_to_lower [simp]: "length (to_lower s) = length s"
  by (simp add: to_lower_def)

lemma to_lower_append [simp]: "to_lower (s @ t) = to_lower s @ to_lower t"
  by (simp add: to_lower_def)

lemma to_lower_Nil [simp]: "to_lower [] = []"
  by (simp add: to_lower_def)

lemma to_lower_Cons: "to_lower (c # s) = char_lower c # to_lower s"
  by (simp add: to_lower_def)

lemma to_lower_eq_Nil [simp]: "to_lower s = [] \<longleftrightarrow> s = []"
  by (simp add: to_lower_def)

text \<open>Two texts with the same last separator agree before and after it.\<close>

lemma last_sep_inj:
  "a @ c # b = a' @ c # b' \<Longrightarrow> c \<notin> set b \<Longrightarrow> c \<notin> set b' \<Longrightarrow> a = a' \<and> b = b'"
  by (auto simp: append_eq_append_conv2 Cons_eq_append_conv append_eq_Cons_conv)

lemma has_suffix_to_lower: "has_suffix s p \<Longrightarrow> has_suffix (to_lower s) (to_lower p)"
  by (auto simp: has_suffix_iff)

end
