(* ===== verification/GoHttp.thy ===== *)
theory GoHttp
  imports GoStrings
begin

text \<open>
  What the program uses of \<^verbatim>\<open>net/http\<close> and \<^verbatim>\<open>net/url\<close>: header maps with their canonical keys, the
  parsed query, and the request and response values that pass through the proxy. The locale
  \<open>header_store\<close> is the contract of \<^verbatim>\<open>http.Header\<close> the filters rely on.
\<close>

section \<open>Header maps\<close>

text \<open>\<^verbatim>\<open>http.Header\<close> is a map from canonical keys to value lists.\<close>

type_synonym Header = "string \<Rightarrow> string list option"

definition is_token_char :: "char \<Rightarrow> bool" where
  "is_token_char c \<longleftrightarrow>
     (let n = (of_char c :: int) in
        (94 \<le> n \<and> n \<le> 122) \<or> (65 \<le> n \<and> n \<le> 90) \<or> (48 \<le> n \<and> n \<le> 57) \<or> n = 45 \<or> n = 46
        \<or> n = 33 \<or> (35 \<le> n \<and> n \<le> 39) \<or> n = 42 \<or> n = 43 \<or> n = 124 \<or> n = 126)"

fun canonical_bytes :: "bool \<Rightarrow> string \<Rightarrow> string" where
  "canonical_bytes upper [] = []"
| "canonical_bytes upper (c # s) =
     (let c' = (if upper then char_upper c else char_lower c)
      in c' # canonical_bytes (c' = CHR ''-'') s)"

text \<open>\<^verbatim>\<open>http.CanonicalHeaderKey\<close>: a key with a byte outside the token characters is unchanged.\<close>

definition canonical_key :: "string \<Rightarrow> string" where
  "canonical_key k = (if list_all is_token_char k then canonical_bytes True k else k)"

definition header_Values :: "Header \<Rightarrow> string \<Rightarrow> string list" where
  "header_Values h k = (case h (canonical_key k) of None \<Rightarrow> [] | Some vs \<Rightarrow> vs)"

definition header_Get :: "Header \<Rightarrow> string \<Rightarrow> string" where
  "header_Get h k = (case header_Values h k of [] \<Rightarrow> '''' | v # _ \<Rightarrow> v)"

definition header_Set :: "Header \<Rightarrow> string \<Rightarrow> string \<Rightarrow> Header" where
  "header_Set h k v = h (canonical_key k \<mapsto> [v])"

definition header_Add :: "Header \<Rightarrow> string \<Rightarrow> string \<Rightarrow> Header" where
  "header_Add h k v = h (canonical_key k \<mapsto> header_Values h k @ [v])"

definition header_Del :: "Header \<Rightarrow> string \<Rightarrow> Header" where
  "header_Del h k = h (canonical_key k := None)"

section \<open>Query strings\<close>

definition is_hex :: "char \<Rightarrow> bool" where
  "is_hex c \<longleftrightarrow>
     (let n = (of_char c :: int) in
        (48 \<le> n \<and> n \<le> 57) \<or> (65 \<le> n \<and> n \<le> 70) \<or> (97 \<le> n \<and> n \<le> 102))"

definition unhex :: "char \<Rightarrow> int" where
  "unhex c =
     (let n = (of_char c :: int)
      in if n \<le> 57 then n - 48 else if n \<le> 70 then n - 55 else n - 87)"

definition upper_hex :: "int \<Rightarrow> char" where
  "upper_hex n = (if n < 10 then char_of (48 + n) else char_of (55 + n))"

definition is_alnum :: "char \<Rightarrow> bool" where
  "is_alnum c \<longleftrightarrow>
     (let n = (of_char c :: int) in
        (48 \<le> n \<and> n \<le> 57) \<or> (65 \<le> n \<and> n \<le> 90) \<or> (97 \<le> n \<and> n \<le> 122))"

text \<open>The encoding modes of \<^verbatim>\<open>net/url\<close> the program reaches, and which bytes each escapes.\<close>

datatype encoding = encodePath | encodeHost | encodeQueryComponent

definition should_escape :: "encoding \<Rightarrow> char \<Rightarrow> bool" where
  "should_escape mode c =
     (if is_alnum c \<or> c \<in> set ''-_.~'' then False
      else case mode of
        encodePath \<Rightarrow> c \<notin> set ''$&+,/:;=@''
      | encodeHost \<Rightarrow> c \<notin> set ''!$&()*+,;=:[]<>'' \<union> {CHR 0x27, CHR 0x22}
      | encodeQueryComponent \<Rightarrow> True)"

fun url_escape :: "encoding \<Rightarrow> string \<Rightarrow> string" where
  "url_escape mode [] = []"
| "url_escape mode (c # s) =
     (if should_escape mode c
      then (if c = CHR '' '' \<and> mode = encodeQueryComponent then ''+''
            else [CHR ''%'', upper_hex (of_char c div 16), upper_hex (of_char c mod 16)])
      else [c]) @ url_escape mode s"

text \<open>\<^verbatim>\<open>unescape\<close>, None where it returns an error: a malformed escape, and in a host an escape of an
  ASCII byte other than the percent sign or a byte that has to be escaped.\<close>

fun url_unescape :: "encoding \<Rightarrow> string \<Rightarrow> string option" where
  "url_unescape mode [] = Some []"
| "url_unescape mode (c # s) =
     (if c = CHR ''%'' then
        (case s of
           a # b # rest \<Rightarrow>
             (if \<not> (is_hex a \<and> is_hex b) then None
              else if mode = encodeHost \<and> unhex a < 8 \<and> \<not> (a = CHR ''2'' \<and> b = CHR ''5'') then None
              else map_option (Cons (char_of (16 * unhex a + unhex b))) (url_unescape mode rest))
         | _ \<Rightarrow> None)
      else if mode = encodeHost \<and> (of_char c :: int) < 128 \<and> should_escape mode c then None
      else map_option (Cons (if c = CHR ''+'' \<and> mode = encodeQueryComponent then CHR '' '' else c))
             (url_unescape mode s))"

abbreviation query_unescape :: "string \<Rightarrow> string option" where
  "query_unescape \<equiv> url_unescape encodeQueryComponent"

text \<open>One \<^verbatim>\<open>key=value\<close> setting of \<^verbatim>\<open>url.ParseQuery\<close>; \<^verbatim>\<open>URL.Query\<close> drops the ones in error.\<close>

definition parse_query_setting :: "string \<Rightarrow> (string \<times> string) option" where
  "parse_query_setting kv =
     (if CHR '';'' \<in> set kv \<or> kv = [] then None
      else
        let (k, v) = (case str_cut kv ''='' of None \<Rightarrow> (kv, []) | Some p \<Rightarrow> p)
        in case query_unescape k of
             None \<Rightarrow> None
           | Some k' \<Rightarrow> map_option (Pair k') (query_unescape v))"

definition parse_query :: "string \<Rightarrow> (string \<times> string) list" where
  "parse_query q = List.map_filter parse_query_setting (str_split (CHR ''&'') q)"

definition query_values :: "string \<Rightarrow> string \<Rightarrow> string list" where
  "query_values q name = map snd (filter (\<lambda>kv. fst kv = name) (parse_query q))"

section \<open>Requests and responses\<close>

text \<open>The fields of \<^verbatim>\<open>http.Request\<close> the proxy reads or writes. \<open>req_MatchedPrefix\<close> is the context
  value under \<^verbatim>\<open>matchedPrefixKey\<close>. A body is the data its reader yields and whether the reader ends
  in an error instead of the end of the stream; None is \<^verbatim>\<open>nil\<close> or \<^verbatim>\<open>http.NoBody\<close>.\<close>

record URL =
  url_Scheme :: string
  url_Host :: string
  url_Path :: string
  url_RawPath :: string
  url_RawQuery :: string

record BodyReader =
  br_Data :: string
  br_Fails :: bool

record Request =
  req_Method :: string
  req_Host :: string
  req_URL :: URL
  req_Header :: Header
  req_Body :: "BodyReader option"
  req_ContentLength :: int
  req_MatchedPrefix :: string

text \<open>\<open>resp_Request\<close> is \<^verbatim>\<open>Response.Request\<close>, the request the response answers.\<close>

record Response =
  resp_StatusCode :: int
  resp_Header :: Header
  resp_Request :: "Request option"

section \<open>Facts about headers\<close>

text \<open>Names that differ in case only are one header, as long as they are tokens.\<close>

lemma char_lower_cases:
  obtains "char_lower c = c" and "\<not> (65 \<le> (of_char c :: int) \<and> (of_char c :: int) \<le> 90)"
  | "(of_char (char_lower c) :: int) = of_char c + 32" and "65 \<le> (of_char c :: int)" and "(of_char c :: int) \<le> 90"
proof (cases "65 \<le> (of_char c :: int) \<and> (of_char c :: int) \<le> 90")
  case True
  then have "char_lower c = char_of (of_char c + 32 :: int)" unfolding char_lower_def by (rule if_P)
  moreover have "0 \<le> (of_char c :: int) + 32" "(of_char c :: int) + 32 < 256" using True by linarith+
  ultimately have "(of_char (char_lower c) :: int) = of_char c + 32"
    by (simp only: of_char_of_small)
  with True that(2) show thesis by blast
next
  case False
  then have "char_lower c = c" unfolding char_lower_def by (rule if_not_P)
  with False that(1) show thesis by blast
qed

lemma char_upper_lower: "char_upper (char_lower c) = char_upper c"
proof (cases rule: char_lower_cases [of c])
  case 1
  then show ?thesis by simp
next
  case 2
  then have "97 \<le> (of_char (char_lower c) :: int) \<and> (of_char (char_lower c) :: int) \<le> 122" by linarith
  then have "char_upper (char_lower c) = char_of (of_char (char_lower c) - 32 :: int)"
    unfolding char_upper_def by (rule if_P)
  also have "\<dots> = c" using 2(1) by (simp add: char_of_char)
  finally have "char_upper (char_lower c) = c" .
  moreover have "char_upper c = c"
    unfolding char_upper_def by (rule if_not_P) (use 2 in linarith)
  ultimately show ?thesis by simp
qed

lemma is_token_char_lower: "is_token_char (char_lower c) \<longleftrightarrow> is_token_char c"
proof (cases rule: char_lower_cases [of c])
  case 1
  then show ?thesis by simp
next
  case 2
  then have "94 \<le> (of_char (char_lower c) :: int)" "(of_char (char_lower c) :: int) \<le> 122" by linarith+
  with 2(2,3) show ?thesis unfolding is_token_char_def Let_def by blast
qed

lemma canonical_bytes_to_lower: "canonical_bytes upper (to_lower s) = canonical_bytes upper s"
  by (induction s arbitrary: upper) (auto simp: to_lower_Cons char_upper_lower Let_def)

lemma canonical_key_to_lower:
  "list_all is_token_char k \<Longrightarrow> canonical_key (to_lower k) = canonical_key k"
proof -
  assume k: "list_all is_token_char k"
  then have "list_all is_token_char (to_lower k)"
    by (simp add: to_lower_def list.pred_map comp_def is_token_char_lower)
  with k show ?thesis by (simp add: canonical_key_def canonical_bytes_to_lower)
qed

lemma header_Values_Set:
  "header_Values (header_Set h k v) k' =
     (if canonical_key k = canonical_key k' then [v] else header_Values h k')"
  by (auto simp: header_Values_def header_Set_def)

lemma header_Values_Add:
  "header_Values (header_Add h k v) k' =
     (if canonical_key k = canonical_key k' then header_Values h k' @ [v] else header_Values h k')"
  by (auto simp: header_Values_def header_Add_def)

lemma header_Values_Del:
  "header_Values (header_Del h k) k' =
     (if canonical_key k = canonical_key k' then [] else header_Values h k')"
  by (auto simp: header_Values_def header_Del_def)

lemma header_Get_Set_same [simp]: "header_Get (header_Set h k v) k = v"
  by (simp add: header_Get_def header_Values_Set)

lemma header_Get_Values_cong: "header_Values h k = header_Values h' k \<Longrightarrow> header_Get h k = header_Get h' k"
  by (simp add: header_Get_def)

text \<open>The contract of a header map: what each of the three updates does to the values under every
  name, where two names with the same canonical form are one header.\<close>

locale header_store =
  fixes vals :: "'h \<Rightarrow> string \<Rightarrow> string list"
    and hset hadd :: "'h \<Rightarrow> string \<Rightarrow> string \<Rightarrow> 'h"
    and hdel :: "'h \<Rightarrow> string \<Rightarrow> 'h"
    and canon :: "string \<Rightarrow> string"
  assumes vals_set: "vals (hset h k v) k' = (if canon k = canon k' then [v] else vals h k')"
    and vals_add: "vals (hadd h k v) k' = (if canon k = canon k' then vals h k' @ [v] else vals h k')"
    and vals_del: "vals (hdel h k) k' = (if canon k = canon k' then [] else vals h k')"
begin

lemma vals_fold_set:
  "vals (foldl (\<lambda>h (k, v). hset h k v) h kvs) k' =
     (case rev (filter (\<lambda>(k, v). canon k = canon k') kvs) of
        [] \<Rightarrow> vals h k' | (k, v) # _ \<Rightarrow> [v])"
  by (induction kvs rule: rev_induct) (auto simp: vals_set)

lemma vals_fold_add:
  "vals (foldl (\<lambda>h (k, v). hadd h k v) h kvs) k' =
     vals h k' @ map snd (filter (\<lambda>(k, v). canon k = canon k') kvs)"
  by (induction kvs rule: rev_induct) (auto simp: vals_add)

lemma vals_fold_del:
  "vals (foldl hdel h ks) k' = (if canon k' \<in> canon ` set ks then [] else vals h k')"
  by (induction ks rule: rev_induct) (auto simp: vals_del)

text \<open>Set, then add, then remove: a removed name has no value, whatever was set or added.\<close>

lemma vals_set_add_del:
  "vals (foldl hdel (foldl (\<lambda>h (k, v). hadd h k v) (foldl (\<lambda>h (k, v). hset h k v) h S) A) R) k' =
     (if canon k' \<in> canon ` set R then []
      else (case rev (filter (\<lambda>(k, v). canon k = canon k') S) of
              [] \<Rightarrow> vals h k' | (k, v) # _ \<Rightarrow> [v])
           @ map snd (filter (\<lambda>(k, v). canon k = canon k') A))"
  by (simp add: vals_fold_set vals_fold_add vals_fold_del)

end

interpretation http_header: header_store header_Values header_Set header_Add header_Del canonical_key
  by unfold_locales (simp_all add: header_Values_Set header_Values_Add header_Values_Del)

end
