(* ===== verification/ProxyConfig.thy ===== *)
theory ProxyConfig
  imports GoHttp
begin

text \<open>
  The configuration the controller pushes to the proxy (\<^verbatim>\<open>src/internal/proxy/config.go\<close>, with the CORS
  payload of \<^verbatim>\<open>cors.go\<close>, the diagnostics of \<^verbatim>\<open>diagnostics.go\<close> and the provenance of \<^verbatim>\<open>shadow.go\<close>): its
  types and its validation. A string type with named constants is a datatype with one more
  constructor for every other string; nil pointers and slices are None and the empty list.
\<close>

section \<open>Types\<close>

datatype PathMatchType =
  PathMatchExact | PathMatchPathPrefix | PathMatchRegularExpression | PathMatchOther string

record PathMatch =
  pm_Type :: PathMatchType
  pm_Value :: string

datatype HeaderMatchType =
  HeaderMatchExact | HeaderMatchRegularExpression | HeaderMatchOther string

record HeaderMatch =
  hm_Type :: HeaderMatchType
  hm_Name :: string
  hm_Value :: string

datatype QueryParamMatchType =
  QueryParamMatchExact | QueryParamMatchRegularExpression | QueryParamMatchOther string

record QueryParamMatch =
  qm_Type :: QueryParamMatchType
  qm_Name :: string
  qm_Value :: string

record RouteMatch =
  rm_Path :: "PathMatch option"
  rm_Headers :: "HeaderMatch list"
  rm_QueryParams :: "QueryParamMatch list"
  rm_Method :: string

datatype RouteFilterType =
    FilterRequestHeaderModifier | FilterResponseHeaderModifier | FilterRequestRedirect
  | FilterURLRewrite | FilterRequestMirror | FilterCORS | FilterOther string

record HeaderValue =
  hv_Name :: string
  hv_Value :: string

record HeaderModifier =
  mod_Set :: "HeaderValue list"
  mod_Add :: "HeaderValue list"
  mod_Remove :: "string list"

datatype RedirectPathType =
  RedirectPathFullReplace | RedirectPathPrefixReplace | RedirectPathOther string

record RedirectPath =
  rp_Type :: RedirectPathType
  rp_Value :: string

record RedirectConfig =
  rd_Scheme :: "string option"
  rd_Hostname :: "string option"
  rd_Port :: "int option"
  rd_Path :: "RedirectPath option"
  rd_StatusCode :: "int option"

datatype URLRewritePathType =
  URLRewriteFullPath | URLRewritePrefixMatch | URLRewriteOther string

record URLRewritePath =
  up_Type :: URLRewritePathType
  up_ReplaceFullPath :: "string option"
  up_ReplacePrefixMatch :: "string option"

record URLRewriteConfig =
  rw_Hostname :: "string option"
  rw_Path :: "URLRewritePath option"

datatype BackendProtocol = BackendProtocolHTTP | BackendProtocolH2C | BackendProtocolOther string

record BackendTLSConfig =
  tls_CABundlePEM :: string
  tls_ServerName :: string
  tls_SubjectAltNames :: "string list"
  tls_SubjectAltNameURIs :: "string list"
  tls_ClientCertPEM :: string
  tls_ClientKeyPEM :: string

record MirrorConfig =
  mi_BackendURL :: string
  mi_Percent :: "int option"
  mi_TLS :: "BackendTLSConfig option"
  mi_Protocol :: BackendProtocol

record CORSConfig =
  cors_AllowOrigins :: "string list"
  cors_AllowCredentials :: bool
  cors_AllowMethods :: "string list"
  cors_AllowHeaders :: "string list"
  cors_ExposeHeaders :: "string list"
  cors_MaxAge :: int

record RouteFilter =
  rf_Type :: RouteFilterType
  rf_RequestHeaderModifier :: "HeaderModifier option"
  rf_ResponseHeaderModifier :: "HeaderModifier option"
  rf_RequestRedirect :: "RedirectConfig option"
  rf_URLRewrite :: "URLRewriteConfig option"
  rf_RequestMirror :: "MirrorConfig option"
  rf_CORS :: "CORSConfig option"

record BackendRef =
  be_URL :: string
  be_Weight :: int
  be_Protocol :: BackendProtocol
  be_TLS :: "BackendTLSConfig option"
  be_Filters :: "RouteFilter list"
  be_WebSocket :: bool
  be_UnavailableStatus :: int

text \<open>Durations are in nanoseconds, as in \<^verbatim>\<open>time.Duration\<close>.\<close>

record RouteTimeouts =
  to_Request :: int
  to_Backend :: int

record RouteRule =
  rule_Hostnames :: "string list"
  rule_Matches :: "RouteMatch list"
  rule_Filters :: "RouteFilter list"
  rule_Backends :: "BackendRef list"
  rule_Timeouts :: "RouteTimeouts option"
  rule_UnavailableStatus :: int

datatype DiagnosticTarget =
    DiagnosticAccepted | DiagnosticResolvedRefs | DiagnosticShadowed | DiagnosticProxyConfigPush
  | DiagnosticTunnelShared | DiagnosticEvent

text \<open>The message text of a diagnostic is not modelled.\<close>

record RouteDiagnostic =
  dg_Namespace :: string
  dg_Name :: string
  dg_RuleIndex :: nat
  dg_Target :: DiagnosticTarget
  dg_Reason :: string
  dg_WholeRule :: bool
  dg_EventType :: string

record RuleProvenance =
  pv_Kind :: string
  pv_Namespace :: string
  pv_Name :: string
  pv_CreationTimestamp :: int
  pv_RuleIndex :: nat

record Config =
  cfg_Version :: int
  cfg_Rules :: "RouteRule list"
  cfg_HasGRPCRoute :: bool
  cfg_Diagnostics :: "RouteDiagnostic list"
  cfg_Provenance :: "RuleProvenance list"

section \<open>Operations\<close>

definition isKnownBackendProtocol :: "BackendProtocol \<Rightarrow> bool" where
  "isKnownBackendProtocol p =
     (case p of BackendProtocolHTTP \<Rightarrow> True | BackendProtocolH2C \<Rightarrow> True
              | BackendProtocolOther _ \<Rightarrow> False)"

definition HasSANConstraints :: "BackendTLSConfig option \<Rightarrow> bool" where
  "HasSANConstraints c =
     (case c of
        None \<Rightarrow> False
      | Some t \<Rightarrow> tls_SubjectAltNames t \<noteq> [] \<or> tls_SubjectAltNameURIs t \<noteq> [])"

definition HasClientCert :: "BackendTLSConfig option \<Rightarrow> bool" where
  "HasClientCert c =
     (case c of
        None \<Rightarrow> False
      | Some t \<Rightarrow> tls_ClientCertPEM t \<noteq> [] \<and> tls_ClientKeyPEM t \<noteq> [])"

definition validateMirrorFilter :: "MirrorConfig option \<Rightarrow> gerr option" where
  "validateMirrorFilter m =
     (case m of
        None \<Rightarrow> Some (Sentinel errFilterConfigRequired)
      | Some mc \<Rightarrow>
          (case mi_Percent mc of
             None \<Rightarrow> None
           | Some pct \<Rightarrow> if pct < 0 \<or> pct > 100 then Some (Sentinel errMirrorPercentRange) else None))"

definition validateCORSFilter :: "CORSConfig option \<Rightarrow> gerr option" where
  "validateCORSFilter c =
     (case c of
        None \<Rightarrow> Some (Sentinel errFilterConfigRequired)
      | Some cc \<Rightarrow> if cors_MaxAge cc < 0 then Some (Sentinel errCORSMaxAge) else None)"

definition require_config :: "'a option \<Rightarrow> gerr option" where
  "require_config c = (if c = None then Some (Sentinel errFilterConfigRequired) else None)"

definition RouteFilter_validate :: "RouteFilter \<Rightarrow> gerr option" where
  "RouteFilter_validate f =
     (case rf_Type f of
        FilterRequestHeaderModifier \<Rightarrow> require_config (rf_RequestHeaderModifier f)
      | FilterResponseHeaderModifier \<Rightarrow> require_config (rf_ResponseHeaderModifier f)
      | FilterRequestRedirect \<Rightarrow> require_config (rf_RequestRedirect f)
      | FilterURLRewrite \<Rightarrow> require_config (rf_URLRewrite f)
      | FilterRequestMirror \<Rightarrow> validateMirrorFilter (rf_RequestMirror f)
      | FilterCORS \<Rightarrow> validateCORSFilter (rf_CORS f)
      | FilterOther t \<Rightarrow> Some (Wrapped (AtValue t) (Sentinel errUnknownFilterType)))"

definition validate_path_match :: "PathMatch \<Rightarrow> gerr option" where
  "validate_path_match p =
     (case pm_Type p of
        PathMatchOther t \<Rightarrow> Some (Wrapped (AtValue t) (Sentinel errUnknownPathType))
      | _ \<Rightarrow> if pm_Value p = '''' then Some (Sentinel errPathValueRequired) else None)"

definition validate_header_match :: "HeaderMatch \<Rightarrow> gerr option" where
  "validate_header_match h =
     (case hm_Type h of
        HeaderMatchOther t \<Rightarrow> Some (Wrapped (AtValue t) (Sentinel errUnknownHeaderType))
      | _ \<Rightarrow> if hm_Name h = '''' then Some (Sentinel errNameRequired) else None)"

definition validate_query_match :: "QueryParamMatch \<Rightarrow> gerr option" where
  "validate_query_match q =
     (case qm_Type q of
        QueryParamMatchOther t \<Rightarrow> Some (Wrapped (AtValue t) (Sentinel errUnknownQueryType))
      | _ \<Rightarrow> if qm_Name q = '''' then Some (Sentinel errNameRequired) else None)"

definition RouteMatch_validate :: "RouteMatch \<Rightarrow> gerr option" where
  "RouteMatch_validate m =
     then_err (case rm_Path m of None \<Rightarrow> None | Some p \<Rightarrow> validate_path_match p)
       (then_err
          (first_err (\<lambda>i h. wrap_err (AtHeader i) (validate_header_match h)) 0 (rm_Headers m))
          (first_err (\<lambda>i q. wrap_err (AtQueryParam i) (validate_query_match q)) 0 (rm_QueryParams m)))"

definition validate_backend :: "BackendRef \<Rightarrow> gerr option" where
  "validate_backend b =
     (if be_URL b = '''' then Some (Sentinel errURLRequired)
      else if be_Weight b < 0 then Some (Sentinel errWeightNonNegative)
      else if \<not> isKnownBackendProtocol (be_Protocol b) then Some (Sentinel errUnknownProtocol)
      else first_err (\<lambda>i f. wrap_err (AtFilter i) (RouteFilter_validate f)) 0 (be_Filters b))"

definition RouteRule_validate :: "RouteRule \<Rightarrow> gerr option" where
  "RouteRule_validate r =
     then_err (first_err (\<lambda>i b. wrap_err (AtBackend i) (validate_backend b)) 0 (rule_Backends r))
       (then_err (first_err (\<lambda>i m. wrap_err (AtMatch i) (RouteMatch_validate m)) 0 (rule_Matches r))
          (first_err (\<lambda>i f. wrap_err (AtFilter i) (RouteFilter_validate f)) 0 (rule_Filters r)))"

definition Config_Validate :: "Config \<Rightarrow> gerr option" where
  "Config_Validate c =
     (if cfg_Version c < 0 then Some (Sentinel errVersionNonNegative)
      else first_err (\<lambda>i r. wrap_err (AtRule i) (RouteRule_validate r)) 0 (cfg_Rules c))"

text \<open>\<open>ParseConfig\<close>: \<^verbatim>\<open>json.Unmarshal\<close> into the typed config is the parameter.\<close>

definition ParseConfig :: "(string \<Rightarrow> gerr + Config) \<Rightarrow> string \<Rightarrow> gerr + Config" where
  "ParseConfig json_Unmarshal data =
     (case json_Unmarshal data of
        Inl e \<Rightarrow> Inl (Wrapped (InText ''failed to parse config JSON'') e)
      | Inr cfg \<Rightarrow>
          (case Config_Validate cfg of
             Some e \<Rightarrow> Inl (Wrapped (InText ''invalid config'') e)
           | None \<Rightarrow> Inr cfg))"

section \<open>Well-formedness\<close>

text \<open>What a configuration that passes validation satisfies, as a property of its parts.\<close>

definition wf_filter :: "RouteFilter \<Rightarrow> bool" where
  "wf_filter f =
     (case rf_Type f of
        FilterRequestHeaderModifier \<Rightarrow> rf_RequestHeaderModifier f \<noteq> None
      | FilterResponseHeaderModifier \<Rightarrow> rf_ResponseHeaderModifier f \<noteq> None
      | FilterRequestRedirect \<Rightarrow> rf_RequestRedirect f \<noteq> None
      | FilterURLRewrite \<Rightarrow> rf_URLRewrite f \<noteq> None
      | FilterRequestMirror \<Rightarrow>
          (case rf_RequestMirror f of
             None \<Rightarrow> False
           | Some m \<Rightarrow> (case mi_Percent m of None \<Rightarrow> True | Some p \<Rightarrow> 0 \<le> p \<and> p \<le> 100))
      | FilterCORS \<Rightarrow> (case rf_CORS f of None \<Rightarrow> False | Some c \<Rightarrow> 0 \<le> cors_MaxAge c)
      | FilterOther _ \<Rightarrow> False)"

definition wf_match :: "RouteMatch \<Rightarrow> bool" where
  "wf_match m \<longleftrightarrow>
     (case rm_Path m of
        None \<Rightarrow> True
      | Some p \<Rightarrow> (\<forall>t. pm_Type p \<noteq> PathMatchOther t) \<and> pm_Value p \<noteq> '''')
     \<and> (\<forall>h \<in> set (rm_Headers m). (\<forall>t. hm_Type h \<noteq> HeaderMatchOther t) \<and> hm_Name h \<noteq> '''')
     \<and> (\<forall>q \<in> set (rm_QueryParams m). (\<forall>t. qm_Type q \<noteq> QueryParamMatchOther t) \<and> qm_Name q \<noteq> '''')"

definition wf_backend :: "BackendRef \<Rightarrow> bool" where
  "wf_backend b \<longleftrightarrow>
     be_URL b \<noteq> '''' \<and> 0 \<le> be_Weight b \<and> isKnownBackendProtocol (be_Protocol b)
     \<and> (\<forall>f \<in> set (be_Filters b). wf_filter f)"

definition wf_rule :: "RouteRule \<Rightarrow> bool" where
  "wf_rule r \<longleftrightarrow>
     (\<forall>b \<in> set (rule_Backends r). wf_backend b) \<and> (\<forall>m \<in> set (rule_Matches r). wf_match m)
     \<and> (\<forall>f \<in> set (rule_Filters r). wf_filter f)"

definition wf_config :: "Config \<Rightarrow> bool" where
  "wf_config c \<longleftrightarrow> 0 \<le> cfg_Version c \<and> (\<forall>r \<in> set (cfg_Rules c). wf_rule r)"

section \<open>Lemmas\<close>

lemma RouteFilter_validate_iff: "RouteFilter_validate f = None \<longleftrightarrow> wf_filter f"
  by (auto simp: RouteFilter_validate_def wf_filter_def require_config_def validateMirrorFilter_def
      validateCORSFilter_def split: RouteFilterType.splits option.splits)

lemma validate_path_match_iff:
  "validate_path_match p = None \<longleftrightarrow> (\<forall>t. pm_Type p \<noteq> PathMatchOther t) \<and> pm_Value p \<noteq> ''''"
  by (auto simp: validate_path_match_def split: PathMatchType.splits)

lemma validate_header_match_iff:
  "validate_header_match h = None \<longleftrightarrow> (\<forall>t. hm_Type h \<noteq> HeaderMatchOther t) \<and> hm_Name h \<noteq> ''''"
  by (auto simp: validate_header_match_def split: HeaderMatchType.splits)

lemma validate_query_match_iff:
  "validate_query_match q = None \<longleftrightarrow> (\<forall>t. qm_Type q \<noteq> QueryParamMatchOther t) \<and> qm_Name q \<noteq> ''''"
  by (auto simp: validate_query_match_def split: QueryParamMatchType.splits)

lemma RouteMatch_validate_iff: "RouteMatch_validate m = None \<longleftrightarrow> wf_match m"
proof -
  have path: "(case rm_Path m of None \<Rightarrow> None | Some p \<Rightarrow> validate_path_match p) = None \<longleftrightarrow>
    (case rm_Path m of
        None \<Rightarrow> True
      | Some p \<Rightarrow> (\<forall>t. pm_Type p \<noteq> PathMatchOther t) \<and> pm_Value p \<noteq> '''')"
    by (simp add: validate_path_match_iff split: option.splits)
  show ?thesis
    unfolding RouteMatch_validate_def wf_match_def path [symmetric]
      validate_header_match_iff [symmetric] validate_query_match_iff [symmetric]
    by (simp add: first_err_wrap_iff)
qed

lemma validate_backend_iff: "validate_backend b = None \<longleftrightarrow> wf_backend b"
  by (auto simp: validate_backend_def wf_backend_def first_err_wrap_iff RouteFilter_validate_iff)

lemma RouteRule_validate_iff: "RouteRule_validate r = None \<longleftrightarrow> wf_rule r"
  unfolding RouteRule_validate_def wf_rule_def RouteFilter_validate_iff [symmetric]
    RouteMatch_validate_iff [symmetric] validate_backend_iff [symmetric]
  by (simp add: first_err_wrap_iff)

lemma Config_Validate_iff: "Config_Validate c = None \<longleftrightarrow> wf_config c"
  by (auto simp: Config_Validate_def wf_config_def first_err_wrap_iff RouteRule_validate_iff)

lemma ParseConfig_wf: "ParseConfig un data = Inr cfg \<Longrightarrow> wf_config cfg \<and> un data = Inr cfg"
  by (auto simp: ParseConfig_def Config_Validate_iff split: sum.splits option.splits)

end
