(* ===== verification/Matcher.thy ===== *)
theory Matcher
  imports ProxyConfig "HOL-Library.Sublist"
begin

text \<open>
  Request matching (\<^verbatim>\<open>src/internal/proxy/matcher.go\<close>): the matcher objects, their compilation from a
  \<^verbatim>\<open>RouteMatch\<close>, and what a compiled match decides. \<^verbatim>\<open>regexp.Compile\<close> is the parameter \<open>re_compile\<close>: it
  gives the predicate \<^verbatim>\<open>MatchString\<close> of a pattern, or None where the pattern does not compile.
\<close>

section \<open>Definitions\<close>

type_synonym regexp = "string \<Rightarrow> bool"
type_synonym re_engine = "string \<Rightarrow> regexp option"

datatype RequestMatcher =
    ExactPathMatcher string
  | PrefixPathMatcher string
  | RegexPathMatcher regexp
  | ExactHeaderMatcher string string
  | RegexHeaderMatcher string regexp
  | ExactQueryMatcher string string
  | RegexQueryMatcher string regexp
  | MethodMatcher string

abbreviation req_Path :: "Request \<Rightarrow> string" where
  "req_Path r \<equiv> url_Path (req_URL r)"

abbreviation req_Query :: "Request \<Rightarrow> string \<Rightarrow> string list" where
  "req_Query r \<equiv> query_values (url_RawQuery (req_URL r))"

definition exactPathMatcher_Match :: "string \<Rightarrow> Request \<Rightarrow> bool" where
  "exactPathMatcher_Match path r \<longleftrightarrow> req_Path r = path"

definition prefixPathMatcher_Match :: "string \<Rightarrow> Request \<Rightarrow> bool" where
  "prefixPathMatcher_Match pfx r =
     (let path = req_Path r in
      if \<not> has_prefix path pfx then False
      else if length path = length pfx then True
      else if has_suffix pfx ''/'' then True
      else path ! length pfx = CHR ''/'')"

definition regexPathMatcher_Match :: "regexp \<Rightarrow> Request \<Rightarrow> bool" where
  "regexPathMatcher_Match re r = re (req_Path r)"

definition exactHeaderMatcher_Match :: "string \<Rightarrow> string \<Rightarrow> Request \<Rightarrow> bool" where
  "exactHeaderMatcher_Match name v r = List.member (header_Values (req_Header r) name) v"

definition regexHeaderMatcher_Match :: "string \<Rightarrow> regexp \<Rightarrow> Request \<Rightarrow> bool" where
  "regexHeaderMatcher_Match name re r = list_ex re (header_Values (req_Header r) name)"

definition exactQueryMatcher_Match :: "string \<Rightarrow> string \<Rightarrow> Request \<Rightarrow> bool" where
  "exactQueryMatcher_Match param v r = List.member (req_Query r param) v"

definition regexQueryMatcher_Match :: "string \<Rightarrow> regexp \<Rightarrow> Request \<Rightarrow> bool" where
  "regexQueryMatcher_Match param re r = list_ex re (req_Query r param)"

definition methodMatcher_Match :: "string \<Rightarrow> Request \<Rightarrow> bool" where
  "methodMatcher_Match m r \<longleftrightarrow> req_Method r = m"

text \<open>The dynamic dispatch of the interface method \<^verbatim>\<open>RequestMatcher.Match\<close>.\<close>

primrec RequestMatcher_Match :: "RequestMatcher \<Rightarrow> Request \<Rightarrow> bool" where
  "RequestMatcher_Match (ExactPathMatcher p) r = exactPathMatcher_Match p r"
| "RequestMatcher_Match (PrefixPathMatcher p) r = prefixPathMatcher_Match p r"
| "RequestMatcher_Match (RegexPathMatcher re) r = regexPathMatcher_Match re r"
| "RequestMatcher_Match (ExactHeaderMatcher n v) r = exactHeaderMatcher_Match n v r"
| "RequestMatcher_Match (RegexHeaderMatcher n re) r = regexHeaderMatcher_Match n re r"
| "RequestMatcher_Match (ExactQueryMatcher n v) r = exactQueryMatcher_Match n v r"
| "RequestMatcher_Match (RegexQueryMatcher n re) r = regexQueryMatcher_Match n re r"
| "RequestMatcher_Match (MethodMatcher m) r = methodMatcher_Match m r"

type_synonym CompiledMatch = "RequestMatcher list"

fun CompiledMatch_Match :: "CompiledMatch \<Rightarrow> Request \<Rightarrow> bool" where
  "CompiledMatch_Match [] r = True"
| "CompiledMatch_Match (m # ms) r = (if \<not> RequestMatcher_Match m r then False else CompiledMatch_Match ms r)"

definition compile_regex :: "re_engine \<Rightarrow> (regexp \<Rightarrow> RequestMatcher) \<Rightarrow> string \<Rightarrow> gerr + RequestMatcher" where
  "compile_regex re_compile mk pattern =
     (case re_compile pattern of
        None \<Rightarrow> Inl (Sentinel errRegexpCompile)
      | Some re \<Rightarrow> Inr (mk re))"

definition compilePathMatcher :: "re_engine \<Rightarrow> PathMatch \<Rightarrow> gerr + RequestMatcher" where
  "compilePathMatcher re_compile p =
     (case pm_Type p of
        PathMatchExact \<Rightarrow> Inr (ExactPathMatcher (pm_Value p))
      | PathMatchPathPrefix \<Rightarrow> Inr (PrefixPathMatcher (pm_Value p))
      | PathMatchRegularExpression \<Rightarrow> compile_regex re_compile RegexPathMatcher (pm_Value p)
      | PathMatchOther t \<Rightarrow> Inl (Wrapped (AtValue t) (Sentinel errUnknownPathType)))"

definition compileHeaderMatcher :: "re_engine \<Rightarrow> HeaderMatch \<Rightarrow> gerr + RequestMatcher" where
  "compileHeaderMatcher re_compile h =
     (case hm_Type h of
        HeaderMatchExact \<Rightarrow> Inr (ExactHeaderMatcher (hm_Name h) (hm_Value h))
      | HeaderMatchRegularExpression \<Rightarrow>
          compile_regex re_compile (RegexHeaderMatcher (hm_Name h)) (hm_Value h)
      | HeaderMatchOther t \<Rightarrow> Inl (Wrapped (AtValue t) (Sentinel errUnknownHeaderType)))"

definition compileQueryMatcher :: "re_engine \<Rightarrow> QueryParamMatch \<Rightarrow> gerr + RequestMatcher" where
  "compileQueryMatcher re_compile q =
     (case qm_Type q of
        QueryParamMatchExact \<Rightarrow> Inr (ExactQueryMatcher (qm_Name q) (qm_Value q))
      | QueryParamMatchRegularExpression \<Rightarrow>
          compile_regex re_compile (RegexQueryMatcher (qm_Name q)) (qm_Value q)
      | QueryParamMatchOther t \<Rightarrow> Inl (Wrapped (AtValue t) (Sentinel errUnknownQueryType)))"

definition CompileMatch :: "re_engine \<Rightarrow> RouteMatch \<Rightarrow> gerr + CompiledMatch" where
  "CompileMatch re_compile m =
     (case (case rm_Path m of
              None \<Rightarrow> Inr []
            | Some p \<Rightarrow>
                (case compilePathMatcher re_compile p of Inl e \<Rightarrow> Inl e | Inr pm \<Rightarrow> Inr [pm])) of
        Inl e \<Rightarrow> Inl e
      | Inr path_ms \<Rightarrow>
          (let method_ms = (if rm_Method m \<noteq> '''' then [MethodMatcher (rm_Method m)] else [])
           in case traverse (\<lambda>_. compileHeaderMatcher re_compile) 0 (rm_Headers m) of
                Inl e \<Rightarrow> Inl e
              | Inr header_ms \<Rightarrow>
                  (case traverse (\<lambda>_. compileQueryMatcher re_compile) 0 (rm_QueryParams m) of
                     Inl e \<Rightarrow> Inl e
                   | Inr query_ms \<Rightarrow> Inr (path_ms @ method_ms @ header_ms @ query_ms))))"

section \<open>Specification\<close>

text \<open>What a match means, condition by condition, without the compilation step.\<close>

definition path_spec :: "re_engine \<Rightarrow> PathMatch \<Rightarrow> Request \<Rightarrow> bool" where
  "path_spec re_compile p r =
     (case pm_Type p of
        PathMatchExact \<Rightarrow> exactPathMatcher_Match (pm_Value p) r
      | PathMatchPathPrefix \<Rightarrow> prefixPathMatcher_Match (pm_Value p) r
      | PathMatchRegularExpression \<Rightarrow>
          (case re_compile (pm_Value p) of None \<Rightarrow> False | Some re \<Rightarrow> re (req_Path r))
      | PathMatchOther _ \<Rightarrow> False)"

definition header_spec :: "re_engine \<Rightarrow> HeaderMatch \<Rightarrow> Request \<Rightarrow> bool" where
  "header_spec re_compile h r \<longleftrightarrow>
     (\<exists>v \<in> set (header_Values (req_Header r) (hm_Name h)).
        case hm_Type h of
          HeaderMatchExact \<Rightarrow> v = hm_Value h
        | HeaderMatchRegularExpression \<Rightarrow>
            (case re_compile (hm_Value h) of None \<Rightarrow> False | Some re \<Rightarrow> re v)
        | HeaderMatchOther _ \<Rightarrow> False)"

definition query_spec :: "re_engine \<Rightarrow> QueryParamMatch \<Rightarrow> Request \<Rightarrow> bool" where
  "query_spec re_compile q r \<longleftrightarrow>
     (\<exists>v \<in> set (req_Query r (qm_Name q)).
        case qm_Type q of
          QueryParamMatchExact \<Rightarrow> v = qm_Value q
        | QueryParamMatchRegularExpression \<Rightarrow>
            (case re_compile (qm_Value q) of None \<Rightarrow> False | Some re \<Rightarrow> re v)
        | QueryParamMatchOther _ \<Rightarrow> False)"

definition match_spec :: "re_engine \<Rightarrow> RouteMatch \<Rightarrow> Request \<Rightarrow> bool" where
  "match_spec re_compile m r \<longleftrightarrow>
     (case rm_Path m of None \<Rightarrow> True | Some p \<Rightarrow> path_spec re_compile p r)
     \<and> (rm_Method m = '''' \<or> req_Method r = rm_Method m)
     \<and> (\<forall>h \<in> set (rm_Headers m). header_spec re_compile h r)
     \<and> (\<forall>q \<in> set (rm_QueryParams m). query_spec re_compile q r)"

text \<open>Every regular expression of a match compiles.\<close>

definition match_regexps_ok :: "re_engine \<Rightarrow> RouteMatch \<Rightarrow> bool" where
  "match_regexps_ok re_compile m \<longleftrightarrow>
     (case rm_Path m of
        None \<Rightarrow> True
      | Some p \<Rightarrow> pm_Type p = PathMatchRegularExpression \<longrightarrow> re_compile (pm_Value p) \<noteq> None)
     \<and> (\<forall>h \<in> set (rm_Headers m).
          hm_Type h = HeaderMatchRegularExpression \<longrightarrow> re_compile (hm_Value h) \<noteq> None)
     \<and> (\<forall>q \<in> set (rm_QueryParams m).
          qm_Type q = QueryParamMatchRegularExpression \<longrightarrow> re_compile (qm_Value q) \<noteq> None)"

section \<open>Lemmas\<close>

lemma CompiledMatch_Match_iff: "CompiledMatch_Match ms r \<longleftrightarrow> (\<forall>m \<in> set ms. RequestMatcher_Match m r)"
  by (induction ms) auto

lemma compilePathMatcher_spec:
  "compilePathMatcher re p = Inr m \<Longrightarrow> RequestMatcher_Match m r \<longleftrightarrow> path_spec re p r"
  by (auto simp: compilePathMatcher_def path_spec_def compile_regex_def regexPathMatcher_Match_def
      split: PathMatchType.splits option.splits)

lemma compileHeaderMatcher_spec:
  "compileHeaderMatcher re h = Inr m \<Longrightarrow> RequestMatcher_Match m r \<longleftrightarrow> header_spec re h r"
  by (auto simp: compileHeaderMatcher_def header_spec_def compile_regex_def
      exactHeaderMatcher_Match_def regexHeaderMatcher_Match_def list_ex_iff
      split: HeaderMatchType.splits option.splits)

lemma compileQueryMatcher_spec:
  "compileQueryMatcher re q = Inr m \<Longrightarrow> RequestMatcher_Match m r \<longleftrightarrow> query_spec re q r"
  by (auto simp: compileQueryMatcher_def query_spec_def compile_regex_def
      exactQueryMatcher_Match_def regexQueryMatcher_Match_def list_ex_iff
      split: QueryParamMatchType.splits option.splits)

lemma traverse_spec:
  assumes "traverse (\<lambda>_. f) i xs = Inr ms"
    and "\<And>x m. x \<in> set xs \<Longrightarrow> f x = Inr m \<Longrightarrow> P m \<longleftrightarrow> Q x"
  shows "(\<forall>m \<in> set ms. P m) \<longleftrightarrow> (\<forall>x \<in> set xs. Q x)"
proof -
  have "P (ms ! k) \<longleftrightarrow> Q (xs ! k)" if "k < length xs" for k
    using assms that by (auto simp: traverse_Inr)
  then show ?thesis using traverse_length [OF assms(1)] by (simp add: all_set_conv_all_nth)
qed

lemma CompileMatch_match_spec:
  assumes "CompileMatch re m = Inr cm"
  shows "CompiledMatch_Match cm r \<longleftrightarrow> match_spec re m r"
proof -
  obtain pms hms qms where parts:
    "(case rm_Path m of
        None \<Rightarrow> Inr []
      | Some p \<Rightarrow> (case compilePathMatcher re p of Inl e \<Rightarrow> Inl e | Inr pm \<Rightarrow> Inr [pm])) = Inr pms"
    "traverse (\<lambda>_. compileHeaderMatcher re) 0 (rm_Headers m) = Inr hms"
    "traverse (\<lambda>_. compileQueryMatcher re) 0 (rm_QueryParams m) = Inr qms"
    "cm = pms @ (if rm_Method m \<noteq> '''' then [MethodMatcher (rm_Method m)] else []) @ hms @ qms"
    using assms unfolding CompileMatch_def Let_def by (auto split: sum.splits)
  have "(\<forall>x \<in> set pms. RequestMatcher_Match x r) \<longleftrightarrow>
      (case rm_Path m of None \<Rightarrow> True | Some p \<Rightarrow> path_spec re p r)"
    using parts(1) by (auto simp: compilePathMatcher_spec split: option.splits sum.splits)
  moreover have "(\<forall>x \<in> set hms. RequestMatcher_Match x r) \<longleftrightarrow>
      (\<forall>h \<in> set (rm_Headers m). header_spec re h r)"
    using parts(2) by (rule traverse_spec) (rule compileHeaderMatcher_spec)
  moreover have "(\<forall>x \<in> set qms. RequestMatcher_Match x r) \<longleftrightarrow>
      (\<forall>q \<in> set (rm_QueryParams m). query_spec re q r)"
    using parts(3) by (rule traverse_spec) (rule compileQueryMatcher_spec)
  moreover have "(\<forall>x \<in> set (if rm_Method m \<noteq> '''' then [MethodMatcher (rm_Method m)] else []).
      RequestMatcher_Match x r) \<longleftrightarrow> rm_Method m = '''' \<or> req_Method r = rm_Method m"
    by (auto simp: methodMatcher_Match_def)
  ultimately show ?thesis
    by (simp only: parts(4) CompiledMatch_Match_iff match_spec_def set_append ball_Un)
qed

lemma CompileMatch_total:
  assumes "wf_match m" and "match_regexps_ok re m"
  shows "\<exists>cm. CompileMatch re m = Inr cm"
proof -
  have "\<exists>pms. (case rm_Path m of
        None \<Rightarrow> Inr []
      | Some p \<Rightarrow> (case compilePathMatcher re p of Inl e \<Rightarrow> Inl e | Inr pm \<Rightarrow> Inr [pm])) = Inr pms"
    using assms by (auto simp: compilePathMatcher_def compile_regex_def wf_match_def
        match_regexps_ok_def split: option.splits PathMatchType.splits)
  moreover have "\<exists>hms. traverse (\<lambda>_. compileHeaderMatcher re) 0 (rm_Headers m) = Inr hms"
    using assms by (intro traverse_total) (auto simp: compileHeaderMatcher_def compile_regex_def
        wf_match_def match_regexps_ok_def split: HeaderMatchType.splits option.splits)
  moreover have "\<exists>qms. traverse (\<lambda>_. compileQueryMatcher re) 0 (rm_QueryParams m) = Inr qms"
    using assms by (intro traverse_total) (auto simp: compileQueryMatcher_def compile_regex_def
        wf_match_def match_regexps_ok_def split: QueryParamMatchType.splits option.splits)
  ultimately show ?thesis by (auto simp: CompileMatch_def Let_def)
qed



subsection \<open>Path prefixes are compared element by element\<close>

lemma str_split_append_sep:
  "str_split c (p @ c # r) = str_split c p @ str_split c r"
proof (induction p)
  case Nil
  then show ?case by simp
next
  case (Cons x p)
  obtain w ws where "str_split c p = w # ws"
    by (metis list.exhaust str_split_not_Nil)
  then show ?case using Cons by simp
qed

lemma str_split_prefixD:
  assumes "str_split c s = str_split c p @ ws"
  shows "if ws = [] then s = p else \<exists>r. s = p @ c # r \<and> str_split c r = ws"
proof -
  have join: "str_join (us @ v # vs) [c] = str_join us [c] @ [c] @ str_join (v # vs) [c]"
    if "us \<noteq> []" for us v vs
    using that by (induction us rule: induct_list012) auto
  show ?thesis
  proof (cases ws)
    case Nil
    then show ?thesis using assms by (metis append_Nil2 str_join_split)
  next
    case (Cons v vs)
    then have "s = p @ c # str_join ws [c]"
      using join [of "str_split c p" v vs] assms str_join_split [of c s] str_join_split [of c p]
      by simp
    moreover from this have "str_split c (str_join ws [c]) = ws"
      using assms str_split_append_sep [of c p "str_join ws [c]"] by simp
    ultimately show ?thesis using Cons by auto
  qed
qed

lemma prefixPathMatcher_cases:
  "prefixPathMatcher_Match p r \<longleftrightarrow>
     req_Path r = p \<or> (\<exists>t. req_Path r = p @ CHR ''/'' # t)
     \<or> (has_suffix p ''/'' \<and> has_prefix (req_Path r) p)"
proof (cases "has_prefix (req_Path r) p")
  case True
  then obtain u where u: "req_Path r = p @ u" by (auto simp: has_prefix_iff)
  show ?thesis
  proof (cases u)
    case Nil
    then show ?thesis using u True by (simp add: prefixPathMatcher_Match_def)
  next
    case (Cons c u')
    then show ?thesis using u True by (auto simp: prefixPathMatcher_Match_def)
  qed
next
  case False
  then show ?thesis by (auto simp: prefixPathMatcher_Match_def has_prefix_iff)
qed

lemma prefix_split_iff:
  "prefix (str_split c q) (str_split c s) \<longleftrightarrow> s = q \<or> (\<exists>t. s = q @ c # t)"
proof
  assume "prefix (str_split c q) (str_split c s)"
  then obtain ws where "str_split c s = str_split c q @ ws" by (auto simp: prefix_def)
  from str_split_prefixD [OF this] show "s = q \<or> (\<exists>t. s = q @ c # t)"
    by (auto split: if_splits)
qed (auto simp: str_split_append_sep)

text \<open>A path prefix is matched element by element. A request path matches a prefix when the
  list of its elements between slashes starts with the elements of the prefix, a trailing slash of
  the prefix left out; and a prefix written with a trailing slash does not match the path that is
  exactly the prefix without it.\<close>

theorem prefix_match_by_elements:
  "RequestMatcher_Match (PrefixPathMatcher p) r \<longleftrightarrow>
     prefix (str_split (CHR ''/'') (trim_suffix p ''/'')) (str_split (CHR ''/'') (req_Path r))
     \<and> \<not> (has_suffix p ''/'' \<and> req_Path r = trim_suffix p ''/'')"
proof (cases "has_suffix p ''/''")
  case True
  then obtain q where q: "p = q @ ''/''" by (auto simp: has_suffix_iff)
  have "prefixPathMatcher_Match p r \<longleftrightarrow> (\<exists>t. req_Path r = q @ CHR ''/'' # t)"
    using True by (auto simp: prefixPathMatcher_cases has_prefix_iff q)
  then show ?thesis by (auto simp: prefix_split_iff trim_suffix_def q)
next
  case False
  then show ?thesis by (auto simp: prefixPathMatcher_cases prefix_split_iff trim_suffix_def)
qed

end
