(* ===== verification/Cors.thy ===== *)
theory Cors
  imports ProxyConfig
begin

text \<open>
  The CORS filter (\<^verbatim>\<open>src/internal/proxy/cors.go\<close>): preflight answers, headers on simple cross-origin
  responses, and the matching of origins. The lemmas show which origins are answered, that an
  origin is only ever reflected, and what a credentialed policy can emit.
\<close>

section \<open>Definitions\<close>

definition corsWildcard :: string where
  "corsWildcard = ''*''"

definition defaultCORSMaxAgeSeconds :: int where
  "defaultCORSMaxAgeSeconds = 5"

definition isCORSPreflight :: "Request \<Rightarrow> bool" where
  "isCORSPreflight req \<longleftrightarrow>
     req_Method req = ''OPTIONS''
     \<and> header_Get (req_Header req) ''Access-Control-Request-Method'' \<noteq> ''''"

definition allowedMethodsValue :: "string \<Rightarrow> CORSConfig \<Rightarrow> string" where
  "allowedMethodsValue requestedMethod cfg =
     (if cors_AllowMethods cfg = [] then ''''
      else if length (cors_AllowMethods cfg) = 1 \<and> cors_AllowMethods cfg ! 0 = corsWildcard then
        (if requestedMethod \<noteq> '''' then requestedMethod
         else if cors_AllowCredentials cfg then '''' else corsWildcard)
      else str_join (cors_AllowMethods cfg) '', '')"

definition allowedHeadersValue :: "string \<Rightarrow> CORSConfig \<Rightarrow> string" where
  "allowedHeadersValue requestedHeaders cfg =
     (if cors_AllowHeaders cfg = [] then ''''
      else if length (cors_AllowHeaders cfg) = 1 \<and> cors_AllowHeaders cfg ! 0 = corsWildcard then
        (if requestedHeaders \<noteq> '''' then requestedHeaders
         else if cors_AllowCredentials cfg then '''' else corsWildcard)
      else str_join (cors_AllowHeaders cfg) '', '')"

definition exposeHeadersValue :: "CORSConfig \<Rightarrow> string" where
  "exposeHeadersValue cfg =
     (if cors_ExposeHeaders cfg = [] then ''''
      else if length (cors_ExposeHeaders cfg) = 1 \<and> cors_ExposeHeaders cfg ! 0 = corsWildcard then
        (if cors_AllowCredentials cfg then '''' else corsWildcard)
      else str_join (cors_ExposeHeaders cfg) '', '')"

definition maxAgeSeconds :: "CORSConfig \<Rightarrow> int" where
  "maxAgeSeconds cfg = (if cors_MaxAge cfg \<le> 0 then defaultCORSMaxAgeSeconds else cors_MaxAge cfg)"

definition splitOrigin :: "string \<Rightarrow> (string \<times> string) option" where
  "splitOrigin origin =
     (case str_cut origin ''://'' of
        None \<Rightarrow> None
      | Some (scheme, rest) \<Rightarrow> if scheme = '''' \<or> rest = '''' then None else Some (scheme, rest))"

definition hostMatchesPattern :: "string \<Rightarrow> string \<Rightarrow> bool" where
  "hostMatchesPattern host pattern =
     (if pattern = host then True
      else if \<not> has_prefix pattern ''*.'' then False
      else let suffix = drop 1 pattern
           in has_suffix host suffix \<and> length host > length suffix)"

definition originMatchesPattern :: "string \<Rightarrow> string \<Rightarrow> bool" where
  "originMatchesPattern origin pattern =
     (if pattern = origin then True
      else case splitOrigin origin of
        None \<Rightarrow> False
      | Some (originScheme, originHost) \<Rightarrow>
          (case splitOrigin pattern of
             None \<Rightarrow> False
           | Some (patternScheme, patternHost) \<Rightarrow>
               if originScheme \<noteq> patternScheme then False
               else hostMatchesPattern originHost patternHost))"

definition originAllowed :: "string \<Rightarrow> string list \<Rightarrow> bool" where
  "originAllowed origin allowOrigins =
     (if origin = '''' \<or> origin = corsWildcard \<or> allowOrigins = [] then False
      else list_ex (\<lambda>allowed. allowed = corsWildcard \<or> originMatchesPattern origin allowed)
             allowOrigins)"

definition set_nonempty :: "Header \<Rightarrow> string \<Rightarrow> string \<Rightarrow> Header" where
  "set_nonempty h k v = (if v \<noteq> '''' then header_Set h k v else h)"

definition writePreflightHeaders :: "CORSConfig \<Rightarrow> Header \<Rightarrow> string \<Rightarrow> Request \<Rightarrow> Header" where
  "writePreflightHeaders cfg h0 origin req =
     (let h1 = header_Set h0 ''Access-Control-Allow-Origin'' origin;
          h2 = (if cors_AllowCredentials cfg
                then header_Set h1 ''Access-Control-Allow-Credentials'' ''true'' else h1);
          h3 = set_nonempty h2 ''Access-Control-Allow-Methods''
                 (allowedMethodsValue
                    (header_Get (req_Header req) ''Access-Control-Request-Method'') cfg);
          h4 = set_nonempty h3 ''Access-Control-Allow-Headers''
                 (allowedHeadersValue
                    (header_Get (req_Header req) ''Access-Control-Request-Headers'') cfg);
          h5 = set_nonempty h4 ''Access-Control-Expose-Headers'' (exposeHeadersValue cfg);
          h6 = header_Set h5 ''Access-Control-Max-Age'' (itoa (maxAgeSeconds cfg));
          h7 = header_Add h6 ''Vary'' ''Origin'';
          h8 = header_Add h7 ''Vary'' ''Access-Control-Request-Method''
      in header_Add h8 ''Vary'' ''Access-Control-Request-Headers'')"

definition writeSimpleHeaders :: "CORSConfig \<Rightarrow> Header \<Rightarrow> string \<Rightarrow> Header" where
  "writeSimpleHeaders cfg h0 origin =
     (let h1 = header_Set h0 ''Access-Control-Allow-Origin'' origin;
          h2 = (if cors_AllowCredentials cfg
                then header_Set h1 ''Access-Control-Allow-Credentials'' ''true'' else h1);
          h3 = set_nonempty h2 ''Access-Control-Expose-Headers'' (exposeHeadersValue cfg)
      in header_Add h3 ''Vary'' ''Origin'')"

definition CORSFilter_ProcessRequest :: "CORSConfig option \<Rightarrow> Request \<Rightarrow> Response option" where
  "CORSFilter_ProcessRequest cfg req =
     (case cfg of
        None \<Rightarrow> None
      | Some c \<Rightarrow>
          (if \<not> isCORSPreflight req then None
           else let origin = header_Get (req_Header req) ''Origin''
                in Some \<lparr> resp_StatusCode = 204,
                          resp_Header =
                            (if originAllowed origin (cors_AllowOrigins c)
                             then writePreflightHeaders c Map.empty origin req else Map.empty),
                          resp_Request = Some req \<rparr>))"

definition CORSFilter_ProcessResponse :: "CORSConfig option \<Rightarrow> Response \<Rightarrow> Response" where
  "CORSFilter_ProcessResponse cfg resp =
     (case cfg of
        None \<Rightarrow> resp
      | Some c \<Rightarrow>
          (case resp_Request resp of
             None \<Rightarrow> resp
           | Some req \<Rightarrow>
               (let origin = header_Get (req_Header req) ''Origin''
                in if isCORSPreflight req \<or> origin = ''''
                      \<or> \<not> originAllowed origin (cors_AllowOrigins c) then resp
                   else resp \<lparr> resp_Header := writeSimpleHeaders c (resp_Header resp) origin \<rparr>)))"

section \<open>Lemmas\<close>

subsection \<open>Origins\<close>

lemma splitOrigin_Some:
  "splitOrigin o' = Some (s, h) \<Longrightarrow> o' = s @ ''://'' @ h \<and> s \<noteq> '''' \<and> h \<noteq> ''''"
  by (auto simp: splitOrigin_def split: option.splits if_splits dest!: str_cut_Some)

lemma hostMatchesPattern_iff:
  "hostMatchesPattern h p \<longleftrightarrow>
     h = p \<or> (\<exists>d l. p = ''*.'' @ d \<and> l \<noteq> '''' \<and> h = l @ ''.'' @ d)"
proof (cases "has_prefix p ''*.''")
  case True
  then obtain d where d: "p = ''*.'' @ d" by (auto simp: has_prefix_iff)
  have "has_suffix h (CHR ''.'' # d) \<and> length h > length (CHR ''.'' # d) \<longleftrightarrow>
      (\<exists>l. l \<noteq> '''' \<and> h = l @ ''.'' @ d)"
    by (auto simp: has_suffix_iff)
  then show ?thesis by (auto simp: hostMatchesPattern_def d)
next
  case False
  then show ?thesis by (auto simp: hostMatchesPattern_def)
qed

text \<open>The headers the two writers produce, name by name.\<close>

lemma canonical_cors_names:
  "canonical_key ''Access-Control-Allow-Origin'' = ''Access-Control-Allow-Origin''"
  "canonical_key ''Access-Control-Allow-Credentials'' = ''Access-Control-Allow-Credentials''"
  "canonical_key ''Access-Control-Allow-Methods'' = ''Access-Control-Allow-Methods''"
  "canonical_key ''Access-Control-Allow-Headers'' = ''Access-Control-Allow-Headers''"
  "canonical_key ''Access-Control-Expose-Headers'' = ''Access-Control-Expose-Headers''"
  "canonical_key ''Access-Control-Max-Age'' = ''Access-Control-Max-Age''"
  "canonical_key ''Access-Control-Request-Method'' = ''Access-Control-Request-Method''"
  "canonical_key ''Access-Control-Request-Headers'' = ''Access-Control-Request-Headers''"
  "canonical_key ''Vary'' = ''Vary''"
  "canonical_key ''Origin'' = ''Origin''"
  by code_simp+

lemma header_Values_set_nonempty:
  "header_Values (set_nonempty h k v) k' =
     (if v \<noteq> '''' \<and> canonical_key k = canonical_key k' then [v] else header_Values h k')"
  by (simp add: set_nonempty_def header_Values_Set)

lemma header_Values_empty [simp]: "header_Values Map.empty k = []"
  by (simp add: header_Values_def)

lemmas cors_header_simps =
  header_Values_Set header_Values_Add header_Values_set_nonempty canonical_cors_names

lemma preflight_values:
  fixes cfg h0 origin req
  defines "h \<equiv> writePreflightHeaders cfg h0 origin req"
  shows "header_Values h ''Access-Control-Allow-Origin'' = [origin]"
    and "header_Values h ''Access-Control-Allow-Credentials'' =
           (if cors_AllowCredentials cfg then [''true''] else header_Values h0 ''Access-Control-Allow-Credentials'')"
    and "header_Values h ''Access-Control-Allow-Methods'' =
           (let v = allowedMethodsValue (header_Get (req_Header req) ''Access-Control-Request-Method'') cfg
            in if v \<noteq> '''' then [v] else header_Values h0 ''Access-Control-Allow-Methods'')"
    and "header_Values h ''Access-Control-Allow-Headers'' =
           (let v = allowedHeadersValue (header_Get (req_Header req) ''Access-Control-Request-Headers'') cfg
            in if v \<noteq> '''' then [v] else header_Values h0 ''Access-Control-Allow-Headers'')"
    and "header_Values h ''Access-Control-Expose-Headers'' =
           (if exposeHeadersValue cfg \<noteq> '''' then [exposeHeadersValue cfg]
            else header_Values h0 ''Access-Control-Expose-Headers'')"
  unfolding h_def writePreflightHeaders_def Let_def
  by (simp_all add: cors_header_simps)

lemma simple_values:
  fixes cfg h0 origin
  defines "h \<equiv> writeSimpleHeaders cfg h0 origin"
  shows "header_Values h ''Access-Control-Allow-Origin'' = [origin]"
    and "header_Values h ''Access-Control-Expose-Headers'' =
           (if exposeHeadersValue cfg \<noteq> '''' then [exposeHeadersValue cfg]
            else header_Values h0 ''Access-Control-Expose-Headers'')"
    and "header_Values h ''Vary'' = header_Values h0 ''Vary'' @ [''Origin'']"
  unfolding h_def writeSimpleHeaders_def Let_def
  by (simp_all add: cors_header_simps)

subsection \<open>Wildcards and credentials\<close>

lemma in_set_nonempty: "corsWildcard \<in> set (if v \<noteq> '''' then [v] else []) \<longleftrightarrow> v = corsWildcard"
  by (auto simp: corsWildcard_def)

lemma str_join_not_wildcard:
  "xs \<noteq> [] \<Longrightarrow> \<not> (length xs = 1 \<and> xs ! 0 = corsWildcard) \<Longrightarrow> str_join xs '', '' \<noteq> corsWildcard"
  by (cases "(xs, '', '')" rule: str_join.cases)
    (auto simp: corsWildcard_def append_eq_Cons_conv)

lemma allowedMethodsValue_wildcard:
  "cors_AllowCredentials cfg \<Longrightarrow> allowedMethodsValue m cfg = corsWildcard \<longleftrightarrow>
     cors_AllowMethods cfg = [corsWildcard] \<and> m = corsWildcard"
  using str_join_not_wildcard [of "cors_AllowMethods cfg"]
  by (cases "cors_AllowMethods cfg") (auto simp: allowedMethodsValue_def corsWildcard_def)

lemma allowedHeadersValue_wildcard:
  "cors_AllowCredentials cfg \<Longrightarrow> allowedHeadersValue m cfg = corsWildcard \<longleftrightarrow>
     cors_AllowHeaders cfg = [corsWildcard] \<and> m = corsWildcard"
  using str_join_not_wildcard [of "cors_AllowHeaders cfg"]
  by (cases "cors_AllowHeaders cfg") (auto simp: allowedHeadersValue_def corsWildcard_def)

lemma exposeHeadersValue_wildcard:
  "cors_AllowCredentials cfg \<Longrightarrow> exposeHeadersValue cfg \<noteq> corsWildcard"
  using str_join_not_wildcard [of "cors_ExposeHeaders cfg"]
  by (cases "cors_ExposeHeaders cfg") (auto simp: exposeHeadersValue_def corsWildcard_def)

section \<open>Properties\<close>

text \<open>An origin is allowed exactly when it is neither empty nor the literal asterisk and some
  entry of the allow list is the asterisk, the origin itself, or a pattern with the same scheme
  whose host part is an asterisk label followed by a domain of which the origin's host is a proper
  subdomain. The bare domain of such a pattern is not allowed by it.\<close>

theorem origin_allowed_iff:
  "originAllowed origin allow \<longleftrightarrow>
     origin \<noteq> '''' \<and> origin \<noteq> ''*'' \<and>
     (''*'' \<in> set allow \<or> origin \<in> set allow
      \<or> (\<exists>p scheme d l.
           p \<in> set allow \<and> splitOrigin p = Some (scheme, ''*.'' @ d) \<and> l \<noteq> ''''
           \<and> splitOrigin origin = Some (scheme, l @ ''.'' @ d)))"
proof -
  have pat: "originMatchesPattern origin p \<longleftrightarrow>
      p = origin \<or> (\<exists>scheme d l. splitOrigin p = Some (scheme, ''*.'' @ d) \<and> l \<noteq> ''''
                     \<and> splitOrigin origin = Some (scheme, l @ ''.'' @ d))" for p
    unfolding originMatchesPattern_def
    by (auto simp: hostMatchesPattern_iff split: option.splits dest: splitOrigin_Some)
  show ?thesis
    unfolding originAllowed_def list_ex_iff pat corsWildcard_def by auto
qed

text \<open>A preflight request is always answered by the filter, with status 204. The answer names
  an allowed origin exactly when the request's origin is allowed, and then it is the request's own
  origin, never the asterisk; for any other origin the answer carries no CORS header at all.\<close>

theorem preflight_reflects_allowed_origin:
  assumes "isCORSPreflight req"
  shows "\<exists>resp. CORSFilter_ProcessRequest (Some c) req = Some resp
           \<and> resp_StatusCode resp = 204
           \<and> (if originAllowed (header_Get (req_Header req) ''Origin'') (cors_AllowOrigins c)
              then header_Values (resp_Header resp) ''Access-Control-Allow-Origin''
                     = [header_Get (req_Header req) ''Origin'']
                   \<and> header_Get (req_Header req) ''Origin'' \<noteq> ''*''
              else resp_Header resp = Map.empty)"
  using assms
  by (simp add: CORSFilter_ProcessRequest_def Let_def preflight_values)
    (simp add: originAllowed_def corsWildcard_def)

definition sample_preflight :: Request where
  "sample_preflight =
     \<lparr> req_Method = ''OPTIONS'', req_Host = ''api.example.com'',
       req_URL = \<lparr> url_Scheme = '''', url_Host = '''', url_Path = ''/v1'', url_RawPath = '''',
                   url_RawQuery = '''' \<rparr>,
       req_Header = [''Origin'' \<mapsto> [''https://app.example.com''],
                     ''Access-Control-Request-Method'' \<mapsto> [''PUT'']],
       req_Body = None, req_ContentLength = 0, req_MatchedPrefix = '''' \<rparr>"

definition sample_cors :: CORSConfig where
  "sample_cors =
     \<lparr> cors_AllowOrigins = [''https://*.example.com''], cors_AllowCredentials = True,
       cors_AllowMethods = [''*''], cors_AllowHeaders = [''*''], cors_ExposeHeaders = [''*''],
       cors_MaxAge = 0 \<rparr>"

lemma sample_preflight_facts:
  "isCORSPreflight sample_preflight"
  "originAllowed (header_Get (req_Header sample_preflight) ''Origin'') (cors_AllowOrigins sample_cors)"
  "header_Get (req_Header sample_preflight) ''Origin'' = ''https://app.example.com''"
  "header_Get (req_Header sample_preflight) ''Access-Control-Request-Method'' = ''PUT''"
  "header_Get (req_Header sample_preflight) ''Access-Control-Request-Headers'' = ''''"
  by code_simp+

text \<open>Under a policy that allows credentials, the answer to a preflight never carries the
  asterisk in the exposed headers, and carries it in the allowed methods (or headers) only where the
  policy is the asterisk alone and the request itself asked for the method (or headers) named by an
  asterisk, which is then echoed.\<close>

theorem credentialed_preflight_wildcards:
  assumes "cors_AllowCredentials c" and "CORSFilter_ProcessRequest (Some c) req = Some resp"
  shows "''*'' \<notin> set (header_Values (resp_Header resp) ''Access-Control-Expose-Headers'')
    \<and> (''*'' \<in> set (header_Values (resp_Header resp) ''Access-Control-Allow-Methods'') \<longleftrightarrow>
           originAllowed (header_Get (req_Header req) ''Origin'') (cors_AllowOrigins c)
           \<and> cors_AllowMethods c = [''*'']
           \<and> header_Get (req_Header req) ''Access-Control-Request-Method'' = ''*'')
    \<and> (''*'' \<in> set (header_Values (resp_Header resp) ''Access-Control-Allow-Headers'') \<longleftrightarrow>
           originAllowed (header_Get (req_Header req) ''Origin'') (cors_AllowOrigins c)
           \<and> cors_AllowHeaders c = [''*'']
           \<and> header_Get (req_Header req) ''Access-Control-Request-Headers'' = ''*'')"
proof (cases "originAllowed (header_Get (req_Header req) ''Origin'') (cors_AllowOrigins c)")
  case True
  have h: "resp_Header resp =
      writePreflightHeaders c Map.empty (header_Get (req_Header req) ''Origin'') req"
    using assms(2) True unfolding CORSFilter_ProcessRequest_def Let_def by (auto split: if_splits)
  show ?thesis
    unfolding h preflight_values Let_def header_Values_empty in_set_nonempty
      corsWildcard_def [symmetric] allowedMethodsValue_wildcard [OF assms(1)]
      allowedHeadersValue_wildcard [OF assms(1)]
    using True exposeHeadersValue_wildcard [OF assms(1)] by (simp only: simp_thms)
next
  case False
  have "resp_Header resp = Map.empty"
    using assms(2) False unfolding CORSFilter_ProcessRequest_def Let_def by (auto split: if_splits)
  with False show ?thesis by simp
qed

end
