(* ===== verification/GoUrl.thy ===== *)
theory GoUrl
  imports GoHttp
begin

text \<open>
  \<^verbatim>\<open>url.Parse\<close>, \<^verbatim>\<open>URL.String\<close> and \<^verbatim>\<open>URL.RequestURI\<close> of \<^verbatim>\<open>net/url\<close>, on the fields of \<^verbatim>\<open>url.URL\<close> the
  proxy uses (scheme, host, path and query). User information is checked by its shape only and
  dropped, a fragment is dropped, and IPv6 zone identifiers are outside the model.
\<close>

section \<open>Writing a URL\<close>

definition valid_encoded_path :: "string \<Rightarrow> bool" where
  "valid_encoded_path s \<longleftrightarrow>
     list_all (\<lambda>c. c \<in> set ''!$&()*+,;=:@[]%'' \<or> c = CHR 0x27 \<or> \<not> should_escape encodePath c) s"

definition EscapedPath :: "URL \<Rightarrow> string" where
  "EscapedPath u =
     (if url_RawPath u \<noteq> '''' \<and> valid_encoded_path (url_RawPath u)
         \<and> url_unescape encodePath (url_RawPath u) = Some (url_Path u)
      then url_RawPath u
      else if url_Path u = ''*'' then ''*''
      else url_escape encodePath (url_Path u))"

definition url_String :: "URL \<Rightarrow> string" where
  "url_String u =
     (let path = EscapedPath u;
          front =
            (if url_Scheme u \<noteq> '''' then url_Scheme u @ '':'' else '''')
            @ (if url_Scheme u \<noteq> '''' \<or> url_Host u \<noteq> ''''
               then (if url_Host u \<noteq> '''' \<or> url_Path u \<noteq> '''' then ''//'' else '''')
                    @ url_escape encodeHost (url_Host u)
               else '''')
            @ (if path \<noteq> '''' \<and> hd path \<noteq> CHR ''/'' \<and> url_Host u \<noteq> '''' then ''/'' else '''');
          seg = (case str_cut path ''/'' of None \<Rightarrow> path | Some (a, _) \<Rightarrow> a)
      in front @ (if front = '''' \<and> CHR '':'' \<in> set seg then ''./'' else '''') @ path
         @ (if url_RawQuery u \<noteq> '''' then ''?'' @ url_RawQuery u else ''''))"

definition RequestURI :: "URL \<Rightarrow> string" where
  "RequestURI u =
     (let p = EscapedPath u
      in (if p = '''' then ''/'' else p)
         @ (if url_RawQuery u \<noteq> '''' then ''?'' @ url_RawQuery u else ''''))"

section \<open>Reading a URL\<close>

definition is_ctl :: "char \<Rightarrow> bool" where
  "is_ctl c \<longleftrightarrow> (of_char c :: int) < 32 \<or> (of_char c :: int) = 127"

definition is_alpha :: "char \<Rightarrow> bool" where
  "is_alpha c \<longleftrightarrow>
     (let n = (of_char c :: int) in (65 \<le> n \<and> n \<le> 90) \<or> (97 \<le> n \<and> n \<le> 122))"

text \<open>\<^verbatim>\<open>getScheme\<close>: \<open>first\<close> is whether this is the first byte. None is the error of a missing scheme;
  a byte that cannot be in a scheme means that there is none and the rest is the whole text.\<close>

fun get_scheme :: "bool \<Rightarrow> string \<Rightarrow> string \<Rightarrow> string \<Rightarrow> (string \<times> string) option" where
  "get_scheme first whole acc [] = Some ('''', whole)"
| "get_scheme first whole acc (c # s) =
     (if is_alpha c then get_scheme False whole (acc @ [c]) s
      else if (48 \<le> (of_char c :: int) \<and> (of_char c :: int) \<le> 57) \<or> c \<in> set ''+-.'' then
        (if first then Some ('''', whole) else get_scheme False whole (acc @ [c]) s)
      else if c = CHR '':'' then (if first then None else Some (acc, s))
      else Some ('''', whole))"

definition valid_optional_port :: "string \<Rightarrow> bool" where
  "valid_optional_port p =
     (case p of
        [] \<Rightarrow> True
      | c # ds \<Rightarrow> c = CHR '':'' \<and> list_all (\<lambda>d. 48 \<le> (of_char d :: int) \<and> (of_char d :: int) \<le> 57) ds)"

definition parse_host :: "string \<Rightarrow> string option" where
  "parse_host host =
     (if has_prefix host ''['' then
        (case last_index host (CHR '']'') of
           None \<Rightarrow> None
         | Some i \<Rightarrow>
             (if valid_optional_port (drop (Suc i) host) then url_unescape encodeHost host else None))
      else
        (case last_index host (CHR '':'') of
           None \<Rightarrow> url_unescape encodeHost host
         | Some i \<Rightarrow>
             (if valid_optional_port (drop i host) then url_unescape encodeHost host else None)))"

definition valid_userinfo :: "string \<Rightarrow> bool" where
  "valid_userinfo s \<longleftrightarrow>
     list_all (\<lambda>c. is_alnum c \<or> c \<in> set ''-._:~!$&()*+,;=%'' \<or> c = CHR 0x27) s"

definition parse_authority :: "string \<Rightarrow> string option" where
  "parse_authority a =
     (case last_index a (CHR ''@'') of
        None \<Rightarrow> parse_host a
      | Some i \<Rightarrow>
          (if valid_userinfo (take i a) \<and> url_unescape encodePath (take i a) \<noteq> None
           then parse_host (drop (Suc i) a) else None))"

text \<open>\<^verbatim>\<open>setPath\<close>: the decoded path, and the encoded one where the default encoding differs.\<close>

definition set_path :: "URL \<Rightarrow> string \<Rightarrow> URL option" where
  "set_path u p =
     map_option
       (\<lambda>path. u \<lparr> url_Path := path,
                  url_RawPath := (if p = url_escape encodePath path then '''' else p) \<rparr>)
       (url_unescape encodePath p)"

definition empty_url :: URL where
  "empty_url = \<lparr> url_Scheme = '''', url_Host = '''', url_Path = '''', url_RawPath = '''',
                url_RawQuery = '''' \<rparr>"

definition url_Parse :: "string \<Rightarrow> URL option" where
  "url_Parse raw =
     (let u = (case str_cut raw ''#'' of None \<Rightarrow> raw | Some (a, _) \<Rightarrow> a) in
      if list_ex is_ctl u then None
      else if u = ''*'' then Some (empty_url \<lparr> url_Path := ''*'' \<rparr>)
      else case get_scheme True u '''' u of
        None \<Rightarrow> None
      | Some (scheme0, rest0) \<Rightarrow>
          (let scheme = to_lower scheme0;
               (rest, query) =
                 (if has_suffix rest0 ''?'' \<and> count_list rest0 (CHR ''?'') = 1
                  then (take (length rest0 - 1) rest0, '''')
                  else case str_cut rest0 ''?'' of None \<Rightarrow> (rest0, '''') | Some p \<Rightarrow> p);
               base = empty_url \<lparr> url_Scheme := scheme, url_RawQuery := query \<rparr>;
               seg = (case str_cut rest ''/'' of None \<Rightarrow> rest | Some (a, _) \<Rightarrow> a)
           in if \<not> has_prefix rest ''/'' \<and> scheme \<noteq> '''' then Some base
              else if \<not> has_prefix rest ''/'' \<and> CHR '':'' \<in> set seg then None
              else if has_prefix rest ''//'' \<and> (scheme \<noteq> '''' \<or> \<not> has_prefix rest ''///'') then
                (let body = drop 2 rest;
                     (authority, path) =
                       (case str_cut body ''/'' of
                          None \<Rightarrow> (body, '''') | Some (a, b) \<Rightarrow> (a, ''/'' @ b))
                 in case parse_authority authority of
                      None \<Rightarrow> None
                    | Some h \<Rightarrow> set_path (base \<lparr> url_Host := h \<rparr>) path)
              else set_path base rest))"

definition url_host_of :: "string \<Rightarrow> string option" where
  "url_host_of raw = map_option url_Host (url_Parse raw)"

end
