(* ===== verification/ProxyFilter.thy ===== *)
theory ProxyFilter
  imports Cors GoUrl
begin

text \<open>
  The request and response filters of a rule or backend (\<^verbatim>\<open>src/internal/proxy/filter.go\<close>): compilation of
  a \<^verbatim>\<open>RouteFilter\<close>, what each filter does to a request and a response, and the pipeline that runs
  them. A filter whose payload pointer is nil panics when it is used; that is the error
  \<^const>\<open>errNilDereference\<close>. Random draws and the outcome of network calls are arguments.
\<close>

section \<open>Definitions\<close>

definition maxMirrorBodySize :: nat where
  "maxMirrorBodySize = 1048576"

definition mirrorMaxAttempts :: nat where
  "mirrorMaxAttempts = 3"

definition hostRewrittenHeader :: string where
  "hostRewrittenHeader = ''X-Proxy-Host-Rewritten''"

definition SetMatchedPrefix :: "Request \<Rightarrow> string \<Rightarrow> Request" where
  "SetMatchedPrefix req pfx = req \<lparr> req_MatchedPrefix := pfx \<rparr>"

definition isHostRewritten :: "Request \<Rightarrow> bool" where
  "isHostRewritten req \<longleftrightarrow> header_Get (req_Header req) hostRewrittenHeader \<noteq> ''''"

definition applyHeaderModifier :: "Header \<Rightarrow> HeaderModifier \<Rightarrow> Header" where
  "applyHeaderModifier headers modifier =
     foldl header_Del
       (foldl (\<lambda>h hv. header_Add h (hv_Name hv) (hv_Value hv))
          (foldl (\<lambda>h hv. header_Set h (hv_Name hv) (hv_Value hv)) headers (mod_Set modifier))
          (mod_Add modifier))
       (mod_Remove modifier)"

definition stripPort :: "string \<Rightarrow> string" where
  "stripPort host =
     (case last_index host (CHR '':'') of
        None \<Rightarrow> host
      | Some idx \<Rightarrow> if \<not> str_contains (drop idx host) '']'' then take idx host else host)"

definition joinPathSegments :: "string \<Rightarrow> string \<Rightarrow> string" where
  "joinPathSegments pfx sfx = (if sfx = '''' then pfx else path_clean (pfx @ ''/'' @ sfx))"

definition buildRedirectBase :: "Request \<Rightarrow> RedirectConfig \<Rightarrow> URL" where
  "buildRedirectBase req config =
     (let scheme0 = (if url_Scheme (req_URL req) = '''' then ''https'' else url_Scheme (req_URL req));
          scheme = (case rd_Scheme config of None \<Rightarrow> scheme0 | Some s \<Rightarrow> s);
          hostname = stripPort (case rd_Hostname config of None \<Rightarrow> req_Host req | Some h \<Rightarrow> h);
          host = (case rd_Port config of None \<Rightarrow> hostname | Some p \<Rightarrow> hostname @ '':'' @ itoa p)
      in empty_url \<lparr> url_Scheme := scheme, url_Host := host \<rparr>)"

definition buildRedirectPath :: "Request \<Rightarrow> RedirectConfig \<Rightarrow> string" where
  "buildRedirectPath req config =
     (case rd_Path config of
        None \<Rightarrow> url_Path (req_URL req)
      | Some p \<Rightarrow>
          (case rp_Type p of
             RedirectPathFullReplace \<Rightarrow> rp_Value p
           | RedirectPathPrefixReplace \<Rightarrow>
               (if req_MatchedPrefix req \<noteq> ''''
                then joinPathSegments (rp_Value p)
                       (trim_prefix (url_Path (req_URL req)) (req_MatchedPrefix req))
                else rp_Value p)
           | RedirectPathOther _ \<Rightarrow> url_Path (req_URL req)))"

definition buildRedirectURL :: "Request \<Rightarrow> RedirectConfig \<Rightarrow> string" where
  "buildRedirectURL req config =
     url_String ((buildRedirectBase req config)
       \<lparr> url_Path := buildRedirectPath req config, url_RawQuery := url_RawQuery (req_URL req) \<rparr>)"

definition requestRedirect_ProcessRequest :: "RedirectConfig \<Rightarrow> Request \<Rightarrow> Response" where
  "requestRedirect_ProcessRequest config req =
     \<lparr> resp_StatusCode = (case rd_StatusCode config of None \<Rightarrow> 302 | Some c \<Rightarrow> c),
       resp_Header = [''Location'' \<mapsto> [buildRedirectURL req config]],
       resp_Request = None \<rparr>"

definition rewritePath :: "URLRewritePath \<Rightarrow> Request \<Rightarrow> Request" where
  "rewritePath p req =
     (case up_Type p of
        URLRewriteFullPath \<Rightarrow>
          (case up_ReplaceFullPath p of
             None \<Rightarrow> req
           | Some path \<Rightarrow> req \<lparr> req_URL := (req_URL req) \<lparr> url_Path := path \<rparr> \<rparr>)
      | URLRewritePrefixMatch \<Rightarrow>
          (case up_ReplacePrefixMatch p of
             None \<Rightarrow> req
           | Some repl \<Rightarrow>
               (if req_MatchedPrefix req \<noteq> ''''
                then req \<lparr> req_URL := (req_URL req)
                       \<lparr> url_Path := joinPathSegments repl
                           (trim_prefix (url_Path (req_URL req)) (req_MatchedPrefix req)) \<rparr> \<rparr>
                else req))
      | URLRewriteOther _ \<Rightarrow> req)"

definition urlRewriter_ProcessRequest :: "URLRewriteConfig \<Rightarrow> Request \<Rightarrow> Request" where
  "urlRewriter_ProcessRequest config req =
     (let req1 = (case rw_Hostname config of
                    None \<Rightarrow> req
                  | Some h \<Rightarrow> req \<lparr> req_Host := h,
                                   req_Header := header_Set (req_Header req) hostRewrittenHeader ''true'' \<rparr>)
      in case rw_Path config of None \<Rightarrow> req1 | Some p \<Rightarrow> rewritePath p req1)"

subsection \<open>Mirroring\<close>

text \<open>The client of a mirror filter: the shared cleartext one, or one over a pooled transport for a
  host, protocol and TLS configuration.\<close>

datatype MirrorClient =
  SharedMirrorClient | PooledMirrorClient string BackendProtocol "BackendTLSConfig option"

record MirrorFilter =
  mf_backendURL :: string
  mf_percent :: "int option"
  mf_client :: MirrorClient

definition newMirrorClient ::
    "string \<Rightarrow> BackendTLSConfig option \<Rightarrow> BackendProtocol \<Rightarrow> MirrorClient" where
  "newMirrorClient backendURL tlsCfg protocol =
     (case url_Parse backendURL of
        None \<Rightarrow> SharedMirrorClient
      | Some parsed \<Rightarrow>
          (if url_Host parsed = '''' then SharedMirrorClient
           else PooledMirrorClient (url_Host parsed) protocol tlsCfg))"

definition NewRequestMirror :: "bool \<Rightarrow> MirrorConfig \<Rightarrow> MirrorFilter" where
  "NewRequestMirror has_factory m =
     \<lparr> mf_backendURL = mi_BackendURL m, mf_percent = mi_Percent m,
       mf_client = (if has_factory then newMirrorClient (mi_BackendURL m) (mi_TLS m) (mi_Protocol m)
                    else SharedMirrorClient) \<rparr>"

text \<open>\<open>roll\<close> is the draw \<^verbatim>\<open>rand.Int32N(100)\<close>.\<close>

definition shouldMirror :: "int \<Rightarrow> int option \<Rightarrow> bool" where
  "shouldMirror roll percent =
     (case percent of
        None \<Rightarrow> True
      | Some pct \<Rightarrow> if pct \<le> 0 then False else if pct \<ge> 100 then True else roll < pct)"

text \<open>\<^verbatim>\<open>io.ReadAll(io.LimitReader(body, n))\<close>: the data read, and whether it ended in an error.\<close>

definition read_all_limit :: "BodyReader \<Rightarrow> nat \<Rightarrow> string \<times> bool" where
  "read_all_limit b n = (take n (br_Data b), length (br_Data b) < n \<and> br_Fails b)"

text \<open>The result is the request with its body restored, and None where the mirror is skipped, or
  the buffered body of the copy (None for a request without body).\<close>

definition bufferMirrorBody :: "Request \<Rightarrow> Request \<times> string option option" where
  "bufferMirrorBody req =
     (case req_Body req of
        None \<Rightarrow> (req, Some None)
      | Some body \<Rightarrow>
          (let (buf, failed) = read_all_limit body (maxMirrorBodySize + 1) in
           if failed then
             (if buf \<noteq> ''''
              then req \<lparr> req_Body := Some \<lparr> br_Data = buf, br_Fails = False \<rparr>,
                        req_ContentLength := int (length buf) \<rparr>
              else req,
              None)
           else if length buf > maxMirrorBodySize then
             (req \<lparr> req_Body := Some \<lparr> br_Data = buf @ drop (length buf) (br_Data body),
                                       br_Fails = br_Fails body \<rparr>,
                    req_ContentLength := -1 \<rparr>,
              None)
           else
             (req \<lparr> req_Body := Some \<lparr> br_Data = buf, br_Fails = False \<rparr>,
                    req_ContentLength := int (length buf) \<rparr>,
              Some (Some buf))))"

record MirrorLeg =
  ml_Client :: MirrorClient
  ml_Template :: Request
  ml_Body :: "string option"

text \<open>\<open>url_ref\<close> is \<^verbatim>\<open>URL.Parse\<close>, the resolution of a reference against the request URL.\<close>

definition requestMirror_ProcessRequest ::
    "(URL \<Rightarrow> string \<Rightarrow> URL option) \<Rightarrow> int \<Rightarrow> MirrorFilter \<Rightarrow> Request \<Rightarrow> Request \<times> MirrorLeg option" where
  "requestMirror_ProcessRequest url_ref roll f req =
     (if \<not> shouldMirror roll (mf_percent f) then (req, None)
      else case url_ref (req_URL req) (mf_backendURL f @ RequestURI (req_URL req)) of
        None \<Rightarrow> (req, None)
      | Some mirrorURL \<Rightarrow>
          (case bufferMirrorBody req of
             (req1, None) \<Rightarrow> (req1, None)
           | (req1, Some bodyBuf) \<Rightarrow>
               (let tmpl = req1 \<lparr> req_URL := mirrorURL, req_Host := url_Host mirrorURL,
                                 req_MatchedPrefix := '''' \<rparr>;
                    req2 = (case bodyBuf of
                              None \<Rightarrow> req1
                            | Some b \<Rightarrow> req1 \<lparr> req_Body := Some \<lparr> br_Data = b, br_Fails = False \<rparr>,
                                              req_ContentLength := int (length b) \<rparr>)
                in (req2, Some \<lparr> ml_Client = mf_client f, ml_Template = tmpl, ml_Body = bodyBuf \<rparr>))))"

text \<open>\<open>once n\<close> is the outcome of the n-th call of \<^verbatim>\<open>dispatchMirrorOnce\<close>; the result is the number of
  calls made and the last error, None on delivery.\<close>

function retry_loop :: "(nat \<Rightarrow> gerr option) \<Rightarrow> nat \<Rightarrow> gerr option \<Rightarrow> nat \<times> gerr option" where
  "retry_loop once attempt lastErr =
     (if attempt \<le> mirrorMaxAttempts
      then (case once attempt of
              Some err \<Rightarrow> retry_loop once (Suc attempt) (Some err)
            | None \<Rightarrow> (attempt, None))
      else (attempt - 1, lastErr))"
  by auto
termination
  by (relation "measure (\<lambda>(_, attempt, _). Suc mirrorMaxAttempts - attempt)") auto

declare retry_loop.simps [simp del]

definition dispatchWithRetry :: "(nat \<Rightarrow> gerr option) \<Rightarrow> nat \<times> gerr option" where
  "dispatchWithRetry once = retry_loop once 1 None"

subsection \<open>Compilation and pipeline\<close>

datatype Filter =
    RequestHeaderModifierFilter "HeaderModifier option"
  | ResponseHeaderModifierFilter "HeaderModifier option"
  | RequestRedirectFilter "RedirectConfig option"
  | URLRewriterFilter "URLRewriteConfig option"
  | RequestMirrorFilter MirrorFilter
  | CORSFilterFilter "CORSConfig option"

definition compileFilter :: "bool \<Rightarrow> RouteFilter \<Rightarrow> gerr + Filter" where
  "compileFilter has_factory f =
     (case rf_Type f of
        FilterRequestHeaderModifier \<Rightarrow> Inr (RequestHeaderModifierFilter (rf_RequestHeaderModifier f))
      | FilterResponseHeaderModifier \<Rightarrow> Inr (ResponseHeaderModifierFilter (rf_ResponseHeaderModifier f))
      | FilterRequestRedirect \<Rightarrow> Inr (RequestRedirectFilter (rf_RequestRedirect f))
      | FilterURLRewrite \<Rightarrow> Inr (URLRewriterFilter (rf_URLRewrite f))
      | FilterRequestMirror \<Rightarrow>
          (case rf_RequestMirror f of
             None \<Rightarrow> Inl (Sentinel errNilDereference)
           | Some m \<Rightarrow> Inr (RequestMirrorFilter (NewRequestMirror has_factory m)))
      | FilterCORS \<Rightarrow> Inr (CORSFilterFilter (rf_CORS f))
      | FilterOther t \<Rightarrow> Inl (Wrapped (AtValue t) (Sentinel errUnknownFilterType)))"

definition CompileFilters :: "bool \<Rightarrow> RouteFilter list \<Rightarrow> gerr + Filter list" where
  "CompileFilters has_factory filters =
     traverse (\<lambda>idx f. wrap_res (AtFilter idx) (compileFilter has_factory f)) 0 filters"

text \<open>The surroundings of a filter: reference resolution, and the draw of the mirror filter at each
  position of the pipeline.\<close>

record FilterEnv =
  env_url_ref :: "URL \<Rightarrow> string \<Rightarrow> URL option"
  env_roll :: "nat \<Rightarrow> int"

text \<open>One call of \<^verbatim>\<open>Filter.ProcessRequest\<close>: the request after it, the response that ends the pipeline,
  and the mirrored copies it started.\<close>

definition ProcessRequest ::
    "FilterEnv \<Rightarrow> nat \<Rightarrow> Filter \<Rightarrow> Request \<Rightarrow> gerr + (Request \<times> Response option \<times> MirrorLeg list)" where
  "ProcessRequest env i f req =
     (case f of
        RequestHeaderModifierFilter None \<Rightarrow> Inl (Sentinel errNilDereference)
      | RequestHeaderModifierFilter (Some m) \<Rightarrow>
          Inr (req \<lparr> req_Header := applyHeaderModifier (req_Header req) m \<rparr>, None, [])
      | ResponseHeaderModifierFilter _ \<Rightarrow> Inr (req, None, [])
      | RequestRedirectFilter None \<Rightarrow> Inl (Sentinel errNilDereference)
      | RequestRedirectFilter (Some c) \<Rightarrow> Inr (req, Some (requestRedirect_ProcessRequest c req), [])
      | URLRewriterFilter None \<Rightarrow> Inl (Sentinel errNilDereference)
      | URLRewriterFilter (Some c) \<Rightarrow> Inr (urlRewriter_ProcessRequest c req, None, [])
      | RequestMirrorFilter m \<Rightarrow>
          (case requestMirror_ProcessRequest (env_url_ref env) (env_roll env i) m req of
             (req', leg) \<Rightarrow> Inr (req', None, (case leg of None \<Rightarrow> [] | Some l \<Rightarrow> [l])))
      | CORSFilterFilter c \<Rightarrow> Inr (req, CORSFilter_ProcessRequest c req, []))"

definition ProcessResponse :: "Filter \<Rightarrow> Response \<Rightarrow> gerr + Response" where
  "ProcessResponse f resp =
     (case f of
        ResponseHeaderModifierFilter None \<Rightarrow> Inl (Sentinel errNilDereference)
      | ResponseHeaderModifierFilter (Some m) \<Rightarrow>
          Inr (resp \<lparr> resp_Header := applyHeaderModifier (resp_Header resp) m \<rparr>)
      | CORSFilterFilter c \<Rightarrow> Inr (CORSFilter_ProcessResponse c resp)
      | _ \<Rightarrow> Inr resp)"

fun ApplyRequestFilters_from ::
    "FilterEnv \<Rightarrow> nat \<Rightarrow> Filter list \<Rightarrow> Request \<Rightarrow> gerr + (Request \<times> Response option \<times> MirrorLeg list)" where
  "ApplyRequestFilters_from env i [] req = Inr (req, None, [])"
| "ApplyRequestFilters_from env i (f # fs) req =
     (case ProcessRequest env i f req of
        Inl e \<Rightarrow> Inl e
      | Inr (req', Some resp, legs) \<Rightarrow> Inr (req', Some resp, legs)
      | Inr (req', None, legs) \<Rightarrow>
          (case ApplyRequestFilters_from env (Suc i) fs req' of
             Inl e \<Rightarrow> Inl e
           | Inr (req'', resp, legs') \<Rightarrow> Inr (req'', resp, legs @ legs')))"

definition ApplyRequestFilters ::
    "FilterEnv \<Rightarrow> Filter list \<Rightarrow> Request \<Rightarrow> gerr + (Request \<times> Response option \<times> MirrorLeg list)" where
  "ApplyRequestFilters env fs req = ApplyRequestFilters_from env 0 fs req"

fun ApplyResponseFilters :: "Filter list \<Rightarrow> Response \<Rightarrow> gerr + Response" where
  "ApplyResponseFilters [] resp = Inr resp"
| "ApplyResponseFilters (f # fs) resp =
     (case ProcessResponse f resp of
        Inl e \<Rightarrow> Inl e
      | Inr resp' \<Rightarrow> ApplyResponseFilters fs resp')"

section \<open>Lemmas\<close>

subsection \<open>The pipeline\<close>

lemma ApplyRequestFilters_from_append:
  "ApplyRequestFilters_from env i (fs @ gs) req =
     (case ApplyRequestFilters_from env i fs req of
        Inl e \<Rightarrow> Inl e
      | Inr (req', Some resp, legs) \<Rightarrow> Inr (req', Some resp, legs)
      | Inr (req', None, legs) \<Rightarrow>
          (case ApplyRequestFilters_from env (i + length fs) gs req' of
             Inl e \<Rightarrow> Inl e
           | Inr (req'', resp, legs') \<Rightarrow> Inr (req'', resp, legs @ legs')))"
  by (induction fs arbitrary: i req) (auto split: sum.splits option.splits)

text \<open>A compiled filter with its payload present does not panic.\<close>

definition filter_ok :: "Filter \<Rightarrow> bool" where
  "filter_ok f =
     (case f of
        RequestHeaderModifierFilter m \<Rightarrow> m \<noteq> None
      | ResponseHeaderModifierFilter m \<Rightarrow> m \<noteq> None
      | RequestRedirectFilter c \<Rightarrow> c \<noteq> None
      | URLRewriterFilter c \<Rightarrow> c \<noteq> None
      | RequestMirrorFilter _ \<Rightarrow> True
      | CORSFilterFilter _ \<Rightarrow> True)"

lemma ProcessRequest_ok: "filter_ok f \<Longrightarrow> \<exists>r. ProcessRequest env i f req = Inr r"
  by (auto simp: ProcessRequest_def filter_ok_def split: Filter.splits option.splits prod.splits)

lemma ProcessResponse_ok: "filter_ok f \<Longrightarrow> \<exists>r. ProcessResponse f resp = Inr r"
  by (auto simp: ProcessResponse_def filter_ok_def split: Filter.splits option.splits)

lemma ApplyRequestFilters_from_ok:
  "\<forall>f \<in> set fs. filter_ok f \<Longrightarrow> \<exists>r. ApplyRequestFilters_from env i fs req = Inr r"
proof (induction fs arbitrary: i req)
  case Nil
  then show ?case by simp
next
  case (Cons f fs)
  obtain req' resp legs where p: "ProcessRequest env i f req = Inr (req', resp, legs)"
    using ProcessRequest_ok Cons.prems by (metis list.set_intros(1) prod_cases3)
  obtain r where "ApplyRequestFilters_from env (Suc i) fs req' = Inr r"
    using Cons by (meson list.set_intros(2))
  then show ?case using p by (cases resp) (auto split: prod.splits)
qed

lemma ApplyResponseFilters_ok:
  "\<forall>f \<in> set fs. filter_ok f \<Longrightarrow> \<exists>r. ApplyResponseFilters fs resp = Inr r"
proof (induction fs arbitrary: resp)
  case Nil
  then show ?case by simp
next
  case (Cons f fs)
  then show ?case using ProcessResponse_ok [of f resp] by fastforce
qed

lemma compileFilter_wf: "wf_filter f \<Longrightarrow> \<exists>c. compileFilter b f = Inr c \<and> filter_ok c"
  by (auto simp: wf_filter_def compileFilter_def filter_ok_def
      split: RouteFilterType.splits option.splits)

lemma CompileFilters_wf:
  assumes "\<forall>f \<in> set fs. wf_filter f"
  shows "\<exists>cs. CompileFilters b fs = Inr cs \<and> (\<forall>c \<in> set cs. filter_ok c)"
proof -
  obtain cs where cs: "CompileFilters b fs = Inr cs"
    using traverse_total [of fs "\<lambda>idx f. wrap_res (AtFilter idx) (compileFilter b f)" 0]
      compileFilter_wf assms by (fastforce simp: CompileFilters_def)
  moreover have "filter_ok c" if c: "c \<in> set cs" for c
  proof -
    obtain k where "k < length fs" "compileFilter b (fs ! k) = Inr c"
      using cs c by (auto simp: CompileFilters_def traverse_Inr in_set_conv_nth)
    then show ?thesis using assms compileFilter_wf [of "fs ! k" b] by auto
  qed
  ultimately show ?thesis by blast
qed

subsection \<open>Clean paths\<close>

lemma clean_elems_step:
  "clean_elems True stack (e # es) =
     clean_elems True
       (if e = '''' \<or> e = ''.'' then stack
        else if e = ''..'' then (if stack \<noteq> [] \<and> hd stack = ''..'' then ''..'' # stack else tl stack)
        else e # stack) es"
  by (cases stack) simp_all

definition clean_elem :: "string \<Rightarrow> bool" where
  "clean_elem w \<longleftrightarrow> w \<noteq> '''' \<and> w \<noteq> ''.'' \<and> w \<noteq> ''..'' \<and> CHR ''/'' \<notin> set w"

lemma clean_elems_invariant:
  "list_all clean_elem stack \<Longrightarrow> list_all (\<lambda>w. CHR ''/'' \<notin> set w) es \<Longrightarrow>
     list_all clean_elem (clean_elems True stack es)"
proof (induction es arbitrary: stack)
  case Nil
  then show ?case by simp
next
  case (Cons e es)
  let ?s = "if e = '''' \<or> e = ''.'' then stack
        else if e = ''..'' then (if stack \<noteq> [] \<and> hd stack = ''..'' then ''..'' # stack else tl stack)
        else e # stack"
  have dd: "\<not> (stack \<noteq> [] \<and> hd stack = ''..'')"
    using Cons.prems(1) by (cases stack) (auto simp: clean_elem_def)
  have "list_all clean_elem (tl stack)"
    using Cons.prems(1) by (cases stack) simp_all
  moreover have "clean_elem e" if "e \<noteq> ''''" "e \<noteq> ''.''" "e \<noteq> ''..''"
    using that Cons.prems(2) by (simp add: clean_elem_def)
  ultimately have "list_all clean_elem ?s"
    using Cons.prems(1) dd by auto
  with Cons.IH Cons.prems(2) have "list_all clean_elem (clean_elems True ?s es)" by auto
  then show ?case unfolding clean_elems_step [of stack e es] .
qed

lemma str_split_no_sep_single: "c \<notin> set w \<Longrightarrow> str_split c w = [w]"
  by (induction w) auto

lemma str_split_join:
  "ws \<noteq> [] \<Longrightarrow> \<forall>w \<in> set ws. c \<notin> set w \<Longrightarrow> str_split c (str_join ws [c]) = ws"
proof (induction ws "[c]" rule: str_join.induct)
  case (2 s)
  then show ?case by (simp add: str_split_no_sep_single)
next
  case (3 s t ss)
  have "str_split c (s @ c # r) = [s] @ str_split c r" if "c \<notin> set s" for s r
    using that
  proof (induction s)
    case (Cons x s)
    then show ?case by (cases "str_split c r") auto
  qed simp
  with 3 show ?case by simp
qed simp

lemma path_clean_rooted:
  assumes "has_prefix p ''/''"
  shows "\<exists>ws. path_clean p = ''/'' @ str_join ws ''/''
           \<and> list_all clean_elem ws"
proof -
  let ?ws = "clean_elems True [] (str_split (CHR ''/'') p)"
  have "list_all clean_elem ?ws"
    by (rule clean_elems_invariant) (auto simp: list_all_iff dest: str_split_no_sep)
  moreover have "path_clean p = ''/'' @ str_join ?ws ''/''"
    using assms by (simp add: path_clean_def Let_def)
  ultimately show ?thesis by blast
qed

lemma clean_elems_of_clean:
  "\<forall>e \<in> set es. e = '''' \<or> clean_elem e \<Longrightarrow>
     clean_elems True stack es = rev stack @ filter (\<lambda>e. e \<noteq> '''') es"
proof (induction es arbitrary: stack)
  case Nil
  then show ?case by simp
next
  case (Cons e es)
  show ?case
  proof (cases "e = ''''")
    case True
    then show ?thesis using Cons by simp
  next
    case False
    then have "e \<noteq> ''.''" "e \<noteq> ''..''" using Cons.prems by (auto simp: clean_elem_def)
    then show ?thesis using Cons False by simp
  qed
qed

lemma str_split_clean_path:
  assumes "list_all clean_elem ws" and "ws \<noteq> []"
  shows "str_split (CHR ''/'') (''/'' @ str_join ws ''/'') = '''' # ws"
  using assms str_split_join [of ws "CHR ''/''"] by (simp add: clean_elem_def list_all_iff)

lemma str_split_snoc_sep: "str_split c (s @ [c]) = str_split c s @ [[]]"
proof (induction s)
  case Nil
  then show ?case by simp
next
  case (Cons x s)
  then show ?case by (cases "str_split c s") auto
qed

subsection \<open>Mirrored bodies and retries\<close>

lemma bufferMirrorBody_body:
  assumes "bufferMirrorBody req = (req', res)" and "req_Body req = Some b"
  shows "\<exists>b'. req_Body req' = Some b' \<and> br_Data b' = br_Data b
           \<and> br_Fails b' = (br_Fails b
               \<and> (br_Data b = '''' \<or> maxMirrorBodySize < length (br_Data b)))"
  using assms
  by (auto simp: bufferMirrorBody_def read_all_limit_def Let_def split: if_splits)

lemma bufferMirrorBody_copy:
  assumes "bufferMirrorBody req = (req', Some (Some buf))"
  shows "\<exists>b. req_Body req = Some b \<and> br_Data b = buf \<and> \<not> br_Fails b \<and> length buf \<le> maxMirrorBodySize
           \<and> req_Body req' = Some \<lparr> br_Data = buf, br_Fails = False \<rparr>"
  using assms
  by (auto simp: bufferMirrorBody_def read_all_limit_def Let_def split: option.splits if_splits)

lemma bufferMirrorBody_no_body:
  "bufferMirrorBody req = (req', Some None) \<longleftrightarrow> req_Body req = None \<and> req' = req"
  by (auto simp: bufferMirrorBody_def Let_def split: option.splits if_splits prod.splits)

lemma requestMirror_cases:
  assumes "requestMirror_ProcessRequest url_ref roll f req = (req', leg)"
    and "bufferMirrorBody req = (req1, res)"
  obtains "req' = req" and "leg = None"
  | "req' = req1" and "leg = None"
  | buf l where "res = Some buf" and "leg = Some l" and "ml_Body l = buf"
      and "shouldMirror roll (mf_percent f)"
      and "req_Body req' = (case buf of None \<Rightarrow> req_Body req1
                              | Some b \<Rightarrow> Some \<lparr> br_Data = b, br_Fails = False \<rparr>)"
  using assms
  by (auto simp: requestMirror_ProcessRequest_def Let_def split: if_splits option.splits)

lemma retry_loop_result:
  assumes "retry_loop once a l0 = (n, err)" and "1 \<le> a" and "a \<le> Suc mirrorMaxAttempts"
    and "a = Suc mirrorMaxAttempts \<longrightarrow> l0 \<noteq> None"
  shows "n \<le> mirrorMaxAttempts \<and> a \<le> Suc n
         \<and> (\<forall>k. a \<le> k \<and> k < n \<longrightarrow> once k \<noteq> None)
         \<and> (err = None \<longrightarrow> a \<le> n \<and> once n = None)
         \<and> (err \<noteq> None \<longrightarrow> n = mirrorMaxAttempts \<and> (a \<le> n \<longrightarrow> once n \<noteq> None))"
  using assms
proof (induction once a l0 rule: retry_loop.induct)
  case (1 once a l0)
  show ?case
  proof (cases "a \<le> mirrorMaxAttempts")
    case False
    with 1 show ?thesis by (auto simp: retry_loop.simps)
  next
    case True
    show ?thesis
    proof (cases "once a")
      case None
      with True 1 show ?thesis by (auto simp: retry_loop.simps)
    next
      case (Some e)
      then have "retry_loop once (Suc a) (Some e) = (n, err)"
        using True "1.prems"(1) by (simp add: retry_loop.simps [of once a])
      from "1.IH" [OF True Some this] True
      have IH: "n \<le> mirrorMaxAttempts \<and> Suc a \<le> Suc n
         \<and> (\<forall>k. Suc a \<le> k \<and> k < n \<longrightarrow> once k \<noteq> None)
         \<and> (err = None \<longrightarrow> Suc a \<le> n \<and> once n = None)
         \<and> (err \<noteq> None \<longrightarrow> n = mirrorMaxAttempts \<and> (Suc a \<le> n \<longrightarrow> once n \<noteq> None))"
        by auto
      have "once k \<noteq> None" if "a \<le> k" "k < n" for k
        using IH that Some by (cases "k = a") auto
      moreover have "once n \<noteq> None" if "err \<noteq> None" "a \<le> n"
        using IH that Some by (cases "n = a") auto
      ultimately show ?thesis using IH by auto
    qed
  qed
qed

section \<open>Properties\<close>

text \<open>The effect of a header modifier on the values under every header name. A name the modifier
  removes has no value afterwards, even one it also sets or adds; another name it sets has the last
  value set for it, and one it does not set keeps its values; the added values follow in order.
  Names are compared in canonical form.\<close>

theorem header_modifier_values:
  "header_Values (applyHeaderModifier h m) name =
     (if canonical_key name \<in> canonical_key ` set (mod_Remove m) then []
      else (case rev (filter (\<lambda>hv. canonical_key (hv_Name hv) = canonical_key name) (mod_Set m)) of
              [] \<Rightarrow> header_Values h name
            | hv # _ \<Rightarrow> [hv_Value hv])
           @ map hv_Value (filter (\<lambda>hv. canonical_key (hv_Name hv) = canonical_key name) (mod_Add m)))"
proof -
  let ?kv = "\<lambda>hv. (hv_Name hv, hv_Value hv)"
  have "applyHeaderModifier h m =
      foldl header_Del
        (foldl (\<lambda>h (k, v). header_Add h k v)
          (foldl (\<lambda>h (k, v). header_Set h k v) h (map ?kv (mod_Set m))) (map ?kv (mod_Add m)))
        (mod_Remove m)"
    by (simp add: applyHeaderModifier_def foldl_map)
  then show ?thesis
    by (simp only: http_header.vals_set_add_del)
      (simp add: filter_map comp_def rev_map split: list.splits)
qed

text \<open>Filters that passed validation compile, with or without a transport factory, and running
  the compiled filters on any request and any response never dereferences a missing payload.\<close>

theorem validated_filters_never_panic:
  assumes "\<forall>f \<in> set fs. RouteFilter_validate f = None"
  shows "\<exists>cs. CompileFilters has_factory fs = Inr cs
           \<and> (\<forall>env req. \<exists>out. ApplyRequestFilters env cs req = Inr out)
           \<and> (\<forall>resp. \<exists>out. ApplyResponseFilters cs resp = Inr out)"
proof -
  from assms have "\<forall>f \<in> set fs. wf_filter f" by (simp add: RouteFilter_validate_iff)
  then obtain cs where "CompileFilters has_factory fs = Inr cs" "\<forall>c \<in> set cs. filter_ok c"
    using CompileFilters_wf by blast
  then show ?thesis
    using ApplyRequestFilters_from_ok ApplyResponseFilters_ok
    by (auto simp: ApplyRequestFilters_def)
qed

text \<open>Mirroring does not change what the primary leg of a request sends. After the mirror filter
  the request has a body exactly when it had one before, with the same data. A read error of the
  body is passed on to the primary leg only where the body is empty or longer than the mirror limit;
  where some data came before the error, the primary leg sees a complete body instead. A copy is
  only started with the same data, of at most the limit.\<close>

theorem mirror_keeps_primary_body:
  assumes "requestMirror_ProcessRequest url_ref roll f req = (req', leg)"
  shows "(case req_Body req of
            None \<Rightarrow> req_Body req' = None
          | Some b \<Rightarrow> (\<exists>b'. req_Body req' = Some b' \<and> br_Data b' = br_Data b
              \<and> (br_Fails b' \<noteq> br_Fails b \<longrightarrow>
                   br_Fails b \<and> br_Data b \<noteq> '''' \<and> length (br_Data b) \<le> maxMirrorBodySize)))
         \<and> (case leg of
              None \<Rightarrow> True
            | Some l \<Rightarrow> shouldMirror roll (mf_percent f)
                \<and> ml_Body l = map_option br_Data (req_Body req)
                \<and> (case ml_Body l of None \<Rightarrow> True | Some d \<Rightarrow> length d \<le> maxMirrorBodySize))"
proof -
  obtain req1 res where b: "bufferMirrorBody req = (req1, res)" by (cases "bufferMirrorBody req")
  show ?thesis
  proof (cases "req_Body req")
    case None
    then have "req1 = req" "res = Some None" using b bufferMirrorBody_no_body [of req req] by simp_all
    from requestMirror_cases [OF assms b] show ?thesis
      using None \<open>req1 = req\<close> \<open>res = Some None\<close> by cases simp_all
  next
    case (Some body)
    from bufferMirrorBody_body [OF b this] obtain b' where b':
      "req_Body req1 = Some b'" "br_Data b' = br_Data body"
      "br_Fails b' = (br_Fails body \<and> (br_Data body = '''' \<or> maxMirrorBodySize < length (br_Data body)))"
      by blast
    from requestMirror_cases [OF assms b] show ?thesis
    proof cases
      case 1
      with Some show ?thesis by simp
    next
      case 2
      with Some b' show ?thesis by auto
    next
      case (3 buf l)
      then obtain d where d: "buf = Some d"
        using b Some bufferMirrorBody_no_body [of req req1] by (cases buf) auto
      with bufferMirrorBody_copy b 3(1) have
        "br_Data body = d" "\<not> br_Fails body" "length d \<le> maxMirrorBodySize"
        using Some by fastforce+
      with 3 d Some show ?thesis by simp
    qed
  qed
qed

definition sample_upload :: Request where
  "sample_upload = sample_preflight
     \<lparr> req_Method := ''POST'', req_Body := Some \<lparr> br_Data = ''hello'', br_Fails = False \<rparr>,
       req_ContentLength := 5 \<rparr>"

definition sample_mirror :: MirrorFilter where
  "sample_mirror = \<lparr> mf_backendURL = ''http://mirror'', mf_percent = Some 30, mf_client = SharedMirrorClient \<rparr>"

definition sample_cors_filter :: RouteFilter where
  "sample_cors_filter =
     \<lparr> rf_Type = FilterCORS, rf_RequestHeaderModifier = None, rf_ResponseHeaderModifier = None,
       rf_RequestRedirect = None, rf_URLRewrite = None, rf_RequestMirror = None,
       rf_CORS = Some sample_cors \<rparr>"

text \<open>C6: the mirror dispatch makes between one and three attempts, the attempts before the last one
  failed, and it reports delivery exactly when one of the three attempts succeeds.\<close>

theorem mirror_dispatch_attempts:
  assumes "dispatchWithRetry once = (n, err)"
  shows "1 \<le> n \<and> n \<le> 3 \<and> (\<forall>k. 1 \<le> k \<and> k < n \<longrightarrow> once k \<noteq> None)
         \<and> (err = None \<longleftrightarrow> once n = None)
         \<and> (err = None \<longleftrightarrow> once 1 = None \<or> once 2 = None \<or> once 3 = None)"
proof -
  from retry_loop_result [OF assms [unfolded dispatchWithRetry_def]]
  have r: "n \<le> 3 \<and> (\<forall>k. 1 \<le> k \<and> k < n \<longrightarrow> once k \<noteq> None) \<and> 1 \<le> Suc n
      \<and> (err = None \<longrightarrow> 1 \<le> n \<and> once n = None) \<and> (err \<noteq> None \<longrightarrow> n = 3 \<and> (1 \<le> n \<longrightarrow> once n \<noteq> None))"
    by (auto simp: mirrorMaxAttempts_def)
  then have "1 \<le> n" by (cases err) auto
  moreover have "err = None \<longleftrightarrow> once n = None" using r \<open>1 \<le> n\<close> by (cases err) auto
  moreover have "err = None \<longleftrightarrow> once 1 = None \<or> once 2 = None \<or> once 3 = None"
  proof (cases err)
    case None
    with r have "n = 1 \<or> n = 2 \<or> n = 3" "once n = None" by auto
    with None show ?thesis by auto
  next
    case (Some e)
    with r have "n = 3" "once 3 \<noteq> None" by auto
    with r have "once 1 \<noteq> None" "once 2 \<noteq> None" by auto
    with Some \<open>once 3 \<noteq> None\<close> show ?thesis by auto
  qed
  ultimately show ?thesis using r by blast
qed

theorem mirror_dispatch_attempts_witness:
  "\<exists>n. dispatchWithRetry (\<lambda>n. if n < 3 then Some (Sentinel errSendRequest) else None) = (n, None)
     \<and> 1 \<le> n \<and> n \<le> 3"
proof -
  have "dispatchWithRetry (\<lambda>n. if n < 3 then Some (Sentinel errSendRequest) else None) = (3, None)"
    by (simp add: dispatchWithRetry_def retry_loop.simps mirrorMaxAttempts_def)
  from mirror_dispatch_attempts [OF this] this show ?thesis by blast
qed

text \<open>Rewriting a matched path prefix to a rooted replacement leaves a rooted path whose elements
  are neither empty nor a dot nor two dots, so that no dot sequence of the request escapes the
  replacement, and changes nothing else of the request.\<close>

theorem prefix_rewrite_is_clean:
  assumes "up_Type p = URLRewritePrefixMatch" and "up_ReplacePrefixMatch p = Some repl"
    and "has_prefix repl ''/''" and "req_MatchedPrefix req \<noteq> ''''"
    and "url_Path (req_URL req) = req_MatchedPrefix req @ rest" and "rest \<noteq> ''''"
  shows "\<exists>ws. url_Path (req_URL (rewritePath p req)) = ''/'' @ str_join ws ''/''
           \<and> (\<forall>w \<in> set ws. w \<noteq> '''' \<and> w \<noteq> ''.'' \<and> w \<noteq> ''..'' \<and> CHR ''/'' \<notin> set w)
           \<and> (rewritePath p req) \<lparr> req_URL := req_URL req \<rparr> = req"
proof -
  from assms(3) have "has_prefix (repl @ ''/'' @ rest) ''/''" by (auto simp: has_prefix_iff)
  from path_clean_rooted [OF this] show ?thesis
    using assms by (auto simp: rewritePath_def joinPathSegments_def clean_elem_def list_all_iff)
qed

text \<open>Replacing a matched prefix in a path that only has a slash after it yields the replacement
  without a trailing slash, while the Gateway API table of \<^verbatim>\<open>ReplacePrefixMatch\<close> (vendored
  \<^verbatim>\<open>httproute_types.go\<close>) lists the modified path with the slash; and replacing a whole path by the
  empty string yields the empty path, where the table lists the root.\<close>

theorem prefix_rewrite_trailing_slash:
  assumes "\<forall>w \<in> set ws. clean_elem w" and "ws \<noteq> []"
  shows "joinPathSegments (''/'' @ str_join ws ''/'') ''/'' = ''/'' @ str_join ws ''/''
         \<and> joinPathSegments '''' '''' = ''''"
proof -
  let ?p = "''/'' @ str_join ws ''/''"
  have "str_split (CHR ''/'') (?p @ ''/'' @ ''/'') = str_split (CHR ''/'') ?p @ [[]] @ [[]]"
    using str_split_snoc_sep [of "CHR ''/''" "?p @ ''/''"] str_split_snoc_sep [of "CHR ''/''" ?p]
    by (simp del: str_split.simps)
  then have "str_split (CHR ''/'') (?p @ ''/'' @ ''/'') = ('''' # ws) @ [[]] @ [[]]"
    using str_split_clean_path [of ws] assms by (simp only: list_all_iff not_False_eq_True)
  moreover have "\<forall>e \<in> set (('''' # ws) @ [[]] @ [[]]). e = '''' \<or> clean_elem e" using assms by auto
  moreover have "filter (\<lambda>e. e \<noteq> '''') (('''' # ws) @ [[]] @ [[]]) = ws"
    using assms by (auto simp: clean_elem_def filter_id_conv)
  ultimately have "clean_elems True [] (str_split (CHR ''/'') (?p @ ''/'' @ ''/'')) = ws"
    using clean_elems_of_clean [of "('''' # ws) @ [[]] @ [[]]" "[]"] by simp
  then show ?thesis by (simp add: joinPathSegments_def path_clean_def)
qed

end
