(* ===== verification/Router.thy ===== *)
theory Router
  imports Matcher ProxyFilter
begin

text \<open>
  Routing (\<^verbatim>\<open>src/internal/proxy/router.go\<close>): the priority of a rule, the compiled routing table, the choice
  of a rule for a request and of a backend for a rule. Go leaves the iteration order of a map open,
  and \<^verbatim>\<open>sort.Slice\<close> the order of elements it cannot tell apart: both are the argument \<open>iter\<close>, an
  arbitrary permutation of the entries of the wildcard map. \<open>rnd\<close> is \<^verbatim>\<open>rand.Int64N\<close>.
\<close>

section \<open>Definitions\<close>

subsection \<open>Priorities\<close>

definition priorityExactPath :: int where "priorityExactPath = 1000000000"
definition priorityRegexPath :: int where "priorityRegexPath = 500000000"
definition priorityPrefixPath :: int where "priorityPrefixPath = 100000000"
definition priorityPathLength :: int where "priorityPathLength = 10000"
definition priorityMethod :: int where "priorityMethod = 100"
definition priorityPerHeader :: int where "priorityPerHeader = 10"
definition priorityPerQueryParam :: int where "priorityPerQueryParam = 1"

lemmas priority_consts = priorityExactPath_def priorityRegexPath_def priorityPrefixPath_def
  priorityPathLength_def priorityMethod_def priorityPerHeader_def priorityPerQueryParam_def

text \<open>The local variables of \<^verbatim>\<open>computePriority\<close>.\<close>

record PriorityVars =
  pr_TypeScore :: int
  pr_PathLen :: int
  pr_HasMethod :: bool
  pr_Headers :: int
  pr_QueryParams :: int

definition pathTypeScore :: "PathMatchType \<Rightarrow> int" where
  "pathTypeScore t =
     (case t of
        PathMatchExact \<Rightarrow> priorityExactPath
      | PathMatchPathPrefix \<Rightarrow> priorityPrefixPath
      | PathMatchRegularExpression \<Rightarrow> priorityRegexPath
      | PathMatchOther _ \<Rightarrow> 0)"

definition priority_path_step :: "PathMatch option \<Rightarrow> int \<times> int \<Rightarrow> int \<times> int" where
  "priority_path_step p v =
     (case v of (score, len) \<Rightarrow>
       (case p of
          None \<Rightarrow> (score, len)
        | Some pm \<Rightarrow>
            (let s = pathTypeScore (pm_Type pm); l = int (length (pm_Value pm))
             in if s > score then (s, l) else if s = score \<and> l > len then (score, l) else (score, len))))"

definition priority_step :: "PriorityVars \<Rightarrow> RouteMatch \<Rightarrow> PriorityVars" where
  "priority_step v m =
     (let (s, l) = priority_path_step (rm_Path m) (pr_TypeScore v, pr_PathLen v)
      in \<lparr> pr_TypeScore = s, pr_PathLen = l,
           pr_HasMethod = (pr_HasMethod v \<or> rm_Method m \<noteq> ''''),
           pr_Headers = (if int (length (rm_Headers m)) > pr_Headers v
                         then int (length (rm_Headers m)) else pr_Headers v),
           pr_QueryParams = (if int (length (rm_QueryParams m)) > pr_QueryParams v
                             then int (length (rm_QueryParams m)) else pr_QueryParams v) \<rparr>)"

definition priority_vars :: "RouteRule \<Rightarrow> PriorityVars" where
  "priority_vars rule =
     foldl priority_step
       \<lparr> pr_TypeScore = 0, pr_PathLen = 0, pr_HasMethod = False, pr_Headers = 0, pr_QueryParams = 0 \<rparr>
       (rule_Matches rule)"

definition priority_value :: "PriorityVars \<Rightarrow> int" where
  "priority_value v =
     pr_TypeScore v + pr_PathLen v * priorityPathLength
     + (if pr_HasMethod v then priorityMethod else 0)
     + pr_Headers v * priorityPerHeader + pr_QueryParams v * priorityPerQueryParam"

definition computePriority :: "RouteRule \<Rightarrow> int" where
  "computePriority rule = priority_value (priority_vars rule)"

subsection \<open>The compiled table\<close>

record compiledRule =
  cr_matches :: "CompiledMatch list"
  cr_rule :: RouteRule
  cr_filters :: "Filter list"
  cr_backendFilters :: "Filter list list"
  cr_priority :: int
  cr_ruleIndex :: nat

record routingTable =
  rt_exactHosts :: "string \<Rightarrow> compiledRule list option"
  rt_wildcardHosts :: "(string \<times> compiledRule list) list"
  rt_defaultRules :: "compiledRule list"
  rt_version :: int

definition compileRule :: "re_engine \<Rightarrow> bool \<Rightarrow> RouteRule \<Rightarrow> nat \<Rightarrow> gerr + compiledRule" where
  "compileRule re_compile has_factory rule ruleIndex =
     (case traverse (\<lambda>i m. wrap_res (AtMatch i) (CompileMatch re_compile m)) 0 (rule_Matches rule) of
        Inl e \<Rightarrow> Inl e
      | Inr matches \<Rightarrow>
          (case wrap_res (InText ''compile filters'') (CompileFilters has_factory (rule_Filters rule)) of
             Inl e \<Rightarrow> Inl e
           | Inr filters \<Rightarrow>
               (case traverse (\<lambda>i b. if be_Filters b = [] then Inr []
                                     else wrap_res (AtBackend i) (CompileFilters has_factory (be_Filters b)))
                       0 (rule_Backends rule) of
                  Inl e \<Rightarrow> Inl e
                | Inr backendFilters \<Rightarrow>
                    Inr \<lparr> cr_matches = matches, cr_rule = rule, cr_filters = filters,
                          cr_backendFilters = backendFilters, cr_priority = computePriority rule,
                          cr_ruleIndex = ruleIndex \<rparr>)))"

definition rule_precedes :: "compiledRule \<Rightarrow> compiledRule \<Rightarrow> bool" where
  "rule_precedes a b =
     (if cr_priority a \<noteq> cr_priority b then cr_priority a > cr_priority b
      else cr_ruleIndex a < cr_ruleIndex b)"

definition sortRulesByPrecedence :: "compiledRule list \<Rightarrow> compiledRule list" where
  "sortRulesByPrecedence rules = sort_stable rule_precedes rules"

text \<open>\<^verbatim>\<open>m[k] = append(m[k], v)\<close> on the two host maps; the wildcard map keeps its entries in a list.\<close>

definition exact_append ::
    "(string \<Rightarrow> compiledRule list option) \<Rightarrow> string \<Rightarrow> compiledRule \<Rightarrow> string \<Rightarrow> compiledRule list option" where
  "exact_append m k c = m (k \<mapsto> (case m k of None \<Rightarrow> [] | Some cs \<Rightarrow> cs) @ [c])"

fun wildcard_append ::
    "(string \<times> compiledRule list) list \<Rightarrow> string \<Rightarrow> compiledRule \<Rightarrow> (string \<times> compiledRule list) list" where
  "wildcard_append [] k c = [(k, [c])]"
| "wildcard_append ((k', cs) # m) k c =
     (if k = k' then (k', cs @ [c]) # m else (k', cs) # wildcard_append m k c)"

type_synonym host_maps =
  "(string \<Rightarrow> compiledRule list option) \<times> (string \<times> compiledRule list) list"

definition add_hostname :: "compiledRule \<Rightarrow> host_maps \<Rightarrow> string \<Rightarrow> host_maps" where
  "add_hostname c maps hostname =
     (case maps of (ex, wc) \<Rightarrow>
       (let normalized = to_lower hostname
        in if has_prefix normalized ''*.''
           then (ex, wildcard_append wc (drop 1 normalized) c)
           else (exact_append ex normalized c, wc)))"

definition add_rule :: "host_maps \<times> compiledRule list \<Rightarrow> compiledRule \<Rightarrow> host_maps \<times> compiledRule list" where
  "add_rule st c =
     (case st of (maps, defaults) \<Rightarrow>
       (if rule_Hostnames (cr_rule c) = [] then (maps, defaults @ [c])
        else (foldl (add_hostname c) maps (rule_Hostnames (cr_rule c)), defaults)))"

definition longer_suffix :: "string \<times> 'a \<Rightarrow> string \<times> 'a \<Rightarrow> bool" where
  "longer_suffix a b \<longleftrightarrow> length (fst a) > length (fst b)"

type_synonym map_order = "(string \<times> compiledRule list) list \<Rightarrow> (string \<times> compiledRule list) list"

definition build_table :: "map_order \<Rightarrow> int \<Rightarrow> compiledRule list \<Rightarrow> routingTable" where
  "build_table iter version cs =
     (case foldl add_rule ((Map.empty, []), []) cs of ((ex, wc), defaults) \<Rightarrow>
       \<lparr> rt_exactHosts = (\<lambda>h. map_option sortRulesByPrecedence (ex h)),
         rt_wildcardHosts =
           sort_stable longer_suffix
             (map (\<lambda>(sfx, rules). (sfx, sortRulesByPrecedence rules)) (iter wc)),
         rt_defaultRules = sortRulesByPrecedence defaults,
         rt_version = version \<rparr>)"

definition compileRoutingTable ::
    "re_engine \<Rightarrow> map_order \<Rightarrow> bool \<Rightarrow> Config \<Rightarrow> gerr + routingTable" where
  "compileRoutingTable re_compile iter has_factory cfg =
     (case traverse (\<lambda>i r. wrap_res (AtRule i) (compileRule re_compile has_factory r i)) 0 (cfg_Rules cfg) of
        Inl e \<Rightarrow> Inl e
      | Inr cs \<Rightarrow> Inr (build_table iter (cfg_Version cfg) cs))"

subsection \<open>Choosing a rule and a backend\<close>

definition getMatchedPathPrefix :: "RouteRule \<Rightarrow> nat \<Rightarrow> string" where
  "getMatchedPathPrefix rule matchIdx =
     (if matchIdx < length (rule_Matches rule)
      then (case rm_Path (rule_Matches rule ! matchIdx) of
              None \<Rightarrow> ''''
            | Some p \<Rightarrow> if pm_Type p = PathMatchPathPrefix then pm_Value p else '''')
      else '''')"

definition findMatchingIndex :: "compiledRule \<Rightarrow> Request \<Rightarrow> nat option" where
  "findMatchingIndex c req =
     (if cr_matches c = [] then Some 0
      else find_index_from (\<lambda>m. CompiledMatch_Match m req) 0 (cr_matches c))"

text \<open>The walk over the cumulative weights of \<^verbatim>\<open>selectBackend\<close>; the second clause of the result is its
  final \<^verbatim>\<open>return len(backends) - 1\<close>.\<close>

fun pick_backend :: "int \<Rightarrow> int \<Rightarrow> int \<Rightarrow> BackendRef list \<Rightarrow> int option" where
  "pick_backend pick idx cumulative [] = None"
| "pick_backend pick idx cumulative (b # bs) =
     (if pick < cumulative + be_Weight b then Some idx
      else pick_backend pick (idx + 1) (cumulative + be_Weight b) bs)"

definition total_weight :: "BackendRef list \<Rightarrow> int" where
  "total_weight backends = foldl (\<lambda>t b. t + be_Weight b) 0 backends"

definition selectBackend :: "(int \<Rightarrow> int) \<Rightarrow> BackendRef list \<Rightarrow> int" where
  "selectBackend rnd backends =
     (if backends = [] then -1
      else if total_weight backends \<le> 0 then -1
      else case pick_backend (rnd (total_weight backends)) 0 0 backends of
        Some idx \<Rightarrow> idx
      | None \<Rightarrow> int (length backends) - 1)"

record RouteResult =
  rr_Rule :: RouteRule
  rr_Filters :: "Filter list"
  rr_BackendFilters :: "Filter list"
  rr_BackendIdx :: int
  rr_MatchedPrefix :: string
  rr_MatchedHostname :: string

definition route_result :: "(int \<Rightarrow> int) \<Rightarrow> compiledRule \<Rightarrow> nat \<Rightarrow> RouteResult" where
  "route_result rnd c matchIdx =
     (let backendIdx = selectBackend rnd (rule_Backends (cr_rule c))
      in \<lparr> rr_Rule = cr_rule c, rr_Filters = cr_filters c,
           rr_BackendFilters =
             (if 0 \<le> backendIdx \<and> backendIdx < int (length (cr_backendFilters c))
              then cr_backendFilters c ! nat backendIdx else []),
           rr_BackendIdx = backendIdx,
           rr_MatchedPrefix = getMatchedPathPrefix (cr_rule c) matchIdx,
           rr_MatchedHostname = '''' \<rparr>)"

fun matchRules :: "(int \<Rightarrow> int) \<Rightarrow> compiledRule list \<Rightarrow> Request \<Rightarrow> RouteResult option" where
  "matchRules rnd [] req = None"
| "matchRules rnd (c # cs) req =
     (case findMatchingIndex c req of
        None \<Rightarrow> matchRules rnd cs req
      | Some matchIdx \<Rightarrow> Some (route_result rnd c matchIdx))"

definition extractHost :: "Request \<Rightarrow> string" where
  "extractHost req =
     (let h0 = header_Get (req_Header req) ''X-Original-Host'';
          host = (if h0 = '''' then req_Host req else h0)
      in to_lower
           (case last_index host (CHR '':'') of
              None \<Rightarrow> host
            | Some idx \<Rightarrow> if \<not> str_contains (drop idx host) '']'' then take idx host else host))"

definition matchesWildcard :: "string \<Rightarrow> string \<Rightarrow> bool" where
  "matchesWildcard host sfx \<longleftrightarrow> has_suffix host sfx \<and> length host > length sfx"

fun route_wildcards ::
    "(int \<Rightarrow> int) \<Rightarrow> (string \<times> compiledRule list) list \<Rightarrow> string \<Rightarrow> Request \<Rightarrow> RouteResult option" where
  "route_wildcards rnd [] host req = None"
| "route_wildcards rnd ((sfx, rules) # ws) host req =
     (if matchesWildcard host sfx
      then (case matchRules rnd rules req of
              Some r \<Rightarrow> Some (r \<lparr> rr_MatchedHostname := ''*'' @ sfx \<rparr>)
            | None \<Rightarrow> route_wildcards rnd ws host req)
      else route_wildcards rnd ws host req)"

definition Route :: "(int \<Rightarrow> int) \<Rightarrow> routingTable \<Rightarrow> Request \<Rightarrow> RouteResult option" where
  "Route rnd table req =
     (let host = extractHost req
      in case (case rt_exactHosts table host of None \<Rightarrow> None | Some rules \<Rightarrow> matchRules rnd rules req) of
           Some r \<Rightarrow> Some (r \<lparr> rr_MatchedHostname := host \<rparr>)
         | None \<Rightarrow>
             (case route_wildcards rnd (rt_wildcardHosts table) host req of
                Some r \<Rightarrow> Some r
              | None \<Rightarrow> matchRules rnd (rt_defaultRules table) req))"

end
