(* ===== verification/RouterSpec.thy ===== *)
theory RouterSpec
  imports Router
begin

text \<open>
  What the router promises, as a specification on the configuration itself, and the proof that the
  compiled table implements it: among the rules that accept a request, the one with the most
  specific host pattern, then the highest priority, then the lowest index is chosen, whatever the
  iteration order of the wildcard map.
\<close>

section \<open>Specification\<close>

text \<open>How specific a host pattern is for a host: an exact pattern ranks above every wildcard, and a
  wildcard by the length of its suffix; None where the pattern does not cover the host.\<close>

definition host_rank :: "string \<Rightarrow> string \<Rightarrow> nat option" where
  "host_rank host pattern =
     (let p = to_lower pattern
      in if has_prefix p ''*.''
         then (if matchesWildcard host (drop 1 p) then Some (length (drop 1 p)) else None)
         else if p = host then Some (Suc (length host)) else None)"

text \<open>The ranks at which a rule serves a host; a rule without hostnames serves every host, at the
  lowest rank.\<close>

definition rule_ranks :: "string \<Rightarrow> RouteRule \<Rightarrow> nat set" where
  "rule_ranks host rule =
     (if rule_Hostnames rule = [] then {0}
      else {k. \<exists>p \<in> set (rule_Hostnames rule). host_rank host p = Some k})"

text \<open>The match conditions of a rule are alternatives; a rule without any accepts every request.\<close>

definition rule_accepts :: "re_engine \<Rightarrow> RouteRule \<Rightarrow> Request \<Rightarrow> bool" where
  "rule_accepts re_compile rule req \<longleftrightarrow>
     rule_Matches rule = [] \<or> (\<exists>m \<in> set (rule_Matches rule). match_spec re_compile m req)"

definition serves :: "re_engine \<Rightarrow> Config \<Rightarrow> Request \<Rightarrow> nat \<Rightarrow> nat \<Rightarrow> bool" where
  "serves re_compile cfg req i k \<longleftrightarrow>
     i < length (cfg_Rules cfg) \<and> k \<in> rule_ranks (extractHost req) (cfg_Rules cfg ! i)
     \<and> rule_accepts re_compile (cfg_Rules cfg ! i) req"

text \<open>Rule i at rank k is chosen before rule j at rank l, or is the same choice.\<close>

definition at_least_as_good :: "Config \<Rightarrow> nat \<times> nat \<Rightarrow> nat \<times> nat \<Rightarrow> bool" where
  "at_least_as_good cfg = (\<lambda>(i, k) (j, l).
     l < k \<or> (l = k \<and>
       (computePriority (cfg_Rules cfg ! j) < computePriority (cfg_Rules cfg ! i)
        \<or> (computePriority (cfg_Rules cfg ! j) = computePriority (cfg_Rules cfg ! i) \<and> i \<le> j))))"

text \<open>The host pattern a choice at rank k is reported under.\<close>

definition rank_pattern :: "string \<Rightarrow> nat \<Rightarrow> string" where
  "rank_pattern host k =
     (if k = Suc (length host) then host
      else if k = 0 then '''' else ''*'' @ drop (length host - k) host)"

definition map_iteration_order :: "map_order \<Rightarrow> bool" where
  "map_iteration_order iter \<longleftrightarrow> (\<forall>m. mset (iter m) = mset m)"

section \<open>Matching a list of rules\<close>

interpretation rule_order: strict_weak_order rule_precedes
  by unfold_locales (auto simp: rule_precedes_def split: if_splits)

interpretation suffix_order: strict_weak_order longer_suffix
  by unfold_locales (auto simp: longer_suffix_def)

definition rule_hits :: "Request \<Rightarrow> compiledRule \<Rightarrow> bool" where
  "rule_hits req c \<longleftrightarrow> findMatchingIndex c req \<noteq> None"

definition hit_result :: "(int \<Rightarrow> int) \<Rightarrow> Request \<Rightarrow> compiledRule \<Rightarrow> RouteResult" where
  "hit_result rnd req c = route_result rnd c (the (findMatchingIndex c req))"

lemma matchRules_find:
  "matchRules rnd cs req = map_option (hit_result rnd req) (find (rule_hits req) cs)"
  by (induction cs) (auto simp: rule_hits_def hit_result_def split: option.splits)

lemma matchRules_sorted:
  "matchRules rnd (sortRulesByPrecedence cs) req = None \<longleftrightarrow> (\<forall>c \<in> set cs. \<not> rule_hits req c)"
  by (auto simp: matchRules_find find_None_iff sortRulesByPrecedence_def)

lemma matchRules_sorted_Some:
  assumes "matchRules rnd (sortRulesByPrecedence cs) req = Some r"
  obtains c where "c \<in> set cs" "rule_hits req c" "r = hit_result rnd req c"
    "\<And>c'. c' \<in> set cs \<Longrightarrow> rule_hits req c' \<Longrightarrow> \<not> rule_precedes c' c"
proof -
  obtain c where c: "find (rule_hits req) (sort_stable rule_precedes cs) = Some c"
    "r = hit_result rnd req c"
    using assms by (auto simp: matchRules_find sortRulesByPrecedence_def)
  from rule_order.find_sorted_minimal [OF rule_order.sorted_sort_stable c(1)] c(2) that
  show thesis by auto
qed

section \<open>The buckets of the table\<close>

definition exact_names :: "RouteRule \<Rightarrow> string set" where
  "exact_names rule =
     {to_lower h |h. h \<in> set (rule_Hostnames rule) \<and> \<not> has_prefix (to_lower h) ''*.''}"

definition wildcard_suffixes :: "RouteRule \<Rightarrow> string set" where
  "wildcard_suffixes rule =
     {drop 1 (to_lower h) |h. h \<in> set (rule_Hostnames rule) \<and> has_prefix (to_lower h) ''*.''}"

definition exact_rules :: "host_maps \<Rightarrow> string \<Rightarrow> compiledRule list" where
  "exact_rules maps h = (case fst maps h of None \<Rightarrow> [] | Some cs \<Rightarrow> cs)"

definition wildcard_rules :: "host_maps \<Rightarrow> string \<Rightarrow> compiledRule list" where
  "wildcard_rules maps s = (case map_of (snd maps) s of None \<Rightarrow> [] | Some cs \<Rightarrow> cs)"

lemma map_of_wildcard_append:
  "map_of (wildcard_append m k c) s =
     (if s = k then Some ((case map_of m k of None \<Rightarrow> [] | Some cs \<Rightarrow> cs) @ [c]) else map_of m s)"
  by (induction m k c rule: wildcard_append.induct) auto

lemma keys_wildcard_append:
  "fst ` set (wildcard_append m k c) = insert k (fst ` set m)"
  by (induction m k c rule: wildcard_append.induct) auto

lemma distinct_wildcard_append:
  "distinct (map fst m) \<Longrightarrow> distinct (map fst (wildcard_append m k c))"
proof (induction m k c rule: wildcard_append.induct)
  case (2 k' cs m k c)
  then show ?case
    using keys_wildcard_append [of m k c] by (auto simp: image_iff)
qed simp

lemma exact_rules_add_hostname:
  "exact_rules (add_hostname c maps h) n =
     exact_rules maps n @ (if \<not> has_prefix (to_lower h) ''*.'' \<and> to_lower h = n then [c] else [])"
  by (cases maps) (auto simp: exact_rules_def add_hostname_def exact_append_def Let_def)

lemma wildcard_rules_add_hostname:
  "wildcard_rules (add_hostname c maps h) s =
     wildcard_rules maps s @ (if has_prefix (to_lower h) ''*.'' \<and> drop 1 (to_lower h) = s then [c] else [])"
  by (cases maps) (auto simp: wildcard_rules_def add_hostname_def map_of_wildcard_append Let_def)

lemma distinct_add_hostname:
  "distinct (map fst (snd maps)) \<Longrightarrow> distinct (map fst (snd (add_hostname c maps h)))"
  by (cases maps) (auto simp: add_hostname_def distinct_wildcard_append Let_def)

lemma set_exact_rules_foldl:
  "set (exact_rules (foldl (add_hostname c) maps hs) n) =
     set (exact_rules maps n)
     \<union> (if \<exists>h \<in> set hs. \<not> has_prefix (to_lower h) ''*.'' \<and> to_lower h = n then {c} else {})"
  by (induction hs rule: rev_induct) (auto simp: exact_rules_add_hostname)

lemma set_wildcard_rules_foldl:
  "set (wildcard_rules (foldl (add_hostname c) maps hs) s) =
     set (wildcard_rules maps s)
     \<union> (if \<exists>h \<in> set hs. has_prefix (to_lower h) ''*.'' \<and> drop 1 (to_lower h) = s then {c} else {})"
  by (induction hs rule: rev_induct) (auto simp: wildcard_rules_add_hostname)

lemma in_exact_names:
  "n \<in> exact_names r \<longleftrightarrow>
     (\<exists>h \<in> set (rule_Hostnames r). \<not> has_prefix (to_lower h) ''*.'' \<and> to_lower h = n)"
  by (auto simp: exact_names_def)

lemma in_wildcard_suffixes:
  "s \<in> wildcard_suffixes r \<longleftrightarrow>
     (\<exists>h \<in> set (rule_Hostnames r). has_prefix (to_lower h) ''*.'' \<and> drop 1 (to_lower h) = s)"
  by (auto simp: wildcard_suffixes_def)

lemma distinct_foldl_hostname:
  "distinct (map fst (snd maps)) \<Longrightarrow> distinct (map fst (snd (foldl (add_hostname c) maps hs)))"
  by (induction hs rule: rev_induct) (auto intro: distinct_add_hostname)

lemma add_rules_buckets:
  fixes cs
  defines "st \<equiv> foldl add_rule ((Map.empty, []), []) cs"
  shows "set (exact_rules (fst st) h) = {c \<in> set cs. h \<in> exact_names (cr_rule c)}"
    and "set (wildcard_rules (fst st) s) = {c \<in> set cs. s \<in> wildcard_suffixes (cr_rule c)}"
    and "distinct (map fst (snd (fst st)))"
    and "snd st = filter (\<lambda>c. rule_Hostnames (cr_rule c) = []) cs"
proof -
  have "set (exact_rules (fst st) h) = {c \<in> set cs. h \<in> exact_names (cr_rule c)}
      \<and> set (wildcard_rules (fst st) s) = {c \<in> set cs. s \<in> wildcard_suffixes (cr_rule c)}
      \<and> distinct (map fst (snd (fst st)))
      \<and> snd st = filter (\<lambda>c. rule_Hostnames (cr_rule c) = []) cs"
    unfolding st_def
  proof (induction cs rule: rev_induct)
    case Nil
    then show ?case by (simp add: exact_rules_def wildcard_rules_def)
  next
    case (snoc c cs)
    obtain maps df where st: "foldl add_rule ((Map.empty, []), []) cs = (maps, df)"
      by (cases "foldl add_rule ((Map.empty, []), []) cs")
    have IH: "set (exact_rules maps h) = {c \<in> set cs. h \<in> exact_names (cr_rule c)}"
      "set (wildcard_rules maps s) = {c \<in> set cs. s \<in> wildcard_suffixes (cr_rule c)}"
      "distinct (map fst (snd maps))" "df = filter (\<lambda>c. rule_Hostnames (cr_rule c) = []) cs"
      using snoc st by simp_all
    have step: "foldl add_rule ((Map.empty, []), []) (cs @ [c]) = add_rule (maps, df) c"
      using st by simp
    show ?case
    proof (cases "rule_Hostnames (cr_rule c) = []")
      case True
      then have "add_rule (maps, df) c = (maps, df @ [c])" by (simp add: add_rule_def)
      moreover have "h \<notin> exact_names (cr_rule c)" "s \<notin> wildcard_suffixes (cr_rule c)"
        using True by (simp_all add: in_exact_names in_wildcard_suffixes)
      ultimately show ?thesis using step True IH by auto
    next
      case False
      then have "add_rule (maps, df) c = (foldl (add_hostname c) maps (rule_Hostnames (cr_rule c)), df)"
        by (simp add: add_rule_def)
      moreover have "set (exact_rules (foldl (add_hostname c) maps (rule_Hostnames (cr_rule c))) h) =
          {c' \<in> set (cs @ [c]). h \<in> exact_names (cr_rule c')}"
        unfolding set_exact_rules_foldl IH(1) in_exact_names [of h "cr_rule c", symmetric] by auto
      moreover have "set (wildcard_rules (foldl (add_hostname c) maps (rule_Hostnames (cr_rule c))) s) =
          {c' \<in> set (cs @ [c]). s \<in> wildcard_suffixes (cr_rule c')}"
        unfolding set_wildcard_rules_foldl IH(2) in_wildcard_suffixes [of s "cr_rule c", symmetric] by auto
      moreover have "distinct (map fst (snd (foldl (add_hostname c) maps (rule_Hostnames (cr_rule c)))))"
        by (rule distinct_foldl_hostname) (rule IH(3))
      ultimately show ?thesis using step False IH(4) by simp
    qed
  qed
  then show "set (exact_rules (fst st) h) = {c \<in> set cs. h \<in> exact_names (cr_rule c)}"
    and "set (wildcard_rules (fst st) s) = {c \<in> set cs. s \<in> wildcard_suffixes (cr_rule c)}"
    and "distinct (map fst (snd (fst st)))"
    and "snd st = filter (\<lambda>c. rule_Hostnames (cr_rule c) = []) cs" by simp_all
qed

section \<open>Ranks and buckets\<close>

lemma wildcard_suffix_dot:
  assumes "s \<in> wildcard_suffixes rule"
  obtains d where "s = CHR ''.'' # d"
  using assms by (auto simp: wildcard_suffixes_def has_prefix_iff)

lemma rank_exact:
  "Suc (length host) \<in> rule_ranks host rule \<longleftrightarrow> host \<in> exact_names rule"
  by (auto simp: rule_ranks_def host_rank_def exact_names_def matchesWildcard_def Let_def
      split: if_splits)

lemma host_rank_pos: "host_rank host p = Some k \<Longrightarrow> 0 < k"
proof -
  assume r: "host_rank host p = Some k"
  show "0 < k"
  proof (cases "has_prefix (to_lower p) ''*.''")
    case True
    then obtain d where "to_lower p = ''*.'' @ d" by (auto simp: has_prefix_iff)
    with r True show ?thesis by (auto simp: host_rank_def split: if_splits)
  next
    case False
    with r show ?thesis by (auto simp: host_rank_def Let_def split: if_splits)
  qed
qed

lemma rank_default: "0 \<in> rule_ranks host rule \<longleftrightarrow> rule_Hostnames rule = []"
  by (auto simp: rule_ranks_def dest: host_rank_pos)

lemma rank_iff: "0 < k \<Longrightarrow> k \<in> rule_ranks host rule \<longleftrightarrow> (\<exists>p \<in> set (rule_Hostnames rule). host_rank host p = Some k)"
  by (simp add: rule_ranks_def)

lemma host_rank_wildcard:
  "k \<le> length host \<Longrightarrow> host_rank host p = Some k \<longleftrightarrow>
     has_prefix (to_lower p) ''*.'' \<and> matchesWildcard host (drop 1 (to_lower p))
     \<and> length (drop 1 (to_lower p)) = k"
  unfolding host_rank_def Let_def by (simp del: drop_Suc_Cons length_drop)

lemma rank_wildcard:
  assumes "0 < k" and "k \<le> length host"
  shows "k \<in> rule_ranks host rule \<longleftrightarrow>
     (\<exists>s \<in> wildcard_suffixes rule. matchesWildcard host s \<and> length s = k)"
  unfolding rank_iff [OF assms(1)] host_rank_wildcard [OF assms(2)] Bex_def in_wildcard_suffixes
  by blast

lemma host_rank_bound:
  "host_rank host p = Some k \<Longrightarrow> k = Suc (length host) \<or> k < length host"
  unfolding host_rank_def Let_def
  by (cases "has_prefix (to_lower p) ''*.''") (auto simp only: if_True if_False matchesWildcard_def
      option.inject option.simps split: if_split_asm)

lemma rank_bound:
  assumes "k \<in> rule_ranks host rule"
  shows "k = Suc (length host) \<or> k = 0 \<or> (0 < k \<and> k < length host)"
proof (cases "k = 0")
  case False
  with assms rank_iff [of k] obtain p where "host_rank host p = Some k" by auto
  with False host_rank_bound show ?thesis by blast
qed simp

lemma wildcard_same_length:
  "matchesWildcard host s \<Longrightarrow> matchesWildcard host t \<Longrightarrow> length s = length t \<Longrightarrow> s = t"
  by (auto simp: matchesWildcard_def intro: has_suffix_same_length)

lemma matchesWildcard_drop:
  "matchesWildcard host s \<Longrightarrow> s = drop (length host - length s) host"
  by (simp add: matchesWildcard_def has_suffix_def)

lemma route_wildcards_find:
  "route_wildcards rnd ws host req =
     (case find (\<lambda>(s, rs). matchesWildcard host s \<and> matchRules rnd rs req \<noteq> None) ws of
        None \<Rightarrow> None
      | Some (s, rs) \<Rightarrow>
          map_option (\<lambda>r. r \<lparr> rr_MatchedHostname := ''*'' @ s \<rparr>) (matchRules rnd rs req))"
proof (induction ws)
  case Nil
  then show ?case by simp
next
  case (Cons w ws)
  obtain s rs where w: "w = (s, rs)" by (cases w)
  show ?case
  proof (cases "matchesWildcard host s \<and> matchRules rnd rs req \<noteq> None")
    case True
    with w show ?thesis by auto
  next
    case False
    with w Cons show ?thesis by (cases "matchRules rnd rs req") auto
  qed
qed

text \<open>The wildcard entries of a table, as a set.\<close>

lemma wildcard_entries:
  assumes "map_iteration_order iter"
  shows "(s, rs) \<in> set (rt_wildcardHosts (build_table iter v cs)) \<Longrightarrow>
      \<exists>r0. rs = sortRulesByPrecedence r0 \<and> set r0 = {c \<in> set cs. s \<in> wildcard_suffixes (cr_rule c)}"
    and "c \<in> set cs \<Longrightarrow> s \<in> wildcard_suffixes (cr_rule c) \<Longrightarrow>
      \<exists>rs. (s, rs) \<in> set (rt_wildcardHosts (build_table iter v cs))"
proof -
  obtain ex wc df where st: "foldl add_rule ((Map.empty, []), []) cs = ((ex, wc), df)"
    by (metis prod.exhaust)
  have dist: "distinct (map fst wc)" using add_rules_buckets(3) [of cs] st by simp
  have buckets: "set (wildcard_rules (ex, wc) s) = {c \<in> set cs. s \<in> wildcard_suffixes (cr_rule c)}" for s
    using add_rules_buckets(2) [of cs s] st by simp
  have "set (iter wc) = set wc"
    using assms by (metis map_iteration_order_def mset_eq_setD)
  then have entries: "set (rt_wildcardHosts (build_table iter v cs)) =
      (\<lambda>(s, rs). (s, sortRulesByPrecedence rs)) ` set wc"
    by (simp add: build_table_def st)
  show "\<exists>r0. rs = sortRulesByPrecedence r0 \<and> set r0 = {c \<in> set cs. s \<in> wildcard_suffixes (cr_rule c)}"
    if "(s, rs) \<in> set (rt_wildcardHosts (build_table iter v cs))"
  proof -
    from that entries obtain r0 where r0: "(s, r0) \<in> set wc" "rs = sortRulesByPrecedence r0" by auto
    with dist have "map_of wc s = Some r0" by simp
    with buckets [of s] r0 show ?thesis by (auto simp: wildcard_rules_def)
  qed
  show "\<exists>rs. (s, rs) \<in> set (rt_wildcardHosts (build_table iter v cs))"
    if "c \<in> set cs" "s \<in> wildcard_suffixes (cr_rule c)"
  proof -
    have "c \<in> set (wildcard_rules (ex, wc) s)" using buckets that by simp
    then obtain r0 where "map_of wc s = Some r0"
      by (cases "map_of wc s") (auto simp: wildcard_rules_def)
    then have "(s, r0) \<in> set wc" by (rule map_of_SomeD)
    then have "(s, sortRulesByPrecedence r0) \<in> set (rt_wildcardHosts (build_table iter v cs))"
      unfolding entries by force
    then show ?thesis by blast
  qed
qed

lemma exact_entry:
  "(case rt_exactHosts (build_table iter v cs) h of None \<Rightarrow> None | Some rs \<Rightarrow> matchRules rnd rs req) =
     matchRules rnd (sortRulesByPrecedence
       (exact_rules (fst (foldl add_rule ((Map.empty, []), []) cs)) h)) req"
proof -
  obtain ex wc df where st: "foldl add_rule ((Map.empty, []), []) cs = ((ex, wc), df)"
    by (metis prod.exhaust)
  show ?thesis
    by (simp add: build_table_def st exact_rules_def sortRulesByPrecedence_def split: option.split)
qed

lemma default_entry:
  "rt_defaultRules (build_table iter v cs) =
     sortRulesByPrecedence (filter (\<lambda>c. rule_Hostnames (cr_rule c) = []) cs)"
proof -
  obtain ex wc df where st: "foldl add_rule ((Map.empty, []), []) cs = ((ex, wc), df)"
    by (metis prod.exhaust)
  then show ?thesis using add_rules_buckets(4) [of cs] by (simp add: build_table_def)
qed

section \<open>The table implements the specification\<close>

definition candidate :: "Request \<Rightarrow> compiledRule list \<Rightarrow> compiledRule \<Rightarrow> nat \<Rightarrow> bool" where
  "candidate req cs c k \<longleftrightarrow>
     c \<in> set cs \<and> k \<in> rule_ranks (extractHost req) (cr_rule c) \<and> rule_hits req c"

definition chosen :: "(int \<Rightarrow> int) \<Rightarrow> Request \<Rightarrow> compiledRule list \<Rightarrow> RouteResult \<Rightarrow> compiledRule \<Rightarrow> nat \<Rightarrow> bool" where
  "chosen rnd req cs r c k \<longleftrightarrow>
     candidate req cs c k
     \<and> r = (hit_result rnd req c) \<lparr> rr_MatchedHostname := rank_pattern (extractHost req) k \<rparr>
     \<and> (\<forall>c' k'. candidate req cs c' k' \<longrightarrow> k' < k \<or> (k' = k \<and> \<not> rule_precedes c' c))"

lemma hit_result_no_hostname: "(hit_result rnd req c) \<lparr> rr_MatchedHostname := '''' \<rparr> = hit_result rnd req c"
  by (simp add: hit_result_def route_result_def Let_def)

lemma chosen_exact:
  assumes "matchRules rnd (sortRulesByPrecedence E) req = Some r"
    and E: "set E = {c \<in> set cs. extractHost req \<in> exact_names (cr_rule c)}"
  shows "\<exists>c k. chosen rnd req cs (r \<lparr> rr_MatchedHostname := extractHost req \<rparr>) c k"
proof -
  obtain c where c: "c \<in> set E" "rule_hits req c" "r = hit_result rnd req c"
    "\<And>c'. c' \<in> set E \<Longrightarrow> rule_hits req c' \<Longrightarrow> \<not> rule_precedes c' c"
    using matchRules_sorted_Some [OF assms(1)] by blast
  have "chosen rnd req cs (r \<lparr> rr_MatchedHostname := extractHost req \<rparr>) c (Suc (length (extractHost req)))"
    unfolding chosen_def
  proof (intro conjI allI impI)
    show "candidate req cs c (Suc (length (extractHost req)))"
      using c(1,2) E by (simp add: candidate_def rank_exact)
    show "r \<lparr> rr_MatchedHostname := extractHost req \<rparr> =
        hit_result rnd req c \<lparr> rr_MatchedHostname := rank_pattern (extractHost req) (Suc (length (extractHost req))) \<rparr>"
      using c(3) by (simp add: rank_pattern_def)
    show "k' < Suc (length (extractHost req)) \<or> k' = Suc (length (extractHost req)) \<and> \<not> rule_precedes c' c"
      if cand: "candidate req cs c' k'" for c' k'
    proof (cases "k' = Suc (length (extractHost req))")
      case True
      with cand E have "c' \<in> set E" "rule_hits req c'" by (auto simp: candidate_def rank_exact)
      with c(4) True show ?thesis by blast
    next
      case False
      with cand rank_bound [of k' "extractHost req" "cr_rule c'"] show ?thesis
        by (auto simp: candidate_def)
    qed
  qed
  then show ?thesis by blast
qed

lemma chosen_wildcard:
  assumes iter: "map_iteration_order iter"
    and f: "find (\<lambda>(s, rs). matchesWildcard (extractHost req) s \<and> matchRules rnd rs req \<noteq> None)
        (rt_wildcardHosts (build_table iter v cs)) = Some (s, rs)"
    and r: "matchRules rnd rs req = Some r"
    and no_exact: "\<And>c. c \<in> set cs \<Longrightarrow> extractHost req \<in> exact_names (cr_rule c) \<Longrightarrow> \<not> rule_hits req c"
  shows "\<exists>c k. chosen rnd req cs (r \<lparr> rr_MatchedHostname := ''*'' @ s \<rparr>) c k"
proof -
  let ?host = "extractHost req" and ?W = "rt_wildcardHosts (build_table iter v cs)"
  let ?Q = "\<lambda>(s, rs). matchesWildcard ?host s \<and> matchRules rnd rs req \<noteq> None"
  have sorted: "sorted_wrt (\<lambda>a b. \<not> longer_suffix b a) ?W"
    unfolding build_table_def by (auto intro: suffix_order.sorted_sort_stable split: prod.split)
  from suffix_order.find_sorted_minimal [OF sorted f]
  have mem: "(s, rs) \<in> set ?W" "matchesWildcard ?host s"
    and min: "\<And>t rt. (t, rt) \<in> set ?W \<Longrightarrow> ?Q (t, rt) \<Longrightarrow> length t \<le> length s"
    by (auto simp: longer_suffix_def)
  obtain r0 where r0: "rs = sortRulesByPrecedence r0"
    "set r0 = {c \<in> set cs. s \<in> wildcard_suffixes (cr_rule c)}"
    using wildcard_entries(1) [OF iter mem(1)] by blast
  obtain c where c: "c \<in> set r0" "rule_hits req c" "r = hit_result rnd req c"
    "\<And>c'. c' \<in> set r0 \<Longrightarrow> rule_hits req c' \<Longrightarrow> \<not> rule_precedes c' c"
    using matchRules_sorted_Some [OF r [unfolded r0(1)]] by blast
  have s: "0 < length s" "length s < length ?host"
    using c(1) r0(2) mem(2) wildcard_suffix_dot [of s "cr_rule c"] by (auto simp: matchesWildcard_def)
  have "chosen rnd req cs (r \<lparr> rr_MatchedHostname := ''*'' @ s \<rparr>) c (length s)"
    unfolding chosen_def
  proof (intro conjI allI impI)
    show "candidate req cs c (length s)"
      using c(1,2) r0(2) mem(2) s rank_wildcard [of "length s" ?host "cr_rule c"]
      by (auto simp: candidate_def)
    show "r \<lparr> rr_MatchedHostname := ''*'' @ s \<rparr> =
        hit_result rnd req c \<lparr> rr_MatchedHostname := rank_pattern ?host (length s) \<rparr>"
      using c(3) s matchesWildcard_drop [OF mem(2)] by (simp add: rank_pattern_def)
    show "k' < length s \<or> k' = length s \<and> \<not> rule_precedes c' c" if cand: "candidate req cs c' k'" for c' k'
    proof (cases "0 < k' \<and> k' < length ?host")
      case True
      then obtain t where t: "t \<in> wildcard_suffixes (cr_rule c')" "matchesWildcard ?host t" "length t = k'"
        using cand rank_wildcard [of k' ?host "cr_rule c'"] by (auto simp: candidate_def)
      obtain rt where rt: "(t, rt) \<in> set ?W"
        using wildcard_entries(2) [OF iter, of c' cs t v] t(1) cand by (auto simp: candidate_def)
      obtain t0 where t0: "rt = sortRulesByPrecedence t0"
        "set t0 = {c \<in> set cs. t \<in> wildcard_suffixes (cr_rule c)}"
        using wildcard_entries(1) [OF iter rt] by blast
      have c': "c' \<in> set t0" "rule_hits req c'" using cand t(1) t0(2) by (auto simp: candidate_def)
      then have "matchRules rnd rt req \<noteq> None"
        unfolding t0(1) matchRules_sorted by blast
      with min [OF rt] t have "k' \<le> length s" by simp
      moreover have "\<not> rule_precedes c' c" if "k' = length s"
        using wildcard_same_length [OF t(2) mem(2)] t that c' c(4) r0(2) t0(2) by auto
      ultimately show ?thesis by auto
    next
      case False
      with cand rank_bound [of k' ?host "cr_rule c'"] have "k' = 0 \<or> k' = Suc (length ?host)"
        unfolding candidate_def by blast
      moreover have "k' \<noteq> Suc (length ?host)"
        using cand no_exact [of c'] unfolding candidate_def by (metis rank_exact)
      ultimately show ?thesis using s(1) by simp
    qed
  qed
  then show ?thesis by blast
qed

lemma Route_build_table:
  assumes iter: "map_iteration_order iter"
  shows "case Route rnd (build_table iter v cs) req of
           None \<Rightarrow> \<forall>c k. \<not> candidate req cs c k
         | Some r \<Rightarrow> \<exists>c k. chosen rnd req cs r c k"
proof -
  let ?host = "extractHost req" and ?T = "build_table iter v cs"
  let ?E = "exact_rules (fst (foldl add_rule ((Map.empty, []), []) cs)) ?host"
  let ?D = "filter (\<lambda>c. rule_Hostnames (cr_rule c) = []) cs"
  have E: "set ?E = {c \<in> set cs. ?host \<in> exact_names (cr_rule c)}" by (rule add_rules_buckets(1))
  show ?thesis
  proof (cases "matchRules rnd (sortRulesByPrecedence ?E) req")
    case (Some r)
    then show ?thesis
      using chosen_exact [OF Some E] by (simp add: Route_def Let_def exact_entry)
  next
    case None
    then have no_exact: "\<not> rule_hits req c" if "c \<in> set cs" "?host \<in> exact_names (cr_rule c)" for c
      using that E unfolding matchRules_sorted by blast
    let ?find = "find (\<lambda>(s, rs). matchesWildcard ?host s \<and> matchRules rnd rs req \<noteq> None)
        (rt_wildcardHosts ?T)"
    show ?thesis
    proof (cases ?find)
      case (Some w)
      obtain s rs where w: "w = (s, rs)" by (cases w)
      then obtain r where r: "matchRules rnd rs req = Some r"
        using Some by (auto simp: find_Some_iff)
      have "Route rnd ?T req = Some (r \<lparr> rr_MatchedHostname := ''*'' @ s \<rparr>)"
        using None Some w r by (simp add: Route_def Let_def exact_entry route_wildcards_find)
      then show ?thesis using chosen_wildcard [OF iter Some [unfolded w] r no_exact] by simp
    next
      case no_wild: None
      have R: "Route rnd ?T req = matchRules rnd (sortRulesByPrecedence ?D) req"
        using None no_wild by (simp add: Route_def Let_def exact_entry route_wildcards_find default_entry)
      have zero: "k = 0" if cand: "candidate req cs c k" for c k
      proof (rule ccontr)
        assume "k \<noteq> 0"
        with cand rank_bound [of k ?host "cr_rule c"] no_exact [of c]
        have k: "0 < k" "k < length ?host" by (auto simp: candidate_def rank_exact)
        then obtain t where t: "t \<in> wildcard_suffixes (cr_rule c)" "matchesWildcard ?host t"
          using cand rank_wildcard [of k ?host "cr_rule c"] by (auto simp: candidate_def)
        obtain rt where rt: "(t, rt) \<in> set (rt_wildcardHosts ?T)"
          using wildcard_entries(2) [OF iter, of c cs t v] t(1) cand by (auto simp: candidate_def)
        obtain t0 where t0: "rt = sortRulesByPrecedence t0"
          "set t0 = {c \<in> set cs. t \<in> wildcard_suffixes (cr_rule c)}"
          using wildcard_entries(1) [OF iter rt] by blast
        have "matchRules rnd rt req \<noteq> None"
          unfolding t0(1) matchRules_sorted using cand t(1) t0(2) by (auto simp: candidate_def)
        with no_wild rt t(2) show False by (auto simp: find_None_iff)
      qed
      show ?thesis
      proof (cases "matchRules rnd (sortRulesByPrecedence ?D) req")
        case None
        then have "\<not> candidate req cs c 0" for c
          unfolding matchRules_sorted by (auto simp: candidate_def rank_default)
        then show ?thesis using R None zero by auto
      next
        case (Some r)
        obtain c where c: "c \<in> set ?D" "rule_hits req c" "r = hit_result rnd req c"
          "\<And>c'. c' \<in> set ?D \<Longrightarrow> rule_hits req c' \<Longrightarrow> \<not> rule_precedes c' c"
          using matchRules_sorted_Some [OF Some] by blast
        have "chosen rnd req cs r c 0"
          unfolding chosen_def
        proof (intro conjI allI impI)
          show "candidate req cs c 0" using c(1,2) by (simp add: candidate_def rank_default)
          show "r = hit_result rnd req c \<lparr> rr_MatchedHostname := rank_pattern ?host 0 \<rparr>"
            using c(3) by (simp add: rank_pattern_def hit_result_no_hostname)
          show "k' < 0 \<or> k' = 0 \<and> \<not> rule_precedes c' c" if cand: "candidate req cs c' k'" for c' k'
            using zero [OF cand] cand c(4) [of c'] by (simp add: candidate_def rank_default)
        qed
        then show ?thesis using R Some by auto
      qed
    qed
  qed
qed

section \<open>From compiled rules to the configuration\<close>

lemma compileRule_fields:
  assumes "compileRule re b rule i = Inr c"
  shows "cr_rule c = rule" and "cr_priority c = computePriority rule" and "cr_ruleIndex c = i"
    and "traverse (\<lambda>i m. wrap_res (AtMatch i) (CompileMatch re m)) 0 (rule_Matches rule) = Inr (cr_matches c)"
    and "length (cr_backendFilters c) = length (rule_Backends rule)"
  using assms by (auto simp: compileRule_def traverse_length split: sum.splits)

lemma findMatchingIndex_spec:
  assumes "compileRule re b rule i = Inr c"
  shows "findMatchingIndex c req =
           (if rule_Matches rule = [] then Some 0
            else find_index_from (\<lambda>m. match_spec re m req) 0 (rule_Matches rule))"
proof -
  have t: "length (cr_matches c) = length (rule_Matches rule)"
    "k < length (rule_Matches rule) \<Longrightarrow> CompileMatch re (rule_Matches rule ! k) = Inr (cr_matches c ! k)" for k
    using compileRule_fields(4) [OF assms] by (auto simp: traverse_Inr)
  then have "CompiledMatch_Match (cr_matches c ! k) req \<longleftrightarrow> match_spec re (rule_Matches rule ! k) req"
    if "k < length (rule_Matches rule)" for k
    using that CompileMatch_match_spec by blast
  then have "map (\<lambda>m. CompiledMatch_Match m req) (cr_matches c) =
      map (\<lambda>m. match_spec re m req) (rule_Matches rule)"
    using t(1) by (intro nth_equalityI) auto
  then have "find_index_from (\<lambda>m. CompiledMatch_Match m req) 0 (cr_matches c) =
      find_index_from (\<lambda>m. match_spec re m req) 0 (rule_Matches rule)"
    by (metis find_index_from_map)
  then show ?thesis using t(1) by (auto simp: findMatchingIndex_def)
qed

lemma rule_hits_accepts:
  assumes "compileRule re b rule i = Inr c"
  shows "rule_hits req c \<longleftrightarrow> rule_accepts re rule req"
  unfolding rule_hits_def findMatchingIndex_spec [OF assms]
  by (cases "rule_Matches rule = []")
    (simp_all add: rule_accepts_def find_index_from_None del: not_None_eq)

lemma compiled_rules:
  assumes "traverse (\<lambda>i r. wrap_res (AtRule i) (compileRule re b r i)) 0 rules = Inr cs"
  shows "length cs = length rules"
    and "i < length rules \<Longrightarrow> compileRule re b (rules ! i) i = Inr (cs ! i)"
  using assms by (auto simp: traverse_Inr)

lemma candidate_serves:
  assumes cs: "traverse (\<lambda>i r. wrap_res (AtRule i) (compileRule re b r i)) 0 (cfg_Rules cfg) = Inr cs"
  shows "candidate req cs c k \<longleftrightarrow> (\<exists>i. c = cs ! i \<and> serves re cfg req i k)"
proof -
  have "candidate req cs (cs ! i) k \<longleftrightarrow> serves re cfg req i k" if "i < length cs" for i
    using that compiled_rules [OF cs] compileRule_fields(1) [OF compiled_rules(2) [OF cs, of i]]
      rule_hits_accepts [OF compiled_rules(2) [OF cs, of i]]
    by (simp add: candidate_def serves_def)
  then show ?thesis
    using compiled_rules(1) [OF cs] by (auto simp: candidate_def serves_def in_set_conv_nth)
qed

lemma rule_precedes_compiled:
  assumes cs: "traverse (\<lambda>i r. wrap_res (AtRule i) (compileRule re b r i)) 0 (cfg_Rules cfg) = Inr cs"
    and "i < length (cfg_Rules cfg)" and "j < length (cfg_Rules cfg)"
  shows "l < k \<or> (l = k \<and> \<not> rule_precedes (cs ! j) (cs ! i)) \<longleftrightarrow> at_least_as_good cfg (i, k) (j, l)"
  using compileRule_fields(2,3) [OF compiled_rules(2) [OF cs assms(2)]]
    compileRule_fields(2,3) [OF compiled_rules(2) [OF cs assms(3)]]
  by (auto simp: rule_precedes_def at_least_as_good_def)

lemma compileRoutingTable_Inr:
  "compileRoutingTable re iter b cfg = Inr t \<longleftrightarrow>
     (\<exists>cs. traverse (\<lambda>i r. wrap_res (AtRule i) (compileRule re b r i)) 0 (cfg_Rules cfg) = Inr cs
        \<and> t = build_table iter (cfg_Version cfg) cs)"
  by (auto simp: compileRoutingTable_def split: sum.splits)

lemma chosen_unique:
  assumes cs: "traverse (\<lambda>i r. wrap_res (AtRule i) (compileRule re b r i)) 0 (cfg_Rules cfg) = Inr cs"
    and c: "chosen rnd req cs r c k" and d: "chosen rnd req cs r' d l"
  shows "r = r'"
proof -
  have "k = l" "\<not> rule_precedes c d" "\<not> rule_precedes d c"
    using c d unfolding chosen_def by (metis less_asym)+
  moreover obtain i j where ij: "c = cs ! i" "d = cs ! j" "i < length cs" "j < length cs"
    using c d unfolding chosen_def candidate_def by (metis in_set_conv_nth)
  ultimately have "cr_ruleIndex c = cr_ruleIndex d" by (auto simp: rule_precedes_def split: if_splits)
  with ij have "i = j"
    using compileRule_fields(3) [OF compiled_rules(2) [OF cs, of i]]
      compileRule_fields(3) [OF compiled_rules(2) [OF cs, of j]] compiled_rules(1) [OF cs] by simp
  with ij \<open>k = l\<close> c d show ?thesis by (simp add: chosen_def)
qed

lemma compileRule_total:
  assumes "wf_rule rule" and "\<forall>m \<in> set (rule_Matches rule). match_regexps_ok re m"
  shows "\<exists>c. compileRule re b rule i = Inr c"
proof -
  have "\<exists>ms. traverse (\<lambda>i m. wrap_res (AtMatch i) (CompileMatch re m)) 0 (rule_Matches rule) = Inr ms"
    using assms CompileMatch_total by (intro traverse_total) (auto simp: wf_rule_def)
  moreover have "\<exists>fs. CompileFilters b (rule_Filters rule) = Inr fs"
    using assms(1) CompileFilters_wf [of "rule_Filters rule" b] by (auto simp: wf_rule_def)
  moreover have "\<exists>bs. traverse (\<lambda>i x. if be_Filters x = [] then Inr []
        else wrap_res (AtBackend i) (CompileFilters b (be_Filters x))) 0 (rule_Backends rule) = Inr bs"
  proof (intro traverse_total)
    fix i x
    assume "x \<in> set (rule_Backends rule)"
    then have "\<forall>f \<in> set (be_Filters x). wf_filter f"
      using assms(1) by (auto simp: wf_rule_def wf_backend_def)
    from CompileFilters_wf [OF this, of b]
    show "\<exists>y. (if be_Filters x = [] then Inr []
        else wrap_res (AtBackend i) (CompileFilters b (be_Filters x))) = Inr y" by auto
  qed
  ultimately show ?thesis by (auto simp: compileRule_def)
qed

lemma compile_config_total:
  assumes "wf_config cfg"
    and "\<forall>r \<in> set (cfg_Rules cfg). \<forall>m \<in> set (rule_Matches r). match_regexps_ok re_compile m"
  shows "\<exists>table. compileRoutingTable re_compile iter has_factory cfg = Inr table
           \<and> rt_version table = cfg_Version cfg"
proof -
  have "\<forall>r \<in> set (cfg_Rules cfg). wf_rule r" using assms(1) by (simp add: wf_config_def)
  then have "\<exists>cs. traverse (\<lambda>i r. wrap_res (AtRule i) (compileRule re_compile has_factory r i)) 0
      (cfg_Rules cfg) = Inr cs"
    using assms(2) compileRule_total by (intro traverse_total) auto
  then show ?thesis
    by (auto simp: compileRoutingTable_def build_table_def split: prod.splits)
qed

section \<open>A sample configuration\<close>

definition sample_rule :: "string list \<Rightarrow> RouteMatch list \<Rightarrow> RouteRule" where
  "sample_rule hosts ms =
     \<lparr> rule_Hostnames = hosts, rule_Matches = ms, rule_Filters = [], rule_Backends = [],
       rule_Timeouts = None, rule_UnavailableStatus = 0 \<rparr>"

definition sample_match :: RouteMatch where
  "sample_match =
     \<lparr> rm_Path = Some \<lparr> pm_Type = PathMatchPathPrefix, pm_Value = ''/v1'' \<rparr>,
       rm_Headers = [\<lparr> hm_Type = HeaderMatchExact, hm_Name = ''origin'', hm_Value = ''https://app.example.com'' \<rparr>],
       rm_QueryParams = [], rm_Method = ''OPTIONS'' \<rparr>"

definition sample_config :: "int \<Rightarrow> Config" where
  "sample_config version =
     \<lparr> cfg_Version = version,
       cfg_Rules = [sample_rule [''*.example.com''] [sample_match], sample_rule [] []],
       cfg_HasGRPCRoute = False, cfg_Diagnostics = [], cfg_Provenance = [] \<rparr>"

definition sample_re :: re_engine where
  "sample_re p = (if p = ''^/v1'' then Some (\<lambda>s. has_prefix s ''/v1'') else None)"

lemma sample_config_ok:
  assumes "0 \<le> v"
  shows "wf_config (sample_config v)"
    and "\<forall>r \<in> set (cfg_Rules (sample_config v)). \<forall>m \<in> set (rule_Matches r). match_regexps_ok sample_re m"
  using assms
  by (simp_all add: sample_config_def sample_rule_def sample_match_def wf_config_def wf_rule_def
      wf_match_def match_regexps_ok_def)

lemma sample_config_serves: "serves sample_re (sample_config v) sample_preflight 1 0"
  by (simp add: serves_def sample_config_def sample_rule_def rule_ranks_def rule_accepts_def)

lemma id_iteration_order: "map_iteration_order (\<lambda>m. m)" and rev_iteration_order: "map_iteration_order rev"
  by (simp_all add: map_iteration_order_def)

section \<open>Properties\<close>

lemma Route_best:
  assumes "compileRoutingTable re_compile iter has_factory cfg = Inr table"
    and "map_iteration_order iter"
  shows "case Route rnd table req of
           None \<Rightarrow> \<forall>i k. \<not> serves re_compile cfg req i k
         | Some r \<Rightarrow>
             \<exists>i k c. serves re_compile cfg req i k
               \<and> compileRule re_compile has_factory (cfg_Rules cfg ! i) i = Inr c
               \<and> r = (hit_result rnd req c) \<lparr> rr_MatchedHostname := rank_pattern (extractHost req) k \<rparr>
               \<and> (\<forall>j l. serves re_compile cfg req j l \<longrightarrow> at_least_as_good cfg (i, k) (j, l))"
proof -
  obtain cs where cs: "traverse (\<lambda>i r. wrap_res (AtRule i) (compileRule re_compile has_factory r i)) 0
      (cfg_Rules cfg) = Inr cs" and t: "table = build_table iter (cfg_Version cfg) cs"
    using assms(1) unfolding compileRoutingTable_Inr by blast
  note served = candidate_serves [OF cs]
  show ?thesis
  proof (cases "Route rnd table req")
    case None
    then show ?thesis
      using Route_build_table [OF assms(2), where rnd = rnd and v = "cfg_Version cfg" and cs = cs and req = req] t served by auto
  next
    case (Some r)
    then obtain c k where ch: "chosen rnd req cs r c k"
      using Route_build_table [OF assms(2), where rnd = rnd and v = "cfg_Version cfg" and cs = cs and req = req] t by auto
    then obtain i where i: "c = cs ! i" "serves re_compile cfg req i k"
      using served by (auto simp: chosen_def)
    then have il: "i < length (cfg_Rules cfg)" by (simp add: serves_def)
    have best: "at_least_as_good cfg (i, k) (j, l)" if s: "serves re_compile cfg req j l" for j l
    proof -
      have "candidate req cs (cs ! j) l" using s served by blast
      with ch i(1) have "l < k \<or> (l = k \<and> \<not> rule_precedes (cs ! j) (cs ! i))"
        unfolding chosen_def by blast
      with rule_precedes_compiled [OF cs il, of j] s show ?thesis by (simp add: serves_def)
    qed
    have "compileRule re_compile has_factory (cfg_Rules cfg ! i) i = Inr c"
      "r = (hit_result rnd req c) \<lparr> rr_MatchedHostname := rank_pattern (extractHost req) k \<rparr>"
      using ch i(1) compiled_rules(2) [OF cs il] by (simp_all add: chosen_def)
    with Some i best show ?thesis by auto
  qed
qed

text \<open>C1: routing implements the precedence of the Gateway API. For every request, the compiled
  table finds no rule exactly when no rule of the configuration serves the request's host and
  accepts the request; otherwise it returns a rule that does, such that every other one that does
  has a less specific host pattern (exact before longer wildcard suffix before no hostname), or the
  same and a lower priority, or the same priority and a higher index. The result names that host
  pattern, and its backend is the one drawn from that rule's backends.\<close>

theorem route_selects_best_rule:
  assumes "compileRoutingTable re_compile iter has_factory cfg = Inr table"
    and "map_iteration_order iter"
  shows "case Route rnd table req of
           None \<Rightarrow> \<forall>i k. \<not> serves re_compile cfg req i k
         | Some r \<Rightarrow>
             \<exists>i k. serves re_compile cfg req i k \<and> rr_Rule r = cfg_Rules cfg ! i
               \<and> rr_MatchedHostname r = rank_pattern (extractHost req) k
               \<and> rr_BackendIdx r = selectBackend rnd (rule_Backends (cfg_Rules cfg ! i))
               \<and> (\<forall>j l. serves re_compile cfg req j l \<longrightarrow> at_least_as_good cfg (i, k) (j, l))"
  using Route_best [OF assms, where rnd = rnd and req = req]
proof (cases "Route rnd table req")
  case (Some r)
  with Route_best [OF assms, where rnd = rnd and req = req] obtain i k c where "serves re_compile cfg req i k"
    and c: "compileRule re_compile has_factory (cfg_Rules cfg ! i) i = Inr c"
    and r: "r = (hit_result rnd req c) \<lparr> rr_MatchedHostname := rank_pattern (extractHost req) k \<rparr>"
    and "\<forall>j l. serves re_compile cfg req j l \<longrightarrow> at_least_as_good cfg (i, k) (j, l)" by auto
  moreover have "rr_Rule r = cfg_Rules cfg ! i"
    "rr_BackendIdx r = selectBackend rnd (rule_Backends (cfg_Rules cfg ! i))"
    "rr_MatchedHostname r = rank_pattern (extractHost req) k"
    unfolding r using compileRule_fields(1) [OF c] by (simp_all add: hit_result_def route_result_def Let_def)
  ultimately show ?thesis using Some by auto
qed simp

theorem route_selects_best_rule_witness:
  "\<exists>table r i k. compileRoutingTable sample_re rev True (sample_config 7) = Inr table
     \<and> Route (\<lambda>_. 0) table sample_preflight = Some r
     \<and> serves sample_re (sample_config 7) sample_preflight i k
     \<and> rr_Rule r = cfg_Rules (sample_config 7) ! i"
proof -
  obtain table where t: "compileRoutingTable sample_re rev True (sample_config 7) = Inr table"
    using compile_config_total sample_config_ok [of 7] by fastforce
  from route_selects_best_rule [OF t rev_iteration_order, where rnd = "\<lambda>_. 0" and req = sample_preflight]
    sample_config_serves [of 7]
  show ?thesis using t by (auto split: option.splits)
qed

text \<open>The outcome of routing does not depend on the iteration order of the wildcard map, nor on
  how the unstable sort arranges suffixes of equal length: two compilations of a configuration that
  differ only in that order route every request alike.\<close>

theorem route_independent_of_map_order:
  assumes "map_iteration_order iter1" and "map_iteration_order iter2"
    and "compileRoutingTable re_compile iter1 has_factory cfg = Inr t1"
    and "compileRoutingTable re_compile iter2 has_factory cfg = Inr t2"
  shows "Route rnd t1 req = Route rnd t2 req"
proof -
  obtain cs where cs: "traverse (\<lambda>i r. wrap_res (AtRule i) (compileRule re_compile has_factory r i)) 0
      (cfg_Rules cfg) = Inr cs"
    and t: "t1 = build_table iter1 (cfg_Version cfg) cs" "t2 = build_table iter2 (cfg_Version cfg) cs"
    using assms(3,4) unfolding compileRoutingTable_Inr by auto
  have r1: "case Route rnd t1 req of None \<Rightarrow> \<forall>c k. \<not> candidate req cs c k
      | Some r \<Rightarrow> \<exists>c k. chosen rnd req cs r c k"
    unfolding t(1) by (rule Route_build_table) (rule assms(1))
  have r2: "case Route rnd t2 req of None \<Rightarrow> \<forall>c k. \<not> candidate req cs c k
      | Some r \<Rightarrow> \<exists>c k. chosen rnd req cs r c k"
    unfolding t(2) by (rule Route_build_table) (rule assms(2))
  show ?thesis
  proof (cases "Route rnd t1 req"; cases "Route rnd t2 req")
    fix a b
    assume ab: "Route rnd t1 req = Some a" "Route rnd t2 req = Some b"
    then obtain c k d l where "chosen rnd req cs a c k" "chosen rnd req cs b d l"
      using r1 r2 by (simp only: option.case) blast
    with ab show ?thesis using chosen_unique [OF cs] by simp
  next
    fix b
    assume "Route rnd t1 req = None" "Route rnd t2 req = Some b"
    with r1 r2 show ?thesis by (simp only: option.case chosen_def) blast
  next
    fix a
    assume "Route rnd t1 req = Some a" "Route rnd t2 req = None"
    with r1 r2 show ?thesis by (simp only: option.case chosen_def) blast
  next
    assume "Route rnd t1 req = None" "Route rnd t2 req = None"
    then show ?thesis by simp
  qed
qed

text \<open>C2: a configuration that passes validation, and whose regular expressions compile, is compiled
  into a routing table of its version: the router never has to refuse it half way.\<close>

theorem validated_config_compiles:
  assumes "Config_Validate cfg = None"
    and "\<forall>r \<in> set (cfg_Rules cfg). \<forall>m \<in> set (rule_Matches r). match_regexps_ok re_compile m"
  shows "\<exists>table. compileRoutingTable re_compile iter has_factory cfg = Inr table
           \<and> rt_version table = cfg_Version cfg"
  using assms(1) unfolding Config_Validate_iff by (rule compile_config_total) (rule assms(2))

theorem validated_config_compiles_witness:
  "\<exists>table. compileRoutingTable sample_re (\<lambda>m. m) True (sample_config 7) = Inr table \<and> rt_version table = 7"
  using validated_config_compiles [of "sample_config 7" sample_re "\<lambda>m. m" True] sample_config_ok [of 7]
  by (simp add: Config_Validate_iff) (simp add: sample_config_def)

end
