(* ===== verification/RouterPriority.thy ===== *)
theory RouterPriority
  imports RouterSpec
begin

text \<open>
  The two scores of the router: the priority of a rule, compared with the tier order its comment
  promises, and the weighted choice of a backend.
\<close>

section \<open>Priorities\<close>

definition priority_ok :: "PriorityVars \<Rightarrow> bool" where
  "priority_ok v \<longleftrightarrow>
     pr_TypeScore v \<in> {0, priorityPrefixPath, priorityRegexPath, priorityExactPath}
     \<and> 0 \<le> pr_PathLen v \<and> 0 \<le> pr_Headers v \<and> 0 \<le> pr_QueryParams v"

lemma priority_path_step_ok:
  assumes "priority_path_step p (s, l) = (s', l')"
    and "s \<in> {0, priorityPrefixPath, priorityRegexPath, priorityExactPath}" and "0 \<le> l"
  shows "s' \<in> {0, priorityPrefixPath, priorityRegexPath, priorityExactPath} \<and> 0 \<le> l'"
  using assms
  by (auto simp: priority_path_step_def pathTypeScore_def Let_def
      split: option.splits if_splits PathMatchType.splits)

lemma priority_step_ok: "priority_ok v \<Longrightarrow> priority_ok (priority_step v m)"
  using priority_path_step_ok [of "rm_Path m" "pr_TypeScore v" "pr_PathLen v"]
  by (auto simp: priority_ok_def priority_step_def Let_def split: prod.splits)

lemma priority_vars_ok: "priority_ok (priority_vars rule)"
proof -
  have "priority_ok v \<Longrightarrow> priority_ok (foldl priority_step v ms)" for v ms
    by (induction ms arbitrary: v) (auto intro: priority_step_ok)
  then show ?thesis by (simp add: priority_vars_def priority_ok_def)
qed

text \<open>The tier order: path type, then path length, then method, then headers, then query
  parameters.\<close>

definition tier_less :: "PriorityVars \<Rightarrow> PriorityVars \<Rightarrow> bool" where
  "tier_less v w \<longleftrightarrow>
     pr_TypeScore v < pr_TypeScore w \<or> pr_TypeScore v = pr_TypeScore w \<and>
       (pr_PathLen v < pr_PathLen w \<or> pr_PathLen v = pr_PathLen w \<and>
         (\<not> pr_HasMethod v \<and> pr_HasMethod w \<or> pr_HasMethod v = pr_HasMethod w \<and>
           (pr_Headers v < pr_Headers w \<or> pr_Headers v = pr_Headers w \<and>
             pr_QueryParams v < pr_QueryParams w)))"

definition within_limits :: "PriorityVars \<Rightarrow> bool" where
  "within_limits v \<longleftrightarrow> pr_PathLen v \<le> 1024 \<and> pr_Headers v \<le> 9 \<and> pr_QueryParams v \<le> 9"

lemma priority_value_tier:
  assumes "priority_ok v" and "priority_ok w" and "within_limits v" and "within_limits w"
    and "tier_less v w"
  shows "priority_value v < priority_value w"
proof -
  have b: "0 \<le> pr_PathLen v" "0 \<le> pr_PathLen w" "0 \<le> pr_Headers v" "0 \<le> pr_Headers w"
    "0 \<le> pr_QueryParams v" "0 \<le> pr_QueryParams w" "pr_PathLen v \<le> 1024" "pr_PathLen w \<le> 1024"
    "pr_Headers v \<le> 9" "pr_Headers w \<le> 9" "pr_QueryParams v \<le> 9" "pr_QueryParams w \<le> 9"
    using assms(1-4) by (auto simp: priority_ok_def within_limits_def)
  have ts: "pr_TypeScore v < pr_TypeScore w \<Longrightarrow> pr_TypeScore v + 100000000 \<le> pr_TypeScore w"
    using assms(1,2) by (auto simp: priority_ok_def priority_consts)
  consider "pr_TypeScore v < pr_TypeScore w"
    | "pr_TypeScore v = pr_TypeScore w" "pr_PathLen v < pr_PathLen w"
    | "pr_TypeScore v = pr_TypeScore w" "pr_PathLen v = pr_PathLen w" "\<not> pr_HasMethod v" "pr_HasMethod w"
    | "pr_TypeScore v = pr_TypeScore w" "pr_PathLen v = pr_PathLen w" "pr_HasMethod v = pr_HasMethod w"
      "pr_Headers v < pr_Headers w"
    | "pr_TypeScore v = pr_TypeScore w" "pr_PathLen v = pr_PathLen w" "pr_HasMethod v = pr_HasMethod w"
      "pr_Headers v = pr_Headers w" "pr_QueryParams v < pr_QueryParams w"
    using assms(5) unfolding tier_less_def by blast
  then show ?thesis
    by cases (use b ts in \<open>auto simp: priority_value_def priority_consts\<close>)
qed

lemma tier_total: "tier_less v w \<or> tier_less w v \<or> priority_value v = priority_value w"
  by (cases "pr_HasMethod v"; cases "pr_HasMethod w") (auto simp: tier_less_def priority_value_def)

text \<open>For rules whose matches have paths of at most 1024 bytes and at most nine header and nine
  query conditions, comparing priorities is comparing tier by tier: path type, then path length,
  then the presence of a method, then the number of headers, then the number of query parameters.\<close>

theorem priority_is_tiered:
  assumes "within_limits (priority_vars a)" and "within_limits (priority_vars b)"
  shows "computePriority a < computePriority b \<longleftrightarrow> tier_less (priority_vars a) (priority_vars b)"
  using priority_value_tier [OF priority_vars_ok priority_vars_ok assms]
    priority_value_tier [OF priority_vars_ok priority_vars_ok assms(2,1)]
    tier_total [of "priority_vars a" "priority_vars b"]
  by (force simp: computePriority_def)

text \<open>A rule with one match.\<close>

definition single_match_rule :: "RouteMatch \<Rightarrow> RouteRule" where
  "single_match_rule m =
     \<lparr> rule_Hostnames = [''example.com''], rule_Matches = [m], rule_Filters = [], rule_Backends = [],
       rule_Timeouts = None, rule_UnavailableStatus = 0 \<rparr>"

definition prefix_match :: "string \<Rightarrow> string \<Rightarrow> HeaderMatch list \<Rightarrow> QueryParamMatch list \<Rightarrow> RouteMatch" where
  "prefix_match path method hs qs =
     \<lparr> rm_Path = Some \<lparr> pm_Type = PathMatchPathPrefix, pm_Value = path \<rparr>, rm_Headers = hs,
       rm_QueryParams = qs, rm_Method = method \<rparr>"

lemma priority_vars_single:
  "priority_vars (single_match_rule (prefix_match path method hs qs)) =
     \<lparr> pr_TypeScore = priorityPrefixPath, pr_PathLen = int (length path), pr_HasMethod = (method \<noteq> ''''),
       pr_Headers = int (length hs), pr_QueryParams = int (length qs) \<rparr>"
  by (auto simp: priority_vars_def single_match_rule_def prefix_match_def priority_step_def
      priority_path_step_def pathTypeScore_def priority_consts Let_def)

text \<open>C4: the tiers overlap above nine conditions. Of two rules with the same path prefix, one with a
  method and no header conditions and one with at least eleven header conditions and no method, the
  second has the higher priority, although the tier of the method is above the tier of the headers;
  likewise eleven query conditions outrank one header condition.\<close>

theorem priority_tiers_overlap:
  assumes "11 \<le> length hs" and "11 \<le> length qs" and "method \<noteq> ''''"
  shows "computePriority (single_match_rule (prefix_match path method [] []))
           < computePriority (single_match_rule (prefix_match path '''' hs []))
         \<and> computePriority (single_match_rule (prefix_match path '''' [h] []))
           < computePriority (single_match_rule (prefix_match path '''' [] qs))"
  using assms
  by (simp add: computePriority_def priority_vars_single priority_value_def priority_consts)

theorem priority_tiers_overlap_witness:
  "computePriority (single_match_rule (prefix_match ''/a'' ''GET'' [] []))
     < computePriority (single_match_rule (prefix_match ''/a'' '''' (replicate 11
         \<lparr> hm_Type = HeaderMatchExact, hm_Name = ''x'', hm_Value = ''1'' \<rparr>) []))"
  using priority_tiers_overlap [of
      "replicate 11 \<lparr> hm_Type = HeaderMatchExact, hm_Name = ''x'', hm_Value = ''1'' \<rparr>"
      "replicate 11 \<lparr> qm_Type = QueryParamMatchExact, qm_Name = ''q'', qm_Value = ''1'' \<rparr>"
      "''GET''" "''/a''"]
  by simp

section \<open>Weighted choice of a backend\<close>

definition weight_before :: "BackendRef list \<Rightarrow> nat \<Rightarrow> int" where
  "weight_before bs i = sum_list (map be_Weight (take i bs))"

lemma total_weight_sum: "total_weight bs = sum_list (map be_Weight bs)"
proof -
  have "foldl (\<lambda>t b. t + be_Weight b) a bs = a + sum_list (map be_Weight bs)" for a
    by (induction bs arbitrary: a) auto
  then show ?thesis by (simp add: total_weight_def)
qed

lemma pick_backend_iff:
  assumes "\<forall>b \<in> set bs. 0 \<le> be_Weight b" and "cum \<le> pick"
  shows "pick_backend pick idx cum bs = Some j \<longleftrightarrow>
    (\<exists>i < length bs. j = idx + int i \<and> cum + weight_before bs i \<le> pick
       \<and> pick < cum + weight_before bs (Suc i))"
  using assms
proof (induction bs arbitrary: idx cum)
  case Nil
  then show ?case by simp
next
  case (Cons b bs)
  have w: "weight_before (b # bs) (Suc i) = be_Weight b + weight_before bs i" for i
    by (simp add: weight_before_def)
  have w0: "weight_before (b # bs) 0 = 0" by (simp add: weight_before_def)
  have nonneg: "0 \<le> weight_before bs i" for i
    unfolding weight_before_def using Cons.prems(1) by (intro sum_list_nonneg) (auto dest: in_set_takeD)
  show ?case
  proof (cases "pick < cum + be_Weight b")
    case True
    have "weight_before bs 0 = 0" by (simp add: weight_before_def)
    then show ?thesis
      using True Cons.prems(2) nonneg by (auto simp: less_Suc_eq_0_disj w w0) (smt (verit) nonneg)
  next
    case False
    then have "pick_backend pick idx cum (b # bs) = Some j \<longleftrightarrow>
        (\<exists>i < length bs. j = idx + 1 + int i \<and> cum + be_Weight b + weight_before bs i \<le> pick
           \<and> pick < cum + be_Weight b + weight_before bs (Suc i))"
      using Cons.IH [of "cum + be_Weight b" "idx + 1"] Cons.prems(1) by simp
    also have "\<dots> \<longleftrightarrow> (\<exists>i < length (b # bs). j = idx + int i \<and> cum + weight_before (b # bs) i \<le> pick
           \<and> pick < cum + weight_before (b # bs) (Suc i))"
      using False by (auto simp: less_Suc_eq_0_disj w w0 weight_before_def [of bs 0] add.assoc)
    finally show ?thesis .
  qed
qed

lemma weight_before_mono:
  assumes "\<forall>b \<in> set bs. 0 \<le> be_Weight b" and "i \<le> k"
  shows "weight_before bs i \<le> weight_before bs k"
proof -
  obtain d where "k = i + d" using assms(2) le_Suc_ex by blast
  then have "weight_before bs k = weight_before bs i + sum_list (map be_Weight (take d (drop i bs)))"
    by (simp add: weight_before_def take_add)
  moreover have "0 \<le> sum_list (map be_Weight (take d (drop i bs)))"
    using assms(1) by (intro sum_list_nonneg) (auto dest!: in_set_takeD in_set_dropD)
  ultimately show ?thesis by simp
qed

lemma weight_before_Suc: "i < length bs \<Longrightarrow> weight_before bs (Suc i) = weight_before bs i + be_Weight (bs ! i)"
  by (simp add: weight_before_def take_Suc_conv_app_nth)

lemma selectBackend_interval:
  assumes "\<forall>b \<in> set bs. 0 \<le> be_Weight b" and "0 < total_weight bs" and "0 \<le> pick"
    and "pick < total_weight bs" and "i < length bs"
  shows "selectBackend (\<lambda>_. pick) bs = int i \<longleftrightarrow>
           weight_before bs i \<le> pick \<and> pick < weight_before bs (Suc i)"
proof -
  have iff: "pick_backend pick 0 0 bs = Some j \<longleftrightarrow>
      (\<exists>i < length bs. j = int i \<and> weight_before bs i \<le> pick \<and> pick < weight_before bs (Suc i))" for j
    using pick_backend_iff [OF assms(1), of 0 pick 0 j] assms(3) by simp
  have "weight_before bs 0 \<le> pick" "pick < weight_before bs (length bs)"
    using assms(3,4) by (simp_all add: weight_before_def total_weight_sum)
  then have "\<exists>k < length bs. weight_before bs k \<le> pick \<and> pick < weight_before bs (Suc k)"
    by (rule between_step)
  then obtain j where j: "pick_backend pick 0 0 bs = Some j" using iff by blast
  have "bs \<noteq> []" using assms(5) by auto
  then have "selectBackend (\<lambda>_. pick) bs = j" using assms(2) j by (simp add: selectBackend_def)
  then show ?thesis using j iff [of "int i"] assms(5) by auto
qed

text \<open>C3: traffic is split exactly by weight. Of the draws the random generator can make, the number
  that select a backend is that backend's weight.\<close>

theorem backend_share_is_weight:
  assumes "\<forall>b \<in> set bs. 0 \<le> be_Weight b" and "0 < total_weight bs" and "i < length bs"
  shows "card {pick. 0 \<le> pick \<and> pick < total_weight bs \<and> selectBackend (\<lambda>_. pick) bs = int i}
           = nat (be_Weight (bs ! i))"
proof -
  have lo: "0 \<le> weight_before bs i"
    using weight_before_mono [OF assms(1), of 0 i] by (simp add: weight_before_def)
  have "weight_before bs (Suc i) \<le> weight_before bs (length bs)"
    using weight_before_mono [OF assms(1), of "Suc i" "length bs"] assms(3) by simp
  then have hi: "weight_before bs (Suc i) \<le> total_weight bs"
    by (simp add: weight_before_def total_weight_sum)
  have "{pick. 0 \<le> pick \<and> pick < total_weight bs \<and> selectBackend (\<lambda>_. pick) bs = int i} =
      {weight_before bs i ..< weight_before bs (Suc i)}"
    using selectBackend_interval [OF assms(1,2) _ _ assms(3)] lo hi by auto
  then show ?thesis using weight_before_Suc [OF assms(3)] by simp
qed

definition sample_backend :: "string \<Rightarrow> int \<Rightarrow> BackendRef" where
  "sample_backend url w =
     \<lparr> be_URL = url, be_Weight = w, be_Protocol = BackendProtocolHTTP, be_TLS = None, be_Filters = [],
       be_WebSocket = False, be_UnavailableStatus = 0 \<rparr>"

theorem backend_share_is_weight_witness:
  "card {pick. 0 \<le> pick \<and> pick < total_weight [sample_backend ''http://a'' 3, sample_backend ''http://b'' 1]
      \<and> selectBackend (\<lambda>_. pick) [sample_backend ''http://a'' 3, sample_backend ''http://b'' 1] = int 0} = 3"
  using backend_share_is_weight [of "[sample_backend ''http://a'' 3, sample_backend ''http://b'' 1]" 0]
  by (simp add: sample_backend_def total_weight_def)

lemma selectBackend_cases:
  assumes "\<forall>b \<in> set bs. 0 \<le> be_Weight b" and "\<forall>n > 0. 0 \<le> rnd n \<and> rnd n < n"
  shows "if bs = [] \<or> total_weight bs = 0 then selectBackend rnd bs = -1
         else \<exists>i < length bs. selectBackend rnd bs = int i \<and> 0 < be_Weight (bs ! i)"
proof (cases "bs = [] \<or> total_weight bs = 0")
  case True
  then show ?thesis by (auto simp: selectBackend_def)
next
  case False
  have "0 \<le> total_weight bs"
    using assms(1) unfolding total_weight_sum by (intro sum_list_nonneg) auto
  with False have t: "0 < total_weight bs" by simp
  define pick where "pick = rnd (total_weight bs)"
  have p: "0 \<le> pick" "pick < total_weight bs" using assms(2) t by (auto simp: pick_def)
  have "weight_before bs 0 \<le> pick" "pick < weight_before bs (length bs)"
    using p by (simp_all add: weight_before_def total_weight_sum)
  then obtain i where i: "i < length bs" "weight_before bs i \<le> pick" "pick < weight_before bs (Suc i)"
    using between_step [of "weight_before bs" pick "length bs"] by blast
  with selectBackend_interval [OF assms(1) t p i(1)] have "selectBackend (\<lambda>_. pick) bs = int i" by simp
  then have "selectBackend rnd bs = int i" by (simp add: selectBackend_def pick_def)
  moreover have "0 < be_Weight (bs ! i)" using i weight_before_Suc [OF i(1)] by simp
  ultimately show ?thesis using i(1) False by auto
qed

text \<open>With a draw in its documented range, no backend is selected exactly when there is none or
  the weights add up to zero; otherwise the index is one of the list, and never that of a backend
  with weight zero.\<close>

theorem selected_backend_has_weight:
  assumes "\<forall>b \<in> set bs. 0 \<le> be_Weight b" and "\<forall>n > 0. 0 \<le> rnd n \<and> rnd n < n"
  shows "if bs = [] \<or> total_weight bs = 0 then selectBackend rnd bs = -1
         else \<exists>i < length bs. selectBackend rnd bs = int i \<and> 0 < be_Weight (bs ! i)"
  using assms by (rule selectBackend_cases)

end
