(* ===== verification/Shadow.thy ===== *)
theory Shadow
  imports RouterSpec
begin

text \<open>
  Cross-route shadow detection (\<^verbatim>\<open>src/internal/proxy/shadow.go\<close>): which (hostname, match) pairs of a
  configuration are claimed by rules of two routes, and which of the claims loses. \<^verbatim>\<open>json.Marshal\<close> of a
  normalised match is the parameter \<open>marshal\<close>; the message of a diagnostic is not modelled, the
  criterion it names is.
\<close>

section \<open>Definitions\<close>

definition sameRoute :: "RuleProvenance \<Rightarrow> RuleProvenance \<Rightarrow> bool" where
  "sameRoute p q \<longleftrightarrow>
     pv_Kind p = pv_Kind q \<and> pv_Namespace p = pv_Namespace q \<and> pv_Name p = pv_Name q"

text \<open>The identity of one servable pair: hostname and match key.\<close>

type_synonym shadowKey = "string \<times> string"

record shadowClaimant =
  sc_provenance :: RuleProvenance
  sc_priority :: int
  sc_flatIdx :: nat

definition beats :: "shadowClaimant \<Rightarrow> shadowClaimant \<Rightarrow> bool" where
  "beats c d =
     (if sc_priority c \<noteq> sc_priority d then sc_priority c > sc_priority d
      else sc_flatIdx c < sc_flatIdx d)"

definition HeaderMatchType_string :: "HeaderMatchType \<Rightarrow> string" where
  "HeaderMatchType_string t =
     (case t of HeaderMatchExact \<Rightarrow> ''Exact'' | HeaderMatchRegularExpression \<Rightarrow> ''RegularExpression''
              | HeaderMatchOther s \<Rightarrow> s)"

definition QueryParamMatchType_string :: "QueryParamMatchType \<Rightarrow> string" where
  "QueryParamMatchType_string t =
     (case t of QueryParamMatchExact \<Rightarrow> ''Exact'' | QueryParamMatchRegularExpression \<Rightarrow> ''RegularExpression''
              | QueryParamMatchOther s \<Rightarrow> s)"

definition header_sort_key :: "HeaderMatch \<Rightarrow> string" where
  "header_sort_key h = hm_Name h @ [CHR 0x00] @ HeaderMatchType_string (hm_Type h) @ [CHR 0x00] @ hm_Value h"

definition query_sort_key :: "QueryParamMatch \<Rightarrow> string" where
  "query_sort_key q = qm_Name q @ [CHR 0x00] @ QueryParamMatchType_string (qm_Type q) @ [CHR 0x00] @ qm_Value q"

definition lower_header :: "HeaderMatch \<Rightarrow> HeaderMatch" where
  "lower_header h = h \<lparr> hm_Name := to_lower (hm_Name h) \<rparr>"

definition normalizeHeaderMatches :: "HeaderMatch list \<Rightarrow> HeaderMatch list" where
  "normalizeHeaderMatches headers = sort_stable (less_on header_sort_key) (map lower_header headers)"

definition normalizeQueryMatches :: "QueryParamMatch list \<Rightarrow> QueryParamMatch list" where
  "normalizeQueryMatches params = sort_stable (less_on query_sort_key) params"

definition normalize_match :: "RouteMatch \<Rightarrow> RouteMatch" where
  "normalize_match m =
     m \<lparr> rm_Headers := normalizeHeaderMatches (rm_Headers m),
         rm_QueryParams := normalizeQueryMatches (rm_QueryParams m) \<rparr>"

definition canonicalMatchKey :: "(RouteMatch \<Rightarrow> string) \<Rightarrow> RouteMatch \<Rightarrow> string" where
  "canonicalMatchKey marshal m = marshal (normalize_match m)"

definition ruleShadowKeys :: "(RouteMatch \<Rightarrow> string) \<Rightarrow> RouteRule \<Rightarrow> shadowKey list" where
  "ruleShadowKeys marshal rule =
     (let hostnames = (if rule_Hostnames rule = [] then [''''] else rule_Hostnames rule);
          matchKeys = (if rule_Matches rule = [] then [''catch-all''] else [])
                      @ map (canonicalMatchKey marshal) (rule_Matches rule)
      in concat (map (\<lambda>h. map (\<lambda>mk. (to_lower h, mk)) matchKeys) hostnames))"

definition rule_claimant :: "Config \<Rightarrow> nat \<Rightarrow> shadowClaimant" where
  "rule_claimant cfg i =
     \<lparr> sc_provenance = cfg_Provenance cfg ! i, sc_priority = computePriority (cfg_Rules cfg ! i),
       sc_flatIdx = i \<rparr>"

text \<open>Pass 1: every claim in order, and the running winner of each key.\<close>

definition shadow_claims :: "(RouteMatch \<Rightarrow> string) \<Rightarrow> Config \<Rightarrow> (shadowKey \<times> shadowClaimant) list" where
  "shadow_claims marshal cfg =
     concat (map (\<lambda>i. map (\<lambda>k. (k, rule_claimant cfg i)) (ruleShadowKeys marshal (cfg_Rules cfg ! i)))
              [0 ..< length (cfg_Rules cfg)])"

type_synonym shadow_winners = "shadowKey \<Rightarrow> shadowClaimant option"

definition claim_step :: "shadow_winners \<Rightarrow> shadowKey \<times> shadowClaimant \<Rightarrow> shadow_winners" where
  "claim_step winners claim =
     (case claim of (key, claimant) \<Rightarrow>
       (case winners key of
          None \<Rightarrow> winners (key \<mapsto> claimant)
        | Some incumbent \<Rightarrow> if beats claimant incumbent then winners (key \<mapsto> claimant) else winners))"

definition shadow_diagnostic :: "shadowClaimant \<Rightarrow> RouteDiagnostic" where
  "shadow_diagnostic c =
     \<lparr> dg_Namespace = pv_Namespace (sc_provenance c), dg_Name = pv_Name (sc_provenance c),
       dg_RuleIndex = pv_RuleIndex (sc_provenance c), dg_Target = DiagnosticShadowed,
       dg_Reason = ''HostnameMatchShadowed'', dg_WholeRule = False, dg_EventType = '''' \<rparr>"

text \<open>Pass 2: the losing claims, each (rule, key) pair once. \<open>emitted\<close> is the set of pairs done.\<close>

fun losing_claims ::
    "shadow_winners \<Rightarrow> (nat \<times> shadowKey) list \<Rightarrow> (shadowKey \<times> shadowClaimant) list
     \<Rightarrow> (shadowKey \<times> shadowClaimant) list" where
  "losing_claims winners emitted [] = []"
| "losing_claims winners emitted ((key, c) # claims) =
     (case winners key of
        None \<Rightarrow> losing_claims winners emitted claims
      | Some w \<Rightarrow>
          (if sc_flatIdx w = sc_flatIdx c then losing_claims winners emitted claims
           else if sameRoute (sc_provenance w) (sc_provenance c) then losing_claims winners emitted claims
           else if (sc_flatIdx c, key) \<in> set emitted then losing_claims winners emitted claims
           else (key, c) # losing_claims winners ((sc_flatIdx c, key) # emitted) claims))"

definition shadowDiagnostics ::
    "(shadowKey \<times> shadowClaimant) list \<Rightarrow> shadow_winners \<Rightarrow> RouteDiagnostic list" where
  "shadowDiagnostics claims winners = map (shadow_diagnostic \<circ> snd) (losing_claims winners [] claims)"

definition DetectShadowedRules :: "(RouteMatch \<Rightarrow> string) \<Rightarrow> Config \<Rightarrow> RouteDiagnostic list" where
  "DetectShadowedRules marshal cfg =
     (if length (cfg_Provenance cfg) \<noteq> length (cfg_Rules cfg) then []
      else let claims = shadow_claims marshal cfg
           in shadowDiagnostics claims (foldl claim_step Map.empty claims))"

text \<open>The criterion the message of a diagnostic names.\<close>

datatype ShadowBasis =
  MatchSpecificity | KindOrder | OlderTimestamp | AlphabeticalOrder | ConfigOrder

definition shadowBasis :: "shadowClaimant \<Rightarrow> shadowClaimant \<Rightarrow> ShadowBasis" where
  "shadowBasis winner loser =
     (let w = sc_provenance winner; l = sc_provenance loser in
      if sc_priority winner \<noteq> sc_priority loser then MatchSpecificity
      else if pv_Kind w = ''HTTPRoute'' \<and> pv_Kind l = ''GRPCRoute'' then KindOrder
      else if pv_CreationTimestamp w < pv_CreationTimestamp l then OlderTimestamp
      else if pv_CreationTimestamp w = pv_CreationTimestamp l
              \<and> (pv_Namespace w < pv_Namespace l
                 \<or> (pv_Namespace w = pv_Namespace l \<and> pv_Name w < pv_Name l)) then AlphabeticalOrder
      else ConfigOrder)"


section \<open>Specification\<close>

text \<open>A pair a rule claims: one of its hostnames (None: it has none) and one of its matches (None: it
  has none), and the requests the pair covers, with the specificity of the hostname.\<close>

definition claims_pair :: "RouteRule \<Rightarrow> string option \<Rightarrow> RouteMatch option \<Rightarrow> bool" where
  "claims_pair rule h m \<longleftrightarrow>
     (case h of None \<Rightarrow> rule_Hostnames rule = [] | Some p \<Rightarrow> p \<in> set (rule_Hostnames rule))
     \<and> (case m of None \<Rightarrow> rule_Matches rule = [] | Some x \<Rightarrow> x \<in> set (rule_Matches rule))"

definition pair_covers :: "re_engine \<Rightarrow> string option \<Rightarrow> RouteMatch option \<Rightarrow> Request \<Rightarrow> nat \<Rightarrow> bool" where
  "pair_covers re_compile h m req k \<longleftrightarrow>
     (case h of None \<Rightarrow> k = 0 | Some p \<Rightarrow> host_rank (extractHost req) p = Some k)
     \<and> (case m of None \<Rightarrow> True | Some x \<Rightarrow> match_spec re_compile x req)"

definition pair_key :: "(RouteMatch \<Rightarrow> string) \<Rightarrow> string option \<Rightarrow> RouteMatch option \<Rightarrow> shadowKey" where
  "pair_key marshal h m =
     ((case h of None \<Rightarrow> '''' | Some p \<Rightarrow> to_lower p),
      (case m of None \<Rightarrow> ''catch-all'' | Some x \<Rightarrow> canonicalMatchKey marshal x))"

text \<open>What the identity of a pair rests on: the encoding is a JSON object and tells normalised matches
  apart, header names are tokens and hostnames are not empty.\<close>

definition config_matches :: "Config \<Rightarrow> RouteMatch set" where
  "config_matches cfg = (\<Union>r \<in> set (cfg_Rules cfg). set (rule_Matches r))"

definition marshal_ok :: "(RouteMatch \<Rightarrow> string) \<Rightarrow> Config \<Rightarrow> bool" where
  "marshal_ok marshal cfg \<longleftrightarrow>
     inj_on marshal (normalize_match ` config_matches cfg) \<and> (\<forall>m. has_prefix (marshal m) ''{'')"

definition keyable_config :: "Config \<Rightarrow> bool" where
  "keyable_config cfg \<longleftrightarrow>
     (\<forall>m \<in> config_matches cfg. \<forall>h \<in> set (rm_Headers m). list_all is_token_char (hm_Name h))
     \<and> (\<forall>r \<in> set (cfg_Rules cfg). '''' \<notin> set (rule_Hostnames r))"

section \<open>Lemmas\<close>

interpretation beats: strict_weak_order beats
  by unfold_locales (auto simp: beats_def split: if_splits)

lemma ruleShadowKeys_iff:
  "key \<in> set (ruleShadowKeys marshal rule) \<longleftrightarrow>
     (\<exists>h m. claims_pair rule h m \<and> key = pair_key marshal h m)"
proof -
  have "(\<exists>h m. claims_pair rule h m \<and> key = pair_key marshal h m) \<longleftrightarrow>
      (\<exists>h. (case h of None \<Rightarrow> rule_Hostnames rule = [] | Some p \<Rightarrow> p \<in> set (rule_Hostnames rule))
         \<and> fst key = (case h of None \<Rightarrow> '''' | Some p \<Rightarrow> to_lower p))
      \<and> (\<exists>m. (case m of None \<Rightarrow> rule_Matches rule = [] | Some x \<Rightarrow> x \<in> set (rule_Matches rule))
         \<and> snd key = (case m of None \<Rightarrow> ''catch-all'' | Some x \<Rightarrow> canonicalMatchKey marshal x))"
    unfolding claims_pair_def pair_key_def by (cases key) auto
  also have "(\<exists>h. (case h of None \<Rightarrow> rule_Hostnames rule = [] | Some p \<Rightarrow> p \<in> set (rule_Hostnames rule))
         \<and> fst key = (case h of None \<Rightarrow> '''' | Some p \<Rightarrow> to_lower p)) \<longleftrightarrow>
      fst key \<in> to_lower ` set (if rule_Hostnames rule = [] then [''''] else rule_Hostnames rule)"
    by (auto simp: to_lower_def split: option.splits intro: exI [of _ None] exI [of _ "Some _"])
  also have "(\<exists>m. (case m of None \<Rightarrow> rule_Matches rule = [] | Some x \<Rightarrow> x \<in> set (rule_Matches rule))
         \<and> snd key = (case m of None \<Rightarrow> ''catch-all'' | Some x \<Rightarrow> canonicalMatchKey marshal x)) \<longleftrightarrow>
      snd key \<in> set ((if rule_Matches rule = [] then [''catch-all''] else [])
                      @ map (canonicalMatchKey marshal) (rule_Matches rule))"
    by (auto split: option.splits intro: exI [of _ None] exI [of _ "Some _"])
  finally show ?thesis
    unfolding ruleShadowKeys_def Let_def by (cases key) auto
qed

lemma shadow_claims_iff:
  "(key, c) \<in> set (shadow_claims marshal cfg) \<longleftrightarrow>
     (\<exists>i < length (cfg_Rules cfg). c = rule_claimant cfg i
        \<and> key \<in> set (ruleShadowKeys marshal (cfg_Rules cfg ! i)))"
  unfolding shadow_claims_def by auto

lemma claim_step_apply:
  "claim_step W (k, d) key =
     (if key = k then (case W k of None \<Rightarrow> Some d | Some w \<Rightarrow> Some (if beats d w then d else w)) else W key)"
  by (auto simp: claim_step_def split: option.splits)

text \<open>The fold keeps, for every key, a claim of the key that no claim of the key beats.\<close>

lemma winners_fold:
  "(foldl claim_step Map.empty claims key = None \<longleftrightarrow> key \<notin> fst ` set claims)
   \<and> (\<forall>w. foldl claim_step Map.empty claims key = Some w \<longrightarrow>
        (key, w) \<in> set claims \<and> (\<forall>c. (key, c) \<in> set claims \<longrightarrow> \<not> beats c w))"
proof (induction claims rule: rev_induct)
  case Nil
  then show ?case by simp
next
  case (snoc x xs)
  obtain k d where x: "x = (k, d)" by (cases x)
  let ?W = "foldl claim_step Map.empty xs"
  show ?case
  proof (cases "k = key")
    case False
    with snoc x show ?thesis by (auto simp: claim_step_apply)
  next
    case True
    show ?thesis
    proof (cases "?W key")
      case None
      with snoc have "key \<notin> fst ` set xs" by blast
      then have "(key, c) \<notin> set xs" for c by (metis fst_conv image_eqI)
      with None x True show ?thesis by (simp add: claim_step_apply beats.less_irrefl)
    next
      case (Some w)
      with snoc have w: "(key, w) \<in> set xs" "\<And>c. (key, c) \<in> set xs \<Longrightarrow> \<not> beats c w" by blast+
      show ?thesis
      proof (cases "beats d w")
        case True
        with w have "\<not> beats c d" if "(key, c) \<in> set xs" for c
          using that beats.less_trans by blast
        with True Some x \<open>k = key\<close> show ?thesis
          by (auto simp: claim_step_apply beats.less_irrefl)
      next
        case False
        with w Some x \<open>k = key\<close> show ?thesis by (auto simp: claim_step_apply)
      qed
    qed
  qed
qed


definition loses :: "shadow_winners \<Rightarrow> shadowKey \<Rightarrow> shadowClaimant \<Rightarrow> bool" where
  "loses winners key c \<longleftrightarrow>
     (\<exists>w. winners key = Some w \<and> sc_flatIdx w \<noteq> sc_flatIdx c
        \<and> \<not> sameRoute (sc_provenance w) (sc_provenance c))"

lemma losing_claims_Cons:
  "losing_claims W em ((key, c) # claims) =
     (if loses W key c \<and> (sc_flatIdx c, key) \<notin> set em
      then (key, c) # losing_claims W ((sc_flatIdx c, key) # em) claims
      else losing_claims W em claims)"
  by (auto simp: loses_def split: option.split)

lemma set_losing_claims:
  assumes "\<And>k c. (k, c) \<in> set claims \<Longrightarrow> c = f (sc_flatIdx c)"
  shows "(key, c) \<in> set (losing_claims W em claims) \<longleftrightarrow>
           (key, c) \<in> set claims \<and> loses W key c \<and> (sc_flatIdx c, key) \<notin> set em"
  using assms
proof (induction claims arbitrary: em)
  case Nil
  then show ?case by simp
next
  case (Cons x xs)
  obtain k d where x: "x = (k, d)" by (cases x)
  have IH: "(key, c) \<in> set (losing_claims W em xs) \<longleftrightarrow>
      (key, c) \<in> set xs \<and> loses W key c \<and> (sc_flatIdx c, key) \<notin> set em" for em
    using Cons.IH [of em] Cons.prems by (meson list.set_intros(2))
  have same: "d = c" if "(key, c) \<in> set (x # xs)" "sc_flatIdx c = sc_flatIdx d"
    using Cons.prems [of key c] Cons.prems [of k d] that x by (metis list.set_intros(1))
  show ?case
    unfolding x losing_claims_Cons using same x by (auto simp: IH)
qed

lemma distinct_losing_claims:
  "distinct (map (\<lambda>(k, c). (sc_flatIdx c, k)) (losing_claims W em claims))
   \<and> (\<forall>(k, c) \<in> set (losing_claims W em claims). (sc_flatIdx c, k) \<notin> set em)"
proof (induction claims arbitrary: em)
  case Nil
  then show ?case by simp
next
  case (Cons x xs)
  obtain k d where x: "x = (k, d)" by (cases x)
  have "(sc_flatIdx d, k) \<notin> (\<lambda>(k, c). (sc_flatIdx c, k)) ` set (losing_claims W ((sc_flatIdx d, k) # em) xs)"
    using Cons.IH [of "(sc_flatIdx d, k) # em"] by fastforce
  with Cons.IH [of "(sc_flatIdx d, k) # em"] Cons.IH [of em] show ?case
    unfolding x losing_claims_Cons by auto
qed

lemma shadow_claims_claimant:
  "(k, c) \<in> set (shadow_claims marshal cfg) \<Longrightarrow> c = rule_claimant cfg (sc_flatIdx c)"
  by (auto simp: shadow_claims_iff rule_claimant_def)

subsection \<open>Equal keys, equal requests\<close>

lemma lower_header_fields [simp]:
  "hm_Name (lower_header h) = to_lower (hm_Name h)" "hm_Type (lower_header h) = hm_Type h"
  "hm_Value (lower_header h) = hm_Value h"
  by (simp_all add: lower_header_def)

lemma header_spec_lower:
  "list_all is_token_char (hm_Name h) \<Longrightarrow> header_spec re (lower_header h) r = header_spec re h r"
  unfolding header_spec_def header_Values_def lower_header_fields by (simp add: canonical_key_to_lower)

lemma match_spec_normalize:
  assumes "\<forall>h \<in> set (rm_Headers m). list_all is_token_char (hm_Name h)"
  shows "match_spec re (normalize_match m) r = match_spec re m r"
  using assms header_spec_lower [of _ re r]
  by (simp add: match_spec_def normalize_match_def normalizeHeaderMatches_def normalizeQueryMatches_def)

lemma canonicalMatchKey_eq:
  assumes "marshal_ok marshal cfg" and "keyable_config cfg"
    and "m \<in> config_matches cfg" and "m' \<in> config_matches cfg"
    and "canonicalMatchKey marshal m = canonicalMatchKey marshal m'"
  shows "match_spec re m r = match_spec re m' r"
proof -
  have "normalize_match m = normalize_match m'"
    using assms by (auto simp: marshal_ok_def canonicalMatchKey_def dest: inj_onD)
  moreover have "match_spec re (normalize_match x) r = match_spec re x r" if "x \<in> config_matches cfg" for x
    by (rule match_spec_normalize) (use assms(2) that in \<open>simp add: keyable_config_def\<close>)
  ultimately show ?thesis using assms(3,4) by metis
qed

lemma canonicalMatchKey_not_catch_all:
  "marshal_ok marshal cfg \<Longrightarrow> canonicalMatchKey marshal m \<noteq> ''catch-all''"
proof
  assume "marshal_ok marshal cfg" and eq: "canonicalMatchKey marshal m = ''catch-all''"
  then have "has_prefix ''catch-all'' ''{''" unfolding marshal_ok_def canonicalMatchKey_def by metis
  then show False by simp
qed

lemma host_rank_lower: "to_lower p = to_lower q \<Longrightarrow> host_rank host p = host_rank host q"
  by (simp add: host_rank_def)

lemma to_lower_Nil_iff: "to_lower s = '''' \<longleftrightarrow> s = ''''"
  by (simp add: to_lower_def)

text \<open>The two halves of a key, told apart by the hypotheses.\<close>

lemma host_key_covers:
  assumes "(case h of None \<Rightarrow> '''' | Some p \<Rightarrow> to_lower p) = (case h' of None \<Rightarrow> '''' | Some p \<Rightarrow> to_lower p)"
    and "h \<noteq> Some ''''" and "h' \<noteq> Some ''''"
  shows "(case h of None \<Rightarrow> k = 0 | Some p \<Rightarrow> host_rank host p = Some k) \<longleftrightarrow>
         (case h' of None \<Rightarrow> k = (0::nat) | Some p \<Rightarrow> host_rank host p = Some k)"
proof (cases h)
  case None
  with assms have "h' = None" by (cases h') (auto simp: to_lower_Nil_iff dest: sym)
  with None show ?thesis by simp
next
  case (Some p)
  with assms obtain q where "h' = Some q" by (cases h') (auto simp: to_lower_Nil_iff)
  moreover from this Some assms(1) have "host_rank host p = host_rank host q"
    by (intro host_rank_lower) simp
  ultimately show ?thesis using Some by simp
qed

lemma match_key_cases:
  assumes "marshal_ok marshal cfg"
    and "(case m of None \<Rightarrow> ''catch-all'' | Some x \<Rightarrow> canonicalMatchKey marshal x) =
         (case m' of None \<Rightarrow> ''catch-all'' | Some x \<Rightarrow> canonicalMatchKey marshal x)"
  obtains "m = None" "m' = None"
  | x x' where "m = Some x" "m' = Some x'" "canonicalMatchKey marshal x = canonicalMatchKey marshal x'"
proof (cases m)
  case None
  show thesis
  proof (cases m')
    case (Some x)
    with None assms(2) have "canonicalMatchKey marshal x = ''catch-all''" by (simp only: option.case)
    with canonicalMatchKey_not_catch_all [OF assms(1)] show ?thesis by blast
  qed (use None that(1) in blast)
next
  case (Some x)
  show thesis
  proof (cases m')
    case None
    with Some assms(2) have "canonicalMatchKey marshal x = ''catch-all''" by (simp only: option.case)
    with canonicalMatchKey_not_catch_all [OF assms(1)] show ?thesis by blast
  next
    case (Some x')
    with \<open>m = Some x\<close> assms(2) that(2) show ?thesis by (simp only: option.case)
  qed
qed

lemma claims_pair_host:
  "keyable_config cfg \<Longrightarrow> r \<in> set (cfg_Rules cfg) \<Longrightarrow> claims_pair r h m \<Longrightarrow> h \<noteq> Some ''''"
  by (auto simp: keyable_config_def claims_pair_def)

lemma claims_pair_match:
  "r \<in> set (cfg_Rules cfg) \<Longrightarrow> claims_pair r h (Some x) \<Longrightarrow> x \<in> config_matches cfg"
  by (auto simp: claims_pair_def config_matches_def)

lemma pair_covers_same_key:
  assumes ok: "marshal_ok marshal cfg" "keyable_config cfg"
    and r: "r \<in> set (cfg_Rules cfg)" "r' \<in> set (cfg_Rules cfg)"
    and p: "claims_pair r h m" "claims_pair r' h' m'"
    and key: "pair_key marshal h m = pair_key marshal h' m'"
  shows "pair_covers re h m req k = pair_covers re h' m' req k"
proof -
  have host: "(case h of None \<Rightarrow> k = 0 | Some p \<Rightarrow> host_rank (extractHost req) p = Some k) \<longleftrightarrow>
      (case h' of None \<Rightarrow> k = 0 | Some p \<Rightarrow> host_rank (extractHost req) p = Some k)"
  proof (rule host_key_covers [OF conjunct1 [OF key [unfolded pair_key_def prod.inject]]])
    show "h \<noteq> Some ''''" by (rule claims_pair_host [OF ok(2) r(1) p(1)])
    show "h' \<noteq> Some ''''" by (rule claims_pair_host [OF ok(2) r(2) p(2)])
  qed
  have "(case m of None \<Rightarrow> True | Some x \<Rightarrow> match_spec re x req) \<longleftrightarrow>
      (case m' of None \<Rightarrow> True | Some x \<Rightarrow> match_spec re x req)"
  proof (cases rule: match_key_cases [OF ok(1) conjunct2 [OF key [unfolded pair_key_def prod.inject]]])
    case (2 x x')
    have "x \<in> config_matches cfg" "x' \<in> config_matches cfg"
      using claims_pair_match [OF r(1)] claims_pair_match [OF r(2)] p 2 by blast+
    then have "match_spec re x req = match_spec re x' req" using 2(3) by (rule canonicalMatchKey_eq [OF ok])
    with 2 show ?thesis by (simp only: option.case)
  qed (simp only: option.case)
  with host show ?thesis by (simp only: pair_covers_def)
qed

lemma pair_covers_serves:
  assumes "i < length (cfg_Rules cfg)" and "claims_pair (cfg_Rules cfg ! i) h m"
    and "pair_covers re h m req k"
  shows "serves re cfg req i k"
  using assms
  by (auto simp: serves_def claims_pair_def pair_covers_def rule_ranks_def rule_accepts_def
      split: option.splits)


subsection \<open>Reported claims\<close>

lemma DetectShadowedRules_eq:
  assumes "length (cfg_Provenance cfg) = length (cfg_Rules cfg)"
  shows "DetectShadowedRules marshal cfg =
           map (shadow_diagnostic \<circ> snd)
             (losing_claims (foldl claim_step Map.empty (shadow_claims marshal cfg)) []
                (shadow_claims marshal cfg))"
  using assms by (simp add: DetectShadowedRules_def shadowDiagnostics_def Let_def)

lemma not_beats_at_least_as_good:
  assumes "\<not> beats (rule_claimant cfg j) (rule_claimant cfg i)" and "i \<noteq> j"
  shows "\<not> at_least_as_good cfg (j, k) (i, k)"
  using assms by (auto simp: beats_def rule_claimant_def at_least_as_good_def split: if_splits)

lemma losing_claim_shape:
  assumes "(key, c) \<in> set (losing_claims (foldl claim_step Map.empty (shadow_claims marshal cfg)) []
                (shadow_claims marshal cfg))"
  obtains i j where "i < length (cfg_Rules cfg)" "j < length (cfg_Rules cfg)" "i \<noteq> j"
    "c = rule_claimant cfg j" "\<not> beats (rule_claimant cfg j) (rule_claimant cfg i)"
    "\<not> sameRoute (cfg_Provenance cfg ! i) (cfg_Provenance cfg ! j)"
    "key \<in> set (ruleShadowKeys marshal (cfg_Rules cfg ! i))"
    "key \<in> set (ruleShadowKeys marshal (cfg_Rules cfg ! j))"
proof -
  let ?cs = "shadow_claims marshal cfg" and ?W = "foldl claim_step Map.empty (shadow_claims marshal cfg)"
  have c: "(key, c) \<in> set ?cs" and l: "loses ?W key c"
    using assms set_losing_claims [of ?cs "rule_claimant cfg" key c ?W "[]"] shadow_claims_claimant
    by blast+
  from l obtain w where w: "?W key = Some w" "sc_flatIdx w \<noteq> sc_flatIdx c"
    "\<not> sameRoute (sc_provenance w) (sc_provenance c)" unfolding loses_def by blast
  have "(key, w) \<in> set ?cs" "\<not> beats c w" using winners_fold [of ?cs key] w(1) c by blast+
  with c w that show thesis by (auto simp: shadow_claims_iff rule_claimant_def)
qed

section \<open>Properties\<close>

text \<open>C8: every reported shadowing is real. A diagnostic names a rule of the configuration and, for one
  of the rule's (hostname, match) pairs, a rule of another route serves every request the pair covers,
  at the same hostname specificity, and the router ranks that rule strictly above the named one.\<close>

theorem shadow_report_sound:
  assumes "marshal_ok marshal cfg" and "keyable_config cfg"
    and "d \<in> set (DetectShadowedRules marshal cfg)"
  shows "\<exists>i j h m. i < length (cfg_Rules cfg) \<and> j < length (cfg_Rules cfg)
           \<and> dg_Namespace d = pv_Namespace (cfg_Provenance cfg ! j)
           \<and> dg_Name d = pv_Name (cfg_Provenance cfg ! j)
           \<and> dg_RuleIndex d = pv_RuleIndex (cfg_Provenance cfg ! j)
           \<and> \<not> sameRoute (cfg_Provenance cfg ! i) (cfg_Provenance cfg ! j)
           \<and> claims_pair (cfg_Rules cfg ! j) h m
           \<and> (\<forall>req k. pair_covers re_compile h m req k \<longrightarrow>
                 serves re_compile cfg req i k \<and> \<not> at_least_as_good cfg (j, k) (i, k))"
proof -
  let ?L = "losing_claims (foldl claim_step Map.empty (shadow_claims marshal cfg)) []
              (shadow_claims marshal cfg)"
  have "length (cfg_Provenance cfg) = length (cfg_Rules cfg)"
    using assms(3) by (auto simp: DetectShadowedRules_def split: if_splits)
  from DetectShadowedRules_eq [OF this] assms(3) obtain key c
    where kc: "(key, c) \<in> set ?L" and d: "d = shadow_diagnostic c" by auto
  from kc obtain i j where ij: "i < length (cfg_Rules cfg)" "j < length (cfg_Rules cfg)" "i \<noteq> j"
    "c = rule_claimant cfg j" "\<not> beats (rule_claimant cfg j) (rule_claimant cfg i)"
    "\<not> sameRoute (cfg_Provenance cfg ! i) (cfg_Provenance cfg ! j)"
    and keys: "key \<in> set (ruleShadowKeys marshal (cfg_Rules cfg ! i))"
    "key \<in> set (ruleShadowKeys marshal (cfg_Rules cfg ! j))" by (rule losing_claim_shape)
  from keys obtain hi mi hj mj where p: "claims_pair (cfg_Rules cfg ! i) hi mi"
    "claims_pair (cfg_Rules cfg ! j) hj mj" "pair_key marshal hj mj = pair_key marshal hi mi"
    unfolding ruleShadowKeys_iff by metis
  have "serves re_compile cfg req i k" if "pair_covers re_compile hj mj req k" for req k
    using that pair_covers_serves [OF ij(1) p(1)]
      pair_covers_same_key [OF assms(1,2) nth_mem [OF ij(2)] nth_mem [OF ij(1)] p(2,1,3)] by blast
  moreover have "\<not> at_least_as_good cfg (j, k) (i, k)" for k
    by (rule not_beats_at_least_as_good) (use ij in auto)
  ultimately show ?thesis
    using ij p(2) d by (intro exI [of _ i] exI [of _ j] exI [of _ hj] exI [of _ mj])
      (simp add: shadow_diagnostic_def rule_claimant_def)
qed


definition sample_provenance :: "string \<Rightarrow> RuleProvenance" where
  "sample_provenance name =
     \<lparr> pv_Kind = ''HTTPRoute'', pv_Namespace = ''ns'', pv_Name = name, pv_CreationTimestamp = 0,
       pv_RuleIndex = 0 \<rparr>"

text \<open>Two routes claim the host, written in different case, with no match; the first rule serves.\<close>

definition sample_collision :: Config where
  "sample_collision =
     \<lparr> cfg_Version = 1,
       cfg_Rules = [sample_rule [''a.example''] [], sample_rule [''A.example''] []],
       cfg_HasGRPCRoute = False, cfg_Diagnostics = [],
       cfg_Provenance = [sample_provenance ''older'', sample_provenance ''newer''] \<rparr>"

lemma sample_collision_ok:
  "marshal_ok (\<lambda>_. ''{}'') sample_collision" "keyable_config sample_collision"
  by (auto simp: marshal_ok_def keyable_config_def config_matches_def sample_collision_def sample_rule_def)

lemma sample_collision_rules:
  "cfg_Rules sample_collision = [sample_rule [''a.example''] [], sample_rule [''A.example''] []]"
  "cfg_Provenance sample_collision = [sample_provenance ''older'', sample_provenance ''newer'']"
  by (simp_all add: sample_collision_def)

lemma sample_lower: "to_lower ''A.example'' = ''a.example''" "to_lower ''a.example'' = ''a.example''"
  by code_simp+

lemma sample_collision_keys:
  "ruleShadowKeys marshal (sample_rule [''a.example''] []) = [(''a.example'', ''catch-all'')]"
  "ruleShadowKeys marshal (sample_rule [''A.example''] []) = [(''a.example'', ''catch-all'')]"
  by (simp_all add: ruleShadowKeys_def sample_rule_def sample_lower)

lemma sample_collision_detected:
  "DetectShadowedRules (\<lambda>_. ''{}'') sample_collision =
     [shadow_diagnostic (rule_claimant sample_collision 1)]"
proof -
  have "computePriority (sample_rule h []) = computePriority (sample_rule [] [])" for h
    by (simp add: computePriority_def priority_vars_def sample_rule_def)
  then have p: "computePriority (sample_rule [''A.example''] []) = computePriority (sample_rule [''a.example''] [])"
    by metis
  show ?thesis
    unfolding DetectShadowedRules_def Let_def shadowDiagnostics_def shadow_claims_def
    by (simp add: sample_collision_rules sample_collision_keys rule_claimant_def beats_def p
        claim_step_apply sameRoute_def sample_provenance_def upt_rec)
qed

theorem shadow_report_sound_witness:
  "\<exists>i j. i < length (cfg_Rules sample_collision) \<and> j < length (cfg_Rules sample_collision)
     \<and> pv_Name (cfg_Provenance sample_collision ! j) = ''newer'' \<and> i \<noteq> j
     \<and> \<not> at_least_as_good sample_collision (j, 10) (i, 10)"
proof -
  let ?d = "shadow_diagnostic (rule_claimant sample_collision 1)"
  let ?req = "sample_preflight \<lparr> req_Host := ''a.example'' \<rparr>"
  have d: "?d \<in> set (DetectShadowedRules (\<lambda>_. ''{}'') sample_collision)"
    by (simp add: sample_collision_detected)
  have n: "dg_Name ?d = ''newer''"
    by (simp add: shadow_diagnostic_def rule_claimant_def sample_collision_rules sample_provenance_def)
  obtain i j h m where ij: "i < length (cfg_Rules sample_collision)" "j < length (cfg_Rules sample_collision)"
    "dg_Name ?d = pv_Name (cfg_Provenance sample_collision ! j)"
    "\<not> sameRoute (cfg_Provenance sample_collision ! i) (cfg_Provenance sample_collision ! j)"
    "claims_pair (cfg_Rules sample_collision ! j) h m"
    and cov: "\<And>req k. pair_covers sample_re h m req k \<Longrightarrow> \<not> at_least_as_good sample_collision (j, k) (i, k)"
    using shadow_report_sound [OF sample_collision_ok d, of sample_re] by metis
  have "j = 1" using ij(2,3) n
    by (auto simp: sample_collision_rules sample_provenance_def less_Suc_eq)
  with ij(5) have "h = Some ''A.example''" "m = None"
    by (auto simp: sample_collision_rules claims_pair_def sample_rule_def split: option.splits)
  moreover have "host_rank (extractHost ?req) ''A.example'' = Some 10"
    by code_simp
  ultimately have "pair_covers sample_re h m ?req 10" by (simp add: pair_covers_def)
  from cov [OF this] have "\<not> at_least_as_good sample_collision (j, 10) (i, 10)" .
  moreover have "i \<noteq> j" using ij(4) by (auto simp: sameRoute_def)
  ultimately show ?thesis using ij(1,2,3) n by auto
qed

text \<open>No shadowing is missed. Where two rules of different routes claim the same pair, and the
  first is the one the router ranks highest among the claimants of the pair, the other is reported.\<close>

theorem shadow_report_complete:
  assumes "length (cfg_Provenance cfg) = length (cfg_Rules cfg)"
    and "i < length (cfg_Rules cfg)" and "j < length (cfg_Rules cfg)"
    and "\<not> sameRoute (cfg_Provenance cfg ! i) (cfg_Provenance cfg ! j)"
    and "claims_pair (cfg_Rules cfg ! i) h m" and "claims_pair (cfg_Rules cfg ! j) h' m'"
    and "pair_key marshal h m = pair_key marshal h' m'"
    and "\<And>l. l < length (cfg_Rules cfg) \<Longrightarrow> l \<noteq> i \<Longrightarrow>
           pair_key marshal h m \<in> set (ruleShadowKeys marshal (cfg_Rules cfg ! l)) \<Longrightarrow>
           \<not> at_least_as_good cfg (l, k) (i, k)"
  shows "shadow_diagnostic (rule_claimant cfg j) \<in> set (DetectShadowedRules marshal cfg)"
proof -
  let ?cs = "shadow_claims marshal cfg" and ?W = "foldl claim_step Map.empty (shadow_claims marshal cfg)"
  let ?k = "pair_key marshal h m"
  have "?k \<in> set (ruleShadowKeys marshal (cfg_Rules cfg ! i))"
    "?k \<in> set (ruleShadowKeys marshal (cfg_Rules cfg ! j))"
    using assms(5,6,7) unfolding ruleShadowKeys_iff by metis+
  then have claims: "(?k, rule_claimant cfg i) \<in> set ?cs" "(?k, rule_claimant cfg j) \<in> set ?cs"
    using assms(2,3) by (auto simp: shadow_claims_iff)
  then obtain w where w: "?W ?k = Some w" using winners_fold [of ?cs ?k] by (metis fst_conv image_eqI not_None_eq)
  then have wc: "(?k, w) \<in> set ?cs" and nb: "\<not> beats (rule_claimant cfg i) w"
    using winners_fold [of ?cs ?k] claims(1) by blast+
  from wc obtain l where l: "l < length (cfg_Rules cfg)" "w = rule_claimant cfg l"
    "?k \<in> set (ruleShadowKeys marshal (cfg_Rules cfg ! l))" by (auto simp: shadow_claims_iff)
  have "l = i"
  proof (rule ccontr)
    assume "l \<noteq> i"
    with assms(8) [OF l(1) _ l(3)] have "\<not> at_least_as_good cfg (l, k) (i, k)" by blast
    with nb l(2) \<open>l \<noteq> i\<close> show False
      by (auto simp: beats_def rule_claimant_def at_least_as_good_def split: if_splits)
  qed
  with w l(2) assms(4) have "loses ?W ?k (rule_claimant cfg j)"
    by (auto simp: loses_def rule_claimant_def sameRoute_def)
  with claims(2) set_losing_claims [of ?cs "rule_claimant cfg" ?k "rule_claimant cfg j" ?W "[]"]
  have "(?k, rule_claimant cfg j) \<in> set (losing_claims ?W [] ?cs)"
    using shadow_claims_claimant by fastforce
  then show ?thesis unfolding DetectShadowedRules_eq [OF assms(1)] by force
qed

end
