(* ===== verification/RouterState.thy ===== *)
theory RouterState
  imports RouterSpec
begin

text \<open>
  The router as an object (\<^verbatim>\<open>router.go\<close>), with the pool of backend transports its handler owns
  (\<^verbatim>\<open>handler.go\<close>) and the choice of the edge transport (\<^verbatim>\<open>startup_protocol.go\<close>): configuration updates,
  the version check, pruning of the pool, the first-config signal and the two readiness inputs.
  Updates are serialised by a mutex in the code, so they are steps of a transition relation here.
  SHA-256 and \<^verbatim>\<open>Duration.String\<close> are parameters.
\<close>

section \<open>Transport keys\<close>

record RouterEnv =
  env_re_compile :: re_engine
  env_iter :: map_order
  env_sha8 :: "string \<Rightarrow> string"
  env_duration :: "int \<Rightarrow> string"

definition ruleHeaderTimeout :: "RouteTimeouts option \<Rightarrow> int" where
  "ruleHeaderTimeout timeouts =
     (case timeouts of
        None \<Rightarrow> 0
      | Some t \<Rightarrow>
          (if to_Request t > 0 \<and> to_Backend t > 0 then min (to_Request t) (to_Backend t)
           else if to_Request t > 0 then to_Request t
           else if to_Backend t > 0 then to_Backend t
           else 0))"

definition tls_hash_input :: "BackendTLSConfig \<Rightarrow> string" where
  "tls_hash_input t =
     tls_CABundlePEM t @ [CHR 0x00] @ tls_ServerName t @ [CHR 0x00]
     @ concat (map (\<lambda>s. s @ [CHR 0x00]) (tls_SubjectAltNames t))
     @ ''|uri|'' @ concat (map (\<lambda>s. s @ [CHR 0x00]) (tls_SubjectAltNameURIs t))
     @ ''|client|'' @ tls_ClientCertPEM t @ [CHR 0x00] @ tls_ClientKeyPEM t"

definition tlsFingerprint :: "(string \<Rightarrow> string) \<Rightarrow> BackendTLSConfig option \<Rightarrow> string" where
  "tlsFingerprint sha8 tls = (case tls of None \<Rightarrow> '''' | Some t \<Rightarrow> sha8 (tls_hash_input t))"

definition protocol_string :: "BackendProtocol \<Rightarrow> string" where
  "protocol_string p =
     (case p of BackendProtocolHTTP \<Rightarrow> '''' | BackendProtocolH2C \<Rightarrow> ''h2c'' | BackendProtocolOther s \<Rightarrow> s)"

definition transportKey ::
    "RouterEnv \<Rightarrow> string \<Rightarrow> BackendProtocol \<Rightarrow> BackendTLSConfig option \<Rightarrow> int \<Rightarrow> string" where
  "transportKey env host protocol tls headerTimeout =
     host @ ''|'' @ protocol_string protocol @ ''|'' @ tlsFingerprint (env_sha8 env) tls @ ''|''
     @ env_duration env headerTimeout"

text \<open>A pooled transport is what \<^verbatim>\<open>newTransport\<close> builds it from.\<close>

record Transport =
  tr_Protocol :: BackendProtocol
  tr_TLS :: "BackendTLSConfig option"
  tr_HeaderTimeout :: int

type_synonym transports = "string \<Rightarrow> Transport option"

definition getTransport ::
    "RouterEnv \<Rightarrow> transports \<Rightarrow> string \<Rightarrow> BackendProtocol \<Rightarrow> BackendTLSConfig option \<Rightarrow> int
     \<Rightarrow> Transport \<times> transports" where
  "getTransport env pool host protocol tls headerTimeout =
     (let key = transportKey env host protocol tls headerTimeout
      in case pool key of
           Some t \<Rightarrow> (t, pool)
         | None \<Rightarrow>
             (let t = \<lparr> tr_Protocol = protocol, tr_TLS = tls, tr_HeaderTimeout = headerTimeout \<rparr>
              in (t, pool (key \<mapsto> t))))"

definition PruneTransports :: "transports \<Rightarrow> string set \<Rightarrow> transports" where
  "PruneTransports pool activeKeys = pool |` activeKeys"

definition collectMirrorTransportKeys :: "RouterEnv \<Rightarrow> RouteFilter list \<Rightarrow> string list" where
  "collectMirrorTransportKeys env filters =
     List.map_filter
       (\<lambda>f. case (rf_Type f, rf_RequestMirror f) of
              (FilterRequestMirror, Some m) \<Rightarrow>
                map_option (\<lambda>u. transportKey env (url_Host u) (mi_Protocol m) (mi_TLS m) 0)
                  (url_Parse (mi_BackendURL m))
            | _ \<Rightarrow> None)
       filters"

definition rule_transport_keys :: "RouterEnv \<Rightarrow> RouteRule \<Rightarrow> string list" where
  "rule_transport_keys env rule =
     concat (map (\<lambda>b. case url_Parse (be_URL b) of
                        None \<Rightarrow> []
                      | Some u \<Rightarrow>
                          transportKey env (url_Host u) (be_Protocol b) (be_TLS b)
                            (ruleHeaderTimeout (rule_Timeouts rule))
                          # collectMirrorTransportKeys env (be_Filters b))
              (rule_Backends rule))
     @ collectMirrorTransportKeys env (rule_Filters rule)"

definition extractActiveTransportKeys :: "RouterEnv \<Rightarrow> Config \<Rightarrow> string set" where
  "extractActiveTransportKeys env cfg = set (concat (map (rule_transport_keys env) (cfg_Rules cfg)))"

definition rulesHaveTLSMirror :: "RouteFilter list \<Rightarrow> bool" where
  "rulesHaveTLSMirror filters =
     list_ex (\<lambda>f. rf_Type f = FilterRequestMirror
                  \<and> (case rf_RequestMirror f of None \<Rightarrow> False | Some m \<Rightarrow> mi_TLS m \<noteq> None)) filters"

definition configHasTLSMirror :: "Config \<Rightarrow> bool" where
  "configHasTLSMirror cfg =
     list_ex (\<lambda>r. rulesHaveTLSMirror (rule_Filters r)
                  \<or> list_ex (\<lambda>b. rulesHaveTLSMirror (be_Filters b)) (rule_Backends r)) (cfg_Rules cfg)"

section \<open>Startup protocol\<close>

definition normalize_protocol :: "string \<Rightarrow> string" where
  "normalize_protocol s = to_lower (trim_space s)"

text \<open>Which of the channels of the startup select is ready.\<close>

datatype StartupEvent = FirstConfig "Config option" | WaitElapsed | ContextDone | Drained

definition ResolveStartupProtocol :: "string \<Rightarrow> StartupEvent \<Rightarrow> string" where
  "ResolveStartupProtocol configured event =
     (if normalize_protocol configured = ''http2'' then ''http2''
      else if normalize_protocol configured = ''quic'' then ''quic''
      else case event of
        FirstConfig (Some cfg) \<Rightarrow> if cfg_HasGRPCRoute cfg then ''http2'' else ''auto''
      | FirstConfig None \<Rightarrow> ''auto''
      | WaitElapsed \<Rightarrow> ''auto''
      | ContextDone \<Rightarrow> ''auto''
      | Drained \<Rightarrow> ''auto'')"

definition GRPCRestartNeeded :: "string \<Rightarrow> bool \<Rightarrow> bool" where
  "GRPCRestartNeeded dialedProtocol hasGRPCRoute =
     (if \<not> hasGRPCRoute then False
      else let dialed = normalize_protocol dialedProtocol
           in dialed \<noteq> '''' \<and> dialed \<noteq> ''http2'')"

section \<open>The router object\<close>

text \<open>\<open>rs_pool\<close> is the transport pool of the handler given to \<^verbatim>\<open>SetHandler\<close>, None before that;
  \<open>rs_firstConfig\<close> is the configuration sent on \<^verbatim>\<open>firstConfigCh\<close>, None before the once-guard fires.\<close>

record RouterState =
  rs_table :: routingTable
  rs_pool :: "transports option"
  rs_firstConfig :: "Config option"
  rs_dialedProtocol :: "string option"
  rs_grpcRestartWarned :: bool
  rs_tunnelConnected :: bool

definition NewRouter :: RouterState where
  "NewRouter =
     \<lparr> rs_table = \<lparr> rt_exactHosts = Map.empty, rt_wildcardHosts = [], rt_defaultRules = [], rt_version = 0 \<rparr>,
       rs_pool = None, rs_firstConfig = None, rs_dialedProtocol = None, rs_grpcRestartWarned = False,
       rs_tunnelConnected = False \<rparr>"

definition SetDialedProtocol :: "RouterState \<Rightarrow> string \<Rightarrow> RouterState" where
  "SetDialedProtocol st protocol = st \<lparr> rs_dialedProtocol := Some protocol \<rparr>"

definition SetHandler :: "RouterState \<Rightarrow> transports \<Rightarrow> RouterState" where
  "SetHandler st pool = st \<lparr> rs_pool := Some pool \<rparr>"

definition SetTunnelConnected :: "RouterState \<Rightarrow> RouterState" where
  "SetTunnelConnected st = st \<lparr> rs_tunnelConnected := True \<rparr>"

definition ConfigVersion :: "RouterState \<Rightarrow> int" where
  "ConfigVersion st = rt_version (rs_table st)"

definition IsReady :: "RouterState \<Rightarrow> bool" where
  "IsReady st \<longleftrightarrow> ConfigVersion st > 0 \<and> rs_tunnelConnected st"

definition warnGRPCRestartIfNeeded :: "RouterState \<Rightarrow> Config \<Rightarrow> RouterState" where
  "warnGRPCRestartIfNeeded st cfg =
     (case rs_dialedProtocol st of
        None \<Rightarrow> st
      | Some dialed \<Rightarrow>
          (if \<not> GRPCRestartNeeded dialed (cfg_HasGRPCRoute cfg) then st
           else st \<lparr> rs_grpcRestartWarned := True \<rparr>))"

text \<open>The transports the mirror filters take from the pool while a configuration is compiled: those of
  the filters compiled before the first error. The flag is whether the part compiled.\<close>

fun filter_mirrors :: "RouteFilter list \<Rightarrow> MirrorConfig list \<times> bool" where
  "filter_mirrors [] = ([], True)"
| "filter_mirrors (f # fs) =
     (case compileFilter True f of
        Inl _ \<Rightarrow> ([], False)
      | Inr _ \<Rightarrow>
          (case filter_mirrors fs of (ms, ok) \<Rightarrow>
             ((case (rf_Type f, rf_RequestMirror f) of (FilterRequestMirror, Some m) \<Rightarrow> m # ms | _ \<Rightarrow> ms), ok)))"

fun seq_mirrors :: "(MirrorConfig list \<times> bool) list \<Rightarrow> MirrorConfig list \<times> bool" where
  "seq_mirrors [] = ([], True)"
| "seq_mirrors ((ms, ok) # parts) =
     (if ok then (case seq_mirrors parts of (ms', ok') \<Rightarrow> (ms @ ms', ok')) else (ms, False))"

definition rule_mirrors :: "re_engine \<Rightarrow> RouteRule \<Rightarrow> MirrorConfig list \<times> bool" where
  "rule_mirrors re_compile rule =
     (case traverse (\<lambda>i m. wrap_res (AtMatch i) (CompileMatch re_compile m)) 0 (rule_Matches rule) of
        Inl _ \<Rightarrow> ([], False)
      | Inr _ \<Rightarrow>
          seq_mirrors (filter_mirrors (rule_Filters rule)
                       # map (\<lambda>b. filter_mirrors (be_Filters b)) (rule_Backends rule)))"

definition config_mirrors :: "re_engine \<Rightarrow> Config \<Rightarrow> MirrorConfig list" where
  "config_mirrors re_compile cfg = fst (seq_mirrors (map (rule_mirrors re_compile) (cfg_Rules cfg)))"

definition borrow_mirror_transport :: "RouterEnv \<Rightarrow> transports \<Rightarrow> MirrorConfig \<Rightarrow> transports" where
  "borrow_mirror_transport env pool m =
     (case newMirrorClient (mi_BackendURL m) (mi_TLS m) (mi_Protocol m) of
        SharedMirrorClient \<Rightarrow> pool
      | PooledMirrorClient host protocol tls \<Rightarrow> snd (getTransport env pool host protocol tls 0))"

definition UpdateConfig :: "RouterEnv \<Rightarrow> RouterState \<Rightarrow> Config \<Rightarrow> gerr option \<times> RouterState" where
  "UpdateConfig env st cfg =
     (if cfg_Version cfg > 0 \<and> cfg_Version cfg < ConfigVersion st
      then (Some (Wrapped (InText ''version'') (Sentinel errStaleVersion)), st)
      else if rs_pool st = None \<and> configHasTLSMirror cfg
      then (Some (Sentinel errTLSMirrorWithoutTransportFactory), st)
      else
        (let pool1 = map_option (\<lambda>p. foldl (borrow_mirror_transport env) p
                                       (config_mirrors (env_re_compile env) cfg)) (rs_pool st);
             st1 = st \<lparr> rs_pool := pool1 \<rparr>
         in case compileRoutingTable (env_re_compile env) (env_iter env) (rs_pool st \<noteq> None) cfg of
              Inl e \<Rightarrow> (Some (Wrapped (InText ''failed to compile routing table'') e), st1)
            | Inr table \<Rightarrow>
                (None,
                 warnGRPCRestartIfNeeded
                   (st1 \<lparr> rs_table := table,
                          rs_pool := map_option (\<lambda>p. PruneTransports p (extractActiveTransportKeys env cfg)) pool1,
                          rs_firstConfig := (case rs_firstConfig st of
                                               None \<Rightarrow> Some cfg | Some c \<Rightarrow> Some c) \<rparr>) cfg)))"

section \<open>Steps\<close>

text \<open>The calls the entry points make on a router. \<open>Push\<close> carries the configuration applied.\<close>

datatype RouterCall = Push Config | DialedProtocol string | Connected

inductive router_step :: "RouterEnv \<Rightarrow> RouterState \<Rightarrow> RouterCall \<Rightarrow> RouterState \<Rightarrow> bool" for env where
  push: "UpdateConfig env st cfg = (err, st') \<Longrightarrow> router_step env st (Push cfg) st'"
| dialed: "router_step env st (DialedProtocol p) (SetDialedProtocol st p)"
| connected: "router_step env st Connected (SetTunnelConnected st)"

inductive router_run :: "RouterEnv \<Rightarrow> RouterState \<Rightarrow> RouterCall list \<Rightarrow> RouterState \<Rightarrow> bool" for env where
  run_nil: "router_run env st [] st"
| run_cons: "router_step env st c st' \<Longrightarrow> router_run env st' cs st'' \<Longrightarrow> router_run env st (c # cs) st''"

inductive_cases router_step_Push [elim!]: "router_step env st (Push cfg) st'"
inductive_cases router_step_Dialed [elim!]: "router_step env st (DialedProtocol p) st'"
inductive_cases router_step_Connected [elim!]: "router_step env st Connected st'"
inductive_cases router_run_Cons: "router_run env st (c # cs) st'"

section \<open>Lemmas\<close>

lemma warnGRPC_fields [simp]:
  "rs_table (warnGRPCRestartIfNeeded st cfg) = rs_table st"
  "rs_pool (warnGRPCRestartIfNeeded st cfg) = rs_pool st"
  "rs_firstConfig (warnGRPCRestartIfNeeded st cfg) = rs_firstConfig st"
  "rs_dialedProtocol (warnGRPCRestartIfNeeded st cfg) = rs_dialedProtocol st"
  "rs_tunnelConnected (warnGRPCRestartIfNeeded st cfg) = rs_tunnelConnected st"
  by (simp_all add: warnGRPCRestartIfNeeded_def split: option.split)

lemma compile_version:
  "compileRoutingTable re iter b cfg = Inr t \<Longrightarrow> rt_version t = cfg_Version cfg"
  by (auto simp: compileRoutingTable_def build_table_def split: sum.splits prod.splits)

lemma UpdateConfig_ok:
  assumes "UpdateConfig env st cfg = (None, st')"
  obtains table where
    "compileRoutingTable (env_re_compile env) (env_iter env) (rs_pool st \<noteq> None) cfg = Inr table"
    and "rs_table st' = table" and "rt_version table = cfg_Version cfg"
    and "cfg_Version cfg \<le> 0 \<or> ConfigVersion st \<le> cfg_Version cfg"
    and "rs_firstConfig st' = (case rs_firstConfig st of None \<Rightarrow> Some cfg | Some c \<Rightarrow> Some c)"
    and "rs_tunnelConnected st' = rs_tunnelConnected st"
    and "rs_pool st' =
           map_option (\<lambda>p. PruneTransports
               (foldl (borrow_mirror_transport env) p (config_mirrors (env_re_compile env) cfg))
               (extractActiveTransportKeys env cfg)) (rs_pool st)"
proof -
  have guards: "\<not> (cfg_Version cfg > 0 \<and> cfg_Version cfg < ConfigVersion st)"
    "\<not> (rs_pool st = None \<and> configHasTLSMirror cfg)"
    using assms by (auto simp: UpdateConfig_def split: if_splits)
  obtain table where t:
    "compileRoutingTable (env_re_compile env) (env_iter env) (rs_pool st \<noteq> None) cfg = Inr table"
    using assms guards
    by (cases "compileRoutingTable (env_re_compile env) (env_iter env) (rs_pool st \<noteq> None) cfg")
      (auto simp: UpdateConfig_def Let_def)
  show thesis
    by (rule that [OF t]) (use assms guards t compile_version [OF t] in
        \<open>auto simp: UpdateConfig_def Let_def option.map_comp comp_def\<close>)
qed

lemma UpdateConfig_error:
  assumes "UpdateConfig env st cfg = (Some e, st')"
  shows "st' \<lparr> rs_pool := rs_pool st \<rparr> = st"
  using assms by (auto simp: UpdateConfig_def Let_def split: if_splits sum.splits)

lemma UpdateConfig_cases:
  assumes "UpdateConfig env st cfg = (err, st')"
  shows "(err \<noteq> None \<and> st' \<lparr> rs_pool := rs_pool st \<rparr> = st)
       \<or> (err = None \<and> rt_version (rs_table st') = cfg_Version cfg
          \<and> (cfg_Version cfg \<le> 0 \<or> ConfigVersion st \<le> cfg_Version cfg)
          \<and> rs_firstConfig st' = (case rs_firstConfig st of None \<Rightarrow> Some cfg | Some c \<Rightarrow> Some c)
          \<and> rs_tunnelConnected st' = rs_tunnelConnected st)"
proof (cases err)
  case None
  with assms UpdateConfig_ok [of env st cfg st'] show ?thesis by metis
next
  case (Some e)
  with assms UpdateConfig_error [of env st cfg e st'] show ?thesis by simp
qed

lemma pool_update_fields:
  assumes "st' \<lparr> rs_pool := p \<rparr> = st"
  shows "rs_table st' = rs_table st" "rs_firstConfig st' = rs_firstConfig st"
    "rs_tunnelConnected st' = rs_tunnelConnected st"
  unfolding assms [symmetric] by simp_all

subsection \<open>Runs\<close>

definition versioned :: "RouterCall \<Rightarrow> bool" where
  "versioned c = (case c of Push cfg \<Rightarrow> 0 < cfg_Version cfg | _ \<Rightarrow> True)"

lemma router_step_versioned:
  assumes "router_step env st c st'" and "versioned c"
  shows "ConfigVersion st \<le> ConfigVersion st'"
  using assms
proof cases
  case (push cfg err)
  then have v: "0 < cfg_Version cfg" using assms(2) by (simp add: versioned_def)
  show ?thesis
  proof (cases err)
    case None
    then show ?thesis using UpdateConfig_cases [OF push(2)] v by (auto simp: ConfigVersion_def)
  next
    case (Some e)
    then have "st' \<lparr> rs_pool := rs_pool st \<rparr> = st" using UpdateConfig_error push(2) by simp
    from pool_update_fields(1) [OF this] show ?thesis by (simp add: ConfigVersion_def)
  qed
qed (simp_all add: SetDialedProtocol_def SetTunnelConnected_def ConfigVersion_def)

lemma router_step_latches:
  assumes "router_step env st c st'"
  shows "rs_tunnelConnected st \<Longrightarrow> rs_tunnelConnected st'"
    and "rs_firstConfig st = Some f \<Longrightarrow> rs_firstConfig st' = Some f"
proof -
  have "(rs_tunnelConnected st \<longrightarrow> rs_tunnelConnected st')
      \<and> (rs_firstConfig st = Some f \<longrightarrow> rs_firstConfig st' = Some f)"
    using assms
  proof cases
    case (push cfg err)
    show ?thesis
      using UpdateConfig_cases [OF push(2)]
    proof
      assume "err \<noteq> None \<and> st' \<lparr> rs_pool := rs_pool st \<rparr> = st"
      then have "st' \<lparr> rs_pool := rs_pool st \<rparr> = st" by blast
      from pool_update_fields(2,3) [OF this] show ?thesis by simp
    qed simp
  qed (simp_all add: SetDialedProtocol_def SetTunnelConnected_def)
  then show "rs_tunnelConnected st \<Longrightarrow> rs_tunnelConnected st'"
    and "rs_firstConfig st = Some f \<Longrightarrow> rs_firstConfig st' = Some f" by blast+
qed

lemma router_run_versioned:
  "router_run env st cs st' \<Longrightarrow> \<forall>c \<in> set cs. versioned c \<Longrightarrow> ConfigVersion st \<le> ConfigVersion st'"
  by (induction rule: router_run.induct) (auto dest: router_step_versioned)

lemma router_run_latches:
  "router_run env st cs st' \<Longrightarrow>
     (rs_tunnelConnected st \<longrightarrow> rs_tunnelConnected st')
     \<and> (rs_firstConfig st = Some f \<longrightarrow> rs_firstConfig st' = Some f)"
  by (induction rule: router_run.induct) (auto dest: router_step_latches)

subsection \<open>Mirror transports\<close>

lemma borrow_dom:
  "dom (borrow_mirror_transport env pool m) =
     dom pool \<union> (case newMirrorClient (mi_BackendURL m) (mi_TLS m) (mi_Protocol m) of
                   SharedMirrorClient \<Rightarrow> {}
                 | PooledMirrorClient h p t \<Rightarrow> {transportKey env h p t 0})"
  by (auto simp: borrow_mirror_transport_def getTransport_def Let_def
      split: MirrorClient.splits option.splits)

lemma foldl_borrow_dom:
  "dom (foldl (borrow_mirror_transport env) pool ms) =
     dom pool \<union> (\<Union>m \<in> set ms. dom (borrow_mirror_transport env Map.empty m))"
  by (induction ms arbitrary: pool) (auto simp: borrow_dom)

lemma filter_mirrors_ok:
  assumes "\<forall>f \<in> set fs. wf_filter f"
  shows "snd (filter_mirrors fs)"
    and "f \<in> set fs \<Longrightarrow> rf_Type f = FilterRequestMirror \<Longrightarrow> rf_RequestMirror f = Some m \<Longrightarrow>
         m \<in> set (fst (filter_mirrors fs))"
proof -
  have "snd (filter_mirrors fs) \<and> (f \<in> set fs \<and> rf_Type f = FilterRequestMirror \<and> rf_RequestMirror f = Some m \<longrightarrow>
         m \<in> set (fst (filter_mirrors fs)))"
    using assms
  proof (induction fs)
    case Nil
    then show ?case by simp
  next
    case (Cons g fs)
    obtain c where c: "compileFilter True g = Inr c" using compileFilter_wf Cons.prems by (meson list.set_intros(1))
    obtain ms ok where r: "filter_mirrors fs = (ms, ok)" by (cases "filter_mirrors fs")
    have "set ms \<subseteq> set (fst (filter_mirrors (g # fs)))" "snd (filter_mirrors (g # fs)) = ok"
      using c r by (auto split: option.splits RouteFilterType.splits)
    moreover have "m \<in> set (fst (filter_mirrors (g # fs)))"
      if "rf_Type g = FilterRequestMirror" "rf_RequestMirror g = Some m"
      using c r that by simp
    ultimately show ?case using Cons r by auto
  qed
  then show "snd (filter_mirrors fs)"
    and "f \<in> set fs \<Longrightarrow> rf_Type f = FilterRequestMirror \<Longrightarrow> rf_RequestMirror f = Some m \<Longrightarrow>
         m \<in> set (fst (filter_mirrors fs))" by blast+
qed

lemma seq_mirrors_ok:
  "list_all snd parts \<Longrightarrow> seq_mirrors parts = (concat (map fst parts), True)"
  by (induction parts rule: seq_mirrors.induct) auto

lemma rule_mirrors_ok:
  assumes "wf_rule rule" and "\<exists>ms. traverse (\<lambda>i m. wrap_res (AtMatch i) (CompileMatch re m)) 0 (rule_Matches rule) = Inr ms"
  shows "rule_mirrors re rule =
           (concat (map fst (filter_mirrors (rule_Filters rule)
              # map (\<lambda>b. filter_mirrors (be_Filters b)) (rule_Backends rule))), True)"
proof -
  have "list_all snd (filter_mirrors (rule_Filters rule)
      # map (\<lambda>b. filter_mirrors (be_Filters b)) (rule_Backends rule))"
    using assms(1) filter_mirrors_ok(1) by (auto simp: wf_rule_def wf_backend_def list_all_iff)
  with assms(2) show ?thesis by (auto simp: rule_mirrors_def seq_mirrors_ok)
qed

text \<open>A mirror filter of a rule, or of a backend of the rule whose URL parses.\<close>

definition mirror_of :: "RouteRule \<Rightarrow> MirrorConfig \<Rightarrow> bool" where
  "mirror_of rule m \<longleftrightarrow>
     (\<exists>f. rf_Type f = FilterRequestMirror \<and> rf_RequestMirror f = Some m
        \<and> (f \<in> set (rule_Filters rule)
           \<or> (\<exists>b \<in> set (rule_Backends rule). url_Parse (be_URL b) \<noteq> None \<and> f \<in> set (be_Filters b))))"

lemma mirror_in_config_mirrors:
  assumes wf: "\<forall>r \<in> set (cfg_Rules cfg). wf_rule r"
    and comp: "compileRoutingTable re iter b cfg = Inr t"
    and r: "r \<in> set (cfg_Rules cfg)" and m: "mirror_of r m"
  shows "m \<in> set (config_mirrors re cfg)"
proof -
  obtain cs where cs: "traverse (\<lambda>i r. wrap_res (AtRule i) (compileRule re b r i)) 0 (cfg_Rules cfg) = Inr cs"
    using comp unfolding compileRoutingTable_Inr by blast
  have matches: "\<exists>ms. traverse (\<lambda>i m. wrap_res (AtMatch i) (CompileMatch re m)) 0 (rule_Matches r') = Inr ms"
    if r': "r' \<in> set (cfg_Rules cfg)" for r'
  proof -
    from r' obtain i where i: "i < length (cfg_Rules cfg)" "r' = cfg_Rules cfg ! i"
      by (auto simp: in_set_conv_nth)
    from compileRule_fields(4) [OF compiled_rules(2) [OF cs i(1)]] i(2) show ?thesis by blast
  qed
  have rm: "rule_mirrors re r' = (concat (map fst (filter_mirrors (rule_Filters r')
      # map (\<lambda>b. filter_mirrors (be_Filters b)) (rule_Backends r'))), True)"
    if "r' \<in> set (cfg_Rules cfg)" for r'
    using rule_mirrors_ok wf matches that by blast
  then have "list_all snd (map (rule_mirrors re) (cfg_Rules cfg))" by (simp add: list_all_iff)
  then have all: "set (config_mirrors re cfg) = (\<Union>r' \<in> set (cfg_Rules cfg). set (fst (rule_mirrors re r')))"
    by (simp add: config_mirrors_def seq_mirrors_ok)
  have wf_r: "\<forall>f \<in> set (rule_Filters r). wf_filter f"
    "\<And>b. b \<in> set (rule_Backends r) \<Longrightarrow> \<forall>f \<in> set (be_Filters b). wf_filter f"
    using wf r by (auto simp: wf_rule_def wf_backend_def)
  have "m \<in> set (fst (rule_mirrors re r))"
    using m filter_mirrors_ok(2) [OF wf_r(1)] filter_mirrors_ok(2) [OF wf_r(2)]
    unfolding mirror_of_def rm [OF r] by fastforce
  then show ?thesis using all r by blast
qed

lemma mirror_key_active:
  assumes "r \<in> set (cfg_Rules cfg)" and "mirror_of r m" and "url_Parse (mi_BackendURL m) = Some u"
  shows "transportKey env (url_Host u) (mi_Protocol m) (mi_TLS m) 0 \<in> extractActiveTransportKeys env cfg"
proof -
  let ?k = "transportKey env (url_Host u) (mi_Protocol m) (mi_TLS m) 0"
  obtain f where f: "rf_Type f = FilterRequestMirror" "rf_RequestMirror f = Some m"
    "f \<in> set (rule_Filters r) \<or> (\<exists>b \<in> set (rule_Backends r). url_Parse (be_URL b) \<noteq> None \<and> f \<in> set (be_Filters b))"
    using assms(2) by (auto simp: mirror_of_def)
  have key: "?k \<in> set (collectMirrorTransportKeys env fs)" if "f \<in> set fs" for fs
    using that f(1,2) assms(3)
    by (force simp: collectMirrorTransportKeys_def List.map_filter_def)
  have "?k \<in> set (rule_transport_keys env r)"
    using f(3)
  proof
    assume "f \<in> set (rule_Filters r)"
    then show ?thesis using key by (simp add: rule_transport_keys_def)
  next
    assume "\<exists>b \<in> set (rule_Backends r). url_Parse (be_URL b) \<noteq> None \<and> f \<in> set (be_Filters b)"
    then obtain b v where "b \<in> set (rule_Backends r)" "url_Parse (be_URL b) = Some v" "f \<in> set (be_Filters b)"
      by auto
    with key [of "be_Filters b"] show ?thesis
      unfolding rule_transport_keys_def by (auto intro!: bexI [of _ b])
  qed
  then show ?thesis using assms(1) by (auto simp: extractActiveTransportKeys_def)
qed

section \<open>Properties\<close>

text \<open>An update is all or nothing. Where it returns an error the routing table, the first-config
  signal and the readiness inputs are as before; a stale version, one above zero and below the
  current one, is always refused. Where it succeeds the table is the compilation of the new
  configuration, of its version.\<close>

theorem update_config_atomic:
  assumes "UpdateConfig env st cfg = (err, st')"
  shows "(case err of
            Some e \<Rightarrow> rs_table st' = rs_table st \<and> rs_firstConfig st' = rs_firstConfig st
              \<and> rs_tunnelConnected st' = rs_tunnelConnected st
          | None \<Rightarrow>
              compileRoutingTable (env_re_compile env) (env_iter env) (rs_pool st \<noteq> None) cfg
                = Inr (rs_table st') \<and> ConfigVersion st' = cfg_Version cfg)
         \<and> \<not> (err = None \<and> 0 < cfg_Version cfg \<and> cfg_Version cfg < ConfigVersion st)"
proof (cases err)
  case None
  with assms have "UpdateConfig env st cfg = (None, st')" by simp
  then obtain table where
    "compileRoutingTable (env_re_compile env) (env_iter env) (rs_pool st \<noteq> None) cfg = Inr table"
    "rs_table st' = table" "rt_version table = cfg_Version cfg"
    "cfg_Version cfg \<le> 0 \<or> ConfigVersion st \<le> cfg_Version cfg"
    by (rule UpdateConfig_ok)
  with None show ?thesis by (auto simp: ConfigVersion_def)
next
  case (Some e)
  with assms have "st' \<lparr> rs_pool := rs_pool st \<rparr> = st" using UpdateConfig_error by simp
  from pool_update_fields [OF this] Some show ?thesis by simp
qed

definition sample_env :: RouterEnv where
  "sample_env = \<lparr> env_re_compile = sample_re, env_iter = rev, env_sha8 = (\<lambda>s. ''00''), env_duration = itoa \<rparr>"

lemma sample_update_ok:
  assumes "0 < v" and "ConfigVersion st \<le> v"
  shows "\<exists>st'. UpdateConfig sample_env st (sample_config v) = (None, st')"
proof -
  obtain t where "compileRoutingTable sample_re rev (rs_pool st \<noteq> None) (sample_config v) = Inr t"
    using compile_config_total sample_config_ok [of v] assms by fastforce
  moreover have "\<not> configHasTLSMirror (sample_config v)"
    by (simp add: configHasTLSMirror_def rulesHaveTLSMirror_def sample_config_def sample_rule_def)
  moreover have "cfg_Version (sample_config v) = v" by (simp add: sample_config_def)
  ultimately show ?thesis using assms by (simp add: UpdateConfig_def sample_env_def Let_def)
qed

text \<open>C7: over every sequence of calls in which each pushed configuration has a version above zero, the
  router's version never decreases and a router that is ready stays ready; and over any sequence the
  configuration signalled first stays the one signalled.\<close>

theorem router_run_monotone:
  assumes "router_run env st calls st'"
  shows "((\<forall>c \<in> set calls. versioned c) \<longrightarrow>
            ConfigVersion st \<le> ConfigVersion st' \<and> (IsReady st \<longrightarrow> IsReady st'))
         \<and> (rs_firstConfig st = Some first \<longrightarrow> rs_firstConfig st' = Some first)"
  using router_run_versioned [OF assms] router_run_latches [OF assms]
  by (auto simp: IsReady_def)

theorem router_run_monotone_witness:
  "\<exists>st1 st2. router_run sample_env NewRouter [Connected, Push (sample_config 3)] st1 \<and> IsReady st1
     \<and> router_run sample_env st1 [Push (sample_config 7)] st2 \<and> IsReady st2
     \<and> rs_firstConfig st2 = Some (sample_config 3)"
proof -
  obtain st1 where u1: "UpdateConfig sample_env (SetTunnelConnected NewRouter) (sample_config 3) = (None, st1)"
    using sample_update_ok [of 3 "SetTunnelConnected NewRouter"]
    by (auto simp: NewRouter_def ConfigVersion_def SetTunnelConnected_def)
  then have s1: "ConfigVersion st1 = 3" "rs_tunnelConnected st1" "rs_firstConfig st1 = Some (sample_config 3)"
    using UpdateConfig_cases [OF u1]
    by (auto simp: ConfigVersion_def NewRouter_def SetTunnelConnected_def sample_config_def)
  obtain st2 where u2: "UpdateConfig sample_env st1 (sample_config 7) = (None, st2)"
    using sample_update_ok [of 7 st1] s1 by auto
  have r1: "router_run sample_env NewRouter [Connected, Push (sample_config 3)] st1"
    by (rule run_cons [OF connected run_cons [OF push [OF u1] run_nil]])
  have r2: "router_run sample_env st1 [Push (sample_config 7)] st2"
    by (rule run_cons [OF push [OF u2] run_nil])
  have "IsReady st1" using s1 by (simp add: IsReady_def)
  moreover have "versioned (Push (sample_config 7))" by (simp add: versioned_def sample_config_def)
  ultimately show ?thesis
    using router_run_monotone [OF r2, of "sample_config 3"] r1 r2 s1 by auto
qed

text \<open>A successful update of a router with a handler leaves no transport in the pool that the new
  configuration does not use, and keeps one for every mirror filter of a rule, or of a backend
  whose URL parses, when the mirror's URL names a host: mirror connections survive the push.\<close>

theorem mirror_transports_survive_update:
  assumes "Config_Validate cfg = None" and "UpdateConfig env st cfg = (None, st')"
    and "rs_pool st = Some pool" and "rule \<in> set (cfg_Rules cfg)" and "mirror_of rule m"
    and "url_Parse (mi_BackendURL m) = Some u" and "url_Host u \<noteq> ''''"
  shows "\<exists>pool'. rs_pool st' = Some pool' \<and> dom pool' \<subseteq> extractActiveTransportKeys env cfg
           \<and> transportKey env (url_Host u) (mi_Protocol m) (mi_TLS m) 0 \<in> dom pool'"
proof -
  let ?k = "transportKey env (url_Host u) (mi_Protocol m) (mi_TLS m) 0"
  let ?mid = "foldl (borrow_mirror_transport env) pool (config_mirrors (env_re_compile env) cfg)"
  obtain table where
    comp: "compileRoutingTable (env_re_compile env) (env_iter env) (rs_pool st \<noteq> None) cfg = Inr table"
    and p: "rs_pool st' = map_option (\<lambda>p. PruneTransports
               (foldl (borrow_mirror_transport env) p (config_mirrors (env_re_compile env) cfg))
               (extractActiveTransportKeys env cfg)) (rs_pool st)"
    using UpdateConfig_ok [OF assms(2)] by metis
  have wf: "\<forall>r \<in> set (cfg_Rules cfg). wf_rule r"
    using assms(1) by (simp add: Config_Validate_iff wf_config_def)
  have "m \<in> set (config_mirrors (env_re_compile env) cfg)"
    by (rule mirror_in_config_mirrors [OF wf comp assms(4,5)])
  moreover have "?k \<in> dom (borrow_mirror_transport env Map.empty m)"
    using assms(6,7) by (simp add: borrow_dom newMirrorClient_def)
  ultimately have "?k \<in> dom ?mid" unfolding foldl_borrow_dom by blast
  with mirror_key_active [OF assms(4-6)] p assms(3) show ?thesis
    by (auto simp: PruneTransports_def)
qed

definition sample_mirror_config :: MirrorConfig where
  "sample_mirror_config =
     \<lparr> mi_BackendURL = ''http://mirror:80'', mi_Percent = Some 10, mi_TLS = None,
       mi_Protocol = BackendProtocolHTTP \<rparr>"

definition sample_mirrored_rule :: RouteRule where
  "sample_mirrored_rule = (sample_rule [] []) \<lparr> rule_Filters :=
     [\<lparr> rf_Type = FilterRequestMirror, rf_RequestHeaderModifier = None, rf_ResponseHeaderModifier = None,
        rf_RequestRedirect = None, rf_URLRewrite = None, rf_RequestMirror = Some sample_mirror_config,
        rf_CORS = None \<rparr>] \<rparr>"

lemma sample_mirror_url:
  "url_Parse ''http://mirror:80'' = Some (empty_url \<lparr> url_Scheme := ''http'', url_Host := ''mirror:80'' \<rparr>)"
  by code_simp

definition pool_inv :: "RouterEnv \<Rightarrow> transports \<Rightarrow> bool" where
  "pool_inv env pool \<longleftrightarrow>
     (\<forall>k t. pool k = Some t \<longrightarrow> isKnownBackendProtocol (tr_Protocol t)
        \<and> (\<exists>h. k = transportKey env h (tr_Protocol t) (tr_TLS t) (tr_HeaderTimeout t)))"

definition printable_env :: "RouterEnv \<Rightarrow> bool" where
  "printable_env env \<longleftrightarrow>
     (\<forall>s. CHR ''|'' \<notin> set (env_sha8 env s)) \<and> (\<forall>d. CHR ''|'' \<notin> set (env_duration env d))
     \<and> inj (env_duration env)"

lemma printable_fingerprint: "printable_env env \<Longrightarrow> CHR ''|'' \<notin> set (tlsFingerprint (env_sha8 env) t)"
  by (simp add: printable_env_def tlsFingerprint_def split: option.split)

lemma known_protocol_string:
  "isKnownBackendProtocol p \<Longrightarrow> isKnownBackendProtocol q \<Longrightarrow>
     CHR ''|'' \<notin> set (protocol_string p) \<and> (protocol_string p = protocol_string q \<longleftrightarrow> p = q)"
  by (auto simp: isKnownBackendProtocol_def protocol_string_def split: BackendProtocol.splits)

lemma transportKey_inj:
  assumes env: "printable_env env" and known: "isKnownBackendProtocol p" "isKnownBackendProtocol q"
    and eq: "transportKey env h p t d = transportKey env h' q t' d'"
  shows "h = h' \<and> p = q \<and> tlsFingerprint (env_sha8 env) t = tlsFingerprint (env_sha8 env) t' \<and> d = d'"
proof -
  let ?fp = "tlsFingerprint (env_sha8 env)"
  have 1: "(h @ ''|'' @ protocol_string p @ ''|'' @ ?fp t) = (h' @ ''|'' @ protocol_string q @ ''|'' @ ?fp t')
      \<and> env_duration env d = env_duration env d'"
    by (rule last_sep_inj [of _ "CHR ''|''"])
      (use eq env in \<open>auto simp: transportKey_def printable_env_def\<close>)
  have 2: "(h @ ''|'' @ protocol_string p) = (h' @ ''|'' @ protocol_string q) \<and> ?fp t = ?fp t'"
    by (rule last_sep_inj [of _ "CHR ''|''"]) (use 1 printable_fingerprint [OF env] in auto)
  have 3: "h = h' \<and> protocol_string p = protocol_string q"
    by (rule last_sep_inj [of _ "CHR ''|''"]) (use 2 known_protocol_string known in auto)
  show ?thesis
    using 1 2 3 known_protocol_string [OF known] env by (auto simp: printable_env_def inj_eq)
qed

text \<open>A pooled transport is shared only between dials for the same host, protocol, TLS fingerprint
  and header timeout, provided that printed fingerprints and timeouts contain no separator and the
  printed timeout identifies the timeout. So a route never inherits the deadline or the protocol of
  another route to the same backend, and the pool keeps this property.\<close>

theorem pooled_transport_matches_request:
  assumes "printable_env env" and "pool_inv env pool" and "isKnownBackendProtocol protocol"
    and "getTransport env pool host protocol tls timeout = (t, pool')"
  shows "tr_Protocol t = protocol \<and> tr_HeaderTimeout t = timeout
         \<and> tlsFingerprint (env_sha8 env) (tr_TLS t) = tlsFingerprint (env_sha8 env) tls
         \<and> pool_inv env pool' \<and> pool_inv env (PruneTransports pool' active)"
proof -
  let ?k = "transportKey env host protocol tls timeout"
  have keep: "pool_inv env p \<Longrightarrow> pool_inv env (PruneTransports p active)" for p
    by (auto simp: pool_inv_def PruneTransports_def restrict_map_def)
  show ?thesis
  proof (cases "pool ?k")
    case None
    with assms(4) have "t = \<lparr> tr_Protocol = protocol, tr_TLS = tls, tr_HeaderTimeout = timeout \<rparr>"
      "pool' = pool (?k \<mapsto> t)" by (auto simp: getTransport_def Let_def)
    moreover from this have "pool_inv env pool'"
      using assms(2,3) by (auto simp: pool_inv_def)
    ultimately show ?thesis using keep by simp
  next
    case (Some t0)
    with assms(4) have t: "t = t0" "pool' = pool" by (auto simp: getTransport_def Let_def)
    obtain h where "isKnownBackendProtocol (tr_Protocol t0)"
      "transportKey env h (tr_Protocol t0) (tr_TLS t0) (tr_HeaderTimeout t0) = ?k"
      using assms(2) Some unfolding pool_inv_def by metis
    from transportKey_inj [OF assms(1) this(1) assms(3) this(2)] t assms(2) keep
    show ?thesis by simp
  qed
qed

definition unary_duration :: "int \<Rightarrow> string" where
  "unary_duration d = (if d < 0 then CHR ''-'' # replicate (nat (- d)) (CHR ''s'') else replicate (nat d) (CHR ''s''))"

lemma unary_duration_inj: "inj unary_duration"
proof (rule injI)
  fix x y
  assume "unary_duration x = unary_duration y"
  then have "hd (unary_duration x @ [CHR ''s'']) = hd (unary_duration y @ [CHR ''s''])"
    "length (unary_duration x) = length (unary_duration y)" by simp_all
  then show "x = y"
    by (auto simp: unary_duration_def replicate_append_same split: if_splits)
qed

end
