(* ===== verification/ConfigApi.thy ===== *)
theory ConfigApi
  imports RouterState
begin

text \<open>
  The configuration endpoint of the proxy (\<^verbatim>\<open>src/internal/proxy/api.go\<close>): the four handlers behind the
  mux, bearer authentication and the status each failure maps to. \<^verbatim>\<open>encoding/json\<close> is a parameter, the
  record \<open>json_codec\<close>; what the development relies on of it is \<open>codec_ok\<close>.
\<close>

section \<open>JSON\<close>

text \<open>\<^verbatim>\<open>Decoder.Decode\<close> on a prefix of a stream: a complete value, more input needed, or a syntax or type
  error.\<close>

datatype 'a json_read = JsonValue 'a | JsonIncomplete | JsonInvalid

record ConfigStatus =
  cs_Version :: int
  cs_Ready :: bool

text \<open>\<open>js_Encodable\<close> marks the configurations the round trip is known for: the strings are UTF-8, the type
  fields one of the named constants.\<close>

record json_codec =
  js_Encodable :: "Config \<Rightarrow> bool"
  js_Marshal :: "Config \<Rightarrow> string option"
  js_Decode :: "string \<Rightarrow> Config json_read"
  js_Unmarshal :: "string \<Rightarrow> Config option"
  js_MarshalStatus :: "ConfigStatus \<Rightarrow> string option"
  js_DecodeStatus :: "string \<Rightarrow> ConfigStatus json_read"

text \<open>What of a configuration is on the wire: the two fields tagged \<^verbatim>\<open>json:"-"\<close> are not.\<close>

definition wire_config :: "Config \<Rightarrow> Config" where
  "wire_config cfg = cfg \<lparr> cfg_Diagnostics := [], cfg_Provenance := [] \<rparr>"

definition codec_ok :: "json_codec \<Rightarrow> bool" where
  "codec_ok js \<longleftrightarrow>
     (\<forall>cfg. js_Encodable js cfg \<longrightarrow>
        (\<exists>s. js_Marshal js cfg = Some s \<and> js_Decode js s = JsonValue (wire_config cfg)
           \<and> js_Unmarshal js s = Some (wire_config cfg))
        \<and> (\<forall>v. js_Encodable js (cfg \<lparr> cfg_Version := v \<rparr>)) \<and> js_Encodable js (wire_config cfg))
     \<and> (\<forall>st. \<exists>s. js_MarshalStatus js st = Some s \<and> js_DecodeStatus js s = JsonValue st)"

section \<open>Handlers\<close>

record ConfigAPI =
  api_router :: RouterState
  api_authToken :: string

record ApiResponse =
  ar_Status :: int
  ar_ContentType :: string
  ar_Body :: string

definition http_Error :: "string \<Rightarrow> int \<Rightarrow> ApiResponse" where
  "http_Error msg code =
     \<lparr> ar_Status = code, ar_ContentType = ''text/plain; charset=utf-8'', ar_Body = msg @ [CHR 0x0A] \<rparr>"

definition http_Status :: "int \<Rightarrow> ApiResponse" where
  "http_Status code = \<lparr> ar_Status = code, ar_ContentType = '''', ar_Body = '''' \<rparr>"

definition NewConfigAPI :: "RouterState \<Rightarrow> string \<Rightarrow> ConfigAPI" where
  "NewConfigAPI router authToken = \<lparr> api_router = router, api_authToken = authToken \<rparr>"

definition bearerPrefix :: string where
  "bearerPrefix = ''Bearer ''"

definition checkAuth :: "string \<Rightarrow> Request \<Rightarrow> bool" where
  "checkAuth authToken req =
     (let header = header_Get (req_Header req) ''Authorization''
      in if length header \<le> length bearerPrefix then False
         else if \<not> equal_fold (take (length bearerPrefix) header) bearerPrefix then False
         else drop (length bearerPrefix) header = authToken)"

definition maxConfigBodySize :: nat where
  "maxConfigBodySize = 1048576"

text \<open>\<^verbatim>\<open>Decode\<close> through a \<^verbatim>\<open>MaxBytesReader\<close>: the decoder sees the body up to the limit, and the limit's
  error only if it still needs input there.\<close>

definition decode_body :: "json_codec \<Rightarrow> BodyReader option \<Rightarrow> ApiResponse + Config" where
  "decode_body js body =
     (let data = (case body of None \<Rightarrow> '''' | Some b \<Rightarrow> br_Data b);
          cut = length data > maxConfigBodySize
      in case js_Decode js (if cut then take maxConfigBodySize data else data) of
           JsonValue cfg \<Rightarrow> Inr cfg
         | JsonInvalid \<Rightarrow> Inl (http_Error ''invalid JSON'' 400)
         | JsonIncomplete \<Rightarrow>
             Inl (if cut then http_Error ''config body exceeds maximum size'' 413
                  else http_Error ''invalid JSON'' 400))"

definition handlePutConfig ::
    "RouterEnv \<Rightarrow> json_codec \<Rightarrow> ConfigAPI \<Rightarrow> Request \<Rightarrow> ApiResponse \<times> ConfigAPI" where
  "handlePutConfig env js api req =
     (if api_authToken api \<noteq> '''' \<and> \<not> checkAuth (api_authToken api) req
      then (http_Error ''unauthorized'' 401, api)
      else if \<not> has_prefix (header_Get (req_Header req) ''Content-Type'') ''application/json''
      then (http_Error ''unsupported content type'' 415, api)
      else case decode_body js (req_Body req) of
        Inl resp \<Rightarrow> (resp, api)
      | Inr cfg \<Rightarrow>
          (if Config_Validate cfg \<noteq> None then (http_Error ''invalid config'' 400, api)
           else case UpdateConfig env (api_router api) cfg of
             (Some e, router') \<Rightarrow>
               (if errors_is e errStaleVersion then http_Error ''stale config version'' 409
                else http_Error ''internal server error'' 500,
                api \<lparr> api_router := router' \<rparr>)
           | (None, router') \<Rightarrow> (http_Status 200, api \<lparr> api_router := router' \<rparr>)))"

definition handleGetConfig :: "json_codec \<Rightarrow> ConfigAPI \<Rightarrow> Request \<Rightarrow> ApiResponse" where
  "handleGetConfig js api req =
     (if api_authToken api \<noteq> '''' \<and> \<not> checkAuth (api_authToken api) req
      then http_Error ''unauthorized'' 401
      else case js_MarshalStatus js \<lparr> cs_Version = ConfigVersion (api_router api),
                                      cs_Ready = IsReady (api_router api) \<rparr> of
        None \<Rightarrow> http_Error ''failed to encode response'' 500
      | Some data \<Rightarrow> \<lparr> ar_Status = 200, ar_ContentType = ''application/json'', ar_Body = data \<rparr>)"

definition handleHealthz :: ApiResponse where
  "handleHealthz = http_Status 200"

definition handleReadyz :: "ConfigAPI \<Rightarrow> ApiResponse" where
  "handleReadyz api =
     (if ConfigVersion (api_router api) = 0 then http_Error ''not ready: no config loaded'' 503
      else if \<not> rs_tunnelConnected (api_router api)
      then http_Error ''not ready: tunnel not connected to edge'' 503
      else http_Status 200)"

text \<open>The mux, for a request path in canonical form and without a metrics handler: a GET pattern also
  serves HEAD, a known path with another method is answered with 405.\<close>

definition ConfigAPI_ServeHTTP ::
    "RouterEnv \<Rightarrow> json_codec \<Rightarrow> ConfigAPI \<Rightarrow> Request \<Rightarrow> ApiResponse \<times> ConfigAPI" where
  "ConfigAPI_ServeHTTP env js api req =
     (let path = url_Path (req_URL req); get = req_Method req \<in> {''GET'', ''HEAD''}
      in if path = ''/config'' \<and> req_Method req = ''PUT'' then handlePutConfig env js api req
         else if path = ''/config'' \<and> get then (handleGetConfig js api req, api)
         else if path = ''/healthz'' \<and> get then (handleHealthz, api)
         else if path = ''/readyz'' \<and> get then (handleReadyz api, api)
         else if path \<in> {''/config'', ''/healthz'', ''/readyz''} then (http_Error ''Method Not Allowed'' 405, api)
         else (http_Error ''404 page not found'' 404, api))"


section \<open>Steps\<close>

text \<open>What happens to a running endpoint: a request, or one of the two signals of the tunnel client.\<close>

datatype ApiEvent = ApiRequest Request | ApiDialed string | ApiConnected

fun api_event :: "RouterEnv \<Rightarrow> json_codec \<Rightarrow> ConfigAPI \<Rightarrow> ApiEvent \<Rightarrow> ConfigAPI" where
  "api_event env js api (ApiRequest req) = snd (ConfigAPI_ServeHTTP env js api req)"
| "api_event env js api (ApiDialed p) = api \<lparr> api_router := SetDialedProtocol (api_router api) p \<rparr>"
| "api_event env js api ApiConnected = api \<lparr> api_router := SetTunnelConnected (api_router api) \<rparr>"

section \<open>Lemmas\<close>

lemma http_responses [simp]:
  "ar_Status (http_Error msg code) = code" "ar_Status (http_Status code) = code"
  "ar_Body (http_Status code) = ''''"
  by (simp_all add: http_Error_def http_Status_def)

lemma checkAuth_iff:
  "checkAuth tok req \<longleftrightarrow>
     (\<exists>p. header_Get (req_Header req) ''Authorization'' = p @ tok \<and> tok \<noteq> ''''
        \<and> length p = length bearerPrefix \<and> equal_fold p bearerPrefix)"
  (is "?L \<longleftrightarrow> ?R")
proof
  let ?h = "header_Get (req_Header req) ''Authorization''"
  assume ?L
  then have l: "length bearerPrefix < length ?h" "equal_fold (take (length bearerPrefix) ?h) bearerPrefix"
    "drop (length bearerPrefix) ?h = tok"
    by (auto simp: checkAuth_def Let_def split: if_splits)
  then have "tok \<noteq> ''''" by force
  with l show ?R by (intro exI [of _ "take (length bearerPrefix) ?h"]) (auto simp: min_def)
next
  assume ?R
  then show ?L by (auto simp: checkAuth_def Let_def)
qed

text \<open>No error of the compilation is the stale-version error.\<close>

lemma CompileMatch_not_stale: "CompileMatch re m = Inl e \<Longrightarrow> \<not> errors_is e errStaleVersion"
proof -
  have "compilePathMatcher re p = Inl e \<Longrightarrow> \<not> errors_is e errStaleVersion" for p e
    by (auto simp: compilePathMatcher_def compile_regex_def split: PathMatchType.splits option.splits)
  moreover have "compileHeaderMatcher re h = Inl e \<Longrightarrow> \<not> errors_is e errStaleVersion" for h e
    by (auto simp: compileHeaderMatcher_def compile_regex_def split: HeaderMatchType.splits option.splits)
  moreover have "compileQueryMatcher re q = Inl e \<Longrightarrow> \<not> errors_is e errStaleVersion" for q e
    by (auto simp: compileQueryMatcher_def compile_regex_def split: QueryParamMatchType.splits option.splits)
  moreover assume "CompileMatch re m = Inl e"
  ultimately show ?thesis
    unfolding CompileMatch_def Let_def by (auto split: option.splits sum.splits dest!: traverse_Inl)
qed

lemma compileFilter_not_stale: "compileFilter b f = Inl e \<Longrightarrow> \<not> errors_is e errStaleVersion"
  by (auto simp: compileFilter_def split: RouteFilterType.splits option.splits)

lemma traverse_wrap_not_stale:
  assumes "traverse (\<lambda>i x. wrap_res (c i) (g i x)) 0 xs = Inl e"
    and "\<And>i x e. g i x = Inl e \<Longrightarrow> \<not> errors_is e errStaleVersion"
  shows "\<not> errors_is e errStaleVersion"
  using assms traverse_Inl [OF assms(1)] errors_is_wrap_res by metis

lemma CompileFilters_not_stale: "CompileFilters b fs = Inl e \<Longrightarrow> \<not> errors_is e errStaleVersion"
  unfolding CompileFilters_def by (rule traverse_wrap_not_stale) (auto dest: compileFilter_not_stale)

lemma compileRule_not_stale: "compileRule re b rule i = Inl e \<Longrightarrow> \<not> errors_is e errStaleVersion"
proof -
  have backend: "(if be_Filters x = [] then Inr [] else wrap_res (AtBackend i) (CompileFilters b (be_Filters x)))
      = Inl e \<Longrightarrow> \<not> errors_is e errStaleVersion" for i x e
    using CompileFilters_not_stale [of b "be_Filters x"]
      errors_is_wrap_res [of "AtBackend i" "CompileFilters b (be_Filters x)"] by (auto split: if_splits)
  assume "compileRule re b rule i = Inl e"
  then consider "traverse (\<lambda>i m. wrap_res (AtMatch i) (CompileMatch re m)) 0 (rule_Matches rule) = Inl e"
    | "wrap_res (InText ''compile filters'') (CompileFilters b (rule_Filters rule)) = Inl e"
    | "traverse (\<lambda>i x. if be_Filters x = [] then Inr []
           else wrap_res (AtBackend i) (CompileFilters b (be_Filters x))) 0 (rule_Backends rule) = Inl e"
    unfolding compileRule_def by (auto split: sum.splits)
  then show ?thesis
  proof cases
    case 1
    then show ?thesis by (rule traverse_wrap_not_stale) (rule CompileMatch_not_stale)
  next
    case 2
    then show ?thesis using errors_is_wrap_res CompileFilters_not_stale by metis
  next
    case 3
    then show ?thesis using traverse_Inl [OF 3] backend by blast
  qed
qed

lemma compile_error_not_stale:
  "compileRoutingTable re iter b cfg = Inl e \<Longrightarrow> \<not> errors_is e errStaleVersion"
proof -
  assume "compileRoutingTable re iter b cfg = Inl e"
  then have "traverse (\<lambda>i r. wrap_res (AtRule i) (compileRule re b r i)) 0 (cfg_Rules cfg) = Inl e"
    by (auto simp: compileRoutingTable_def split: sum.splits)
  then show ?thesis by (rule traverse_wrap_not_stale) (rule compileRule_not_stale)
qed

lemma stale_error_iff:
  assumes "UpdateConfig env st cfg = (Some e, st')"
  shows "errors_is e errStaleVersion \<longleftrightarrow> 0 < cfg_Version cfg \<and> cfg_Version cfg < ConfigVersion st"
proof -
  have "\<not> errors_is e' errStaleVersion" if "compileRoutingTable re iter b cfg = Inl e'" for re iter b e'
    using that compile_error_not_stale by blast
  with assms show ?thesis
    by (auto simp: UpdateConfig_def Let_def split: if_splits sum.splits)
qed

lemma decode_body_statuses: "decode_body js body = Inl resp \<Longrightarrow> ar_Status resp \<in> {400, 413}"
  by (auto simp: decode_body_def Let_def split: json_read.splits if_splits)

lemma put_config_cases:
  assumes "handlePutConfig env js api req = (resp, api')"
  obtains (refused) "api' = api" "ar_Status resp \<in> {400, 401, 413, 415}"
  | (failed) cfg e where "decode_body js (req_Body req) = Inr cfg"
      "UpdateConfig env (api_router api) cfg = (Some e, api_router api')"
      "ar_Status resp = (if errors_is e errStaleVersion then 409 else 500)"
      "api_authToken api' = api_authToken api"
  | (applied) cfg where "api_authToken api = '''' \<or> checkAuth (api_authToken api) req"
      "decode_body js (req_Body req) = Inr cfg" "Config_Validate cfg = None"
      "UpdateConfig env (api_router api) cfg = (None, api_router api')"
      "ar_Status resp = 200" "api_authToken api' = api_authToken api"
proof -
  consider (guard) "api_authToken api \<noteq> '''' \<and> \<not> checkAuth (api_authToken api) req
      \<or> \<not> has_prefix (header_Get (req_Header req) ''Content-Type'') ''application/json''"
    | (bad) r where "decode_body js (req_Body req) = Inl r"
    | (invalid) cfg where "decode_body js (req_Body req) = Inr cfg" "Config_Validate cfg \<noteq> None"
    | (ok) cfg where "api_authToken api = '''' \<or> checkAuth (api_authToken api) req"
        "has_prefix (header_Get (req_Header req) ''Content-Type'') ''application/json''"
        "decode_body js (req_Body req) = Inr cfg" "Config_Validate cfg = None"
    by (metis sum.exhaust)
  then show thesis
  proof cases
    case guard
    with assms refused show ?thesis by (auto simp: handlePutConfig_def split: if_splits)
  next
    case bad
    with assms refused decode_body_statuses [OF bad] show ?thesis
      by (auto simp: handlePutConfig_def split: if_splits)
  next
    case invalid
    with assms refused show ?thesis by (auto simp: handlePutConfig_def split: if_splits)
  next
    case ok
    obtain err st where u: "UpdateConfig env (api_router api) cfg = (err, st)" by force
    show ?thesis
    proof (cases err)
      case None
      with ok u assms applied show ?thesis by (auto simp: handlePutConfig_def split: if_splits)
    next
      case (Some e)
      with ok u assms failed show ?thesis by (auto simp: handlePutConfig_def split: if_splits)
    qed
  qed
qed

lemma ServeHTTP_cases:
  "ConfigAPI_ServeHTTP env js api req = handlePutConfig env js api req
   \<or> snd (ConfigAPI_ServeHTTP env js api req) = api"
  by (simp add: ConfigAPI_ServeHTTP_def Let_def)

lemma put_config_version:
  assumes "handlePutConfig env js api req = (resp, api')"
  shows "ConfigVersion (api_router api') = ConfigVersion (api_router api)
       \<or> (ar_Status resp = 200 \<and> 0 \<le> ConfigVersion (api_router api'))"
  using assms
proof (cases rule: put_config_cases)
  case (failed cfg e)
  then show ?thesis using UpdateConfig_error [OF failed(2)] pool_update_fields(1)
    by (metis ConfigVersion_def)
next
  case (applied cfg)
  then have "rt_version (rs_table (api_router api')) = cfg_Version cfg"
    using UpdateConfig_cases [OF applied(4)] by simp
  moreover have "0 \<le> cfg_Version cfg"
    using applied(3) by (simp add: Config_Validate_iff wf_config_def)
  ultimately show ?thesis using applied(5) by (simp add: ConfigVersion_def)
qed simp

lemma api_events_version:
  "0 \<le> ConfigVersion (api_router api) \<Longrightarrow> 0 \<le> ConfigVersion (api_router (foldl (api_event env js) api evs))"
proof (induction evs rule: rev_induct)
  case (snoc e evs)
  let ?api = "foldl (api_event env js) api evs"
  have "0 \<le> ConfigVersion (api_router (api_event env js ?api e))"
  proof (cases e)
    case (ApiRequest req)
    obtain resp api' where "handlePutConfig env js ?api req = (resp, api')" by force
    with snoc put_config_version [OF this] ServeHTTP_cases [of env js ?api req] ApiRequest
    show ?thesis by auto
  qed (use snoc in \<open>simp_all add: ConfigVersion_def SetDialedProtocol_def SetTunnelConnected_def\<close>)
  then show ?case by simp
qed simp


section \<open>Properties\<close>


definition sample_codec :: "Config \<Rightarrow> json_codec" where
  "sample_codec cfg =
     \<lparr> js_Encodable = (\<lambda>c. c = cfg), js_Marshal = (\<lambda>_. Some ''{}''), js_Decode = (\<lambda>s. if s = ''{}'' then JsonValue cfg else JsonInvalid),
       js_Unmarshal = (\<lambda>s. if s = ''{}'' then Some cfg else None),
       js_MarshalStatus = (\<lambda>_. Some ''{}''), js_DecodeStatus = (\<lambda>_. JsonInvalid) \<rparr>"

definition sample_put :: Request where
  "sample_put =
     \<lparr> req_Method = ''PUT'', req_Host = ''proxy'', req_URL = empty_url \<lparr> url_Path := ''/config'' \<rparr>,
       req_Header = header_Set (header_Set Map.empty ''Content-Type'' ''application/json'')
                      ''Authorization'' ''bearer secret'',
       req_Body = Some \<lparr> br_Data = ''{}'', br_Fails = False \<rparr>, req_ContentLength = 2, req_MatchedPrefix = '''' \<rparr>"

lemma sample_put_headers:
  "header_Get (req_Header sample_put) ''Content-Type'' = ''application/json''"
  "header_Get (req_Header sample_put) ''Authorization'' = ''bearer secret''"
proof -
  have "canonical_key ''Content-Type'' \<noteq> canonical_key ''Authorization''" by code_simp
  then show "header_Get (req_Header sample_put) ''Content-Type'' = ''application/json''"
    "header_Get (req_Header sample_put) ''Authorization'' = ''bearer secret''"
    by (simp_all add: sample_put_def header_Get_def header_Values_Set)
qed

lemma sample_put_auth: "checkAuth ''secret'' sample_put"
  unfolding checkAuth_def sample_put_headers by code_simp

lemma sample_put_decodes: "decode_body (sample_codec cfg) (req_Body sample_put) = Inr cfg"
  by (simp add: decode_body_def sample_codec_def sample_put_def maxConfigBodySize_def)


text \<open>The readiness endpoint, the ready flag of GET /config and the router agree. After any sequence
  of requests and tunnel signals on a fresh endpoint, /readyz answers 200 exactly when a configuration
  with a positive version is loaded and the tunnel is connected.\<close>

theorem readyz_agrees:
  "ar_Status (handleReadyz (foldl (api_event env js) (NewConfigAPI NewRouter tok) evs)) =
     (if IsReady (api_router (foldl (api_event env js) (NewConfigAPI NewRouter tok) evs)) then 200 else 503)"
proof -
  let ?api = "foldl (api_event env js) (NewConfigAPI NewRouter tok) evs"
  have "0 \<le> ConfigVersion (api_router ?api)"
    by (rule api_events_version) (simp add: NewConfigAPI_def NewRouter_def ConfigVersion_def)
  then show ?thesis by (simp add: handleReadyz_def IsReady_def)
qed

end
