(* ===== verification/ConfigPush.thy ===== *)
theory ConfigPush
  imports ConfigApi
begin

text \<open>
  The controller's side of a configuration push (\<^verbatim>\<open>src/internal/proxy/pusher.go\<close>): one attempt, the
  recovery from a version conflict, and the version counter all pushes share. The endpoint is a
  parameter, a function from requests to responses on its state; the locale \<open>config_replica\<close> is what a
  pusher relies on, and the configuration endpoint of the proxy is its interpretation. Concurrent pushes
  are interleavings of the atomic actions of \<^verbatim>\<open>pushToEndpoint\<close>.
\<close>

section \<open>Requests over a network\<close>

type_synonym 'r server = "'r \<Rightarrow> Request \<Rightarrow> ApiResponse \<times> 'r"

text \<open>The fate of one exchange; an error of \<^verbatim>\<open>client.Do\<close> does not tell the two losses apart.\<close>

datatype NetFate = Delivered | RequestLost | ReplyLost

definition client_Do :: "'r server \<Rightarrow> NetFate \<Rightarrow> Request \<Rightarrow> 'r \<Rightarrow> (gerr + ApiResponse) \<times> 'r" where
  "client_Do serve fate req r =
     (case fate of
        Delivered \<Rightarrow> (Inr (fst (serve r req)), snd (serve r req))
      | RequestLost \<Rightarrow> (Inl (Sentinel errSendRequest), r)
      | ReplyLost \<Rightarrow> (Inl (Sentinel errSendRequest), snd (serve r req)))"

text \<open>\<^verbatim>\<open>http.NewRequestWithContext\<close>, None where the endpoint does not parse.\<close>

definition NewRequest :: "string \<Rightarrow> string \<Rightarrow> string option \<Rightarrow> Request option" where
  "NewRequest meth endpoint body =
     map_option
       (\<lambda>u. \<lparr> req_Method = meth, req_Host = url_Host u, req_URL = u, req_Header = Map.empty,
              req_Body = map_option (\<lambda>s. \<lparr> br_Data = s, br_Fails = False \<rparr>) body,
              req_ContentLength = (case body of None \<Rightarrow> 0 | Some s \<Rightarrow> int (length s)),
              req_MatchedPrefix = '''' \<rparr>)
       (url_Parse endpoint)"

definition set_header :: "string \<Rightarrow> string \<Rightarrow> Request \<Rightarrow> Request" where
  "set_header k v req = req \<lparr> req_Header := header_Set (req_Header req) k v \<rparr>"

definition authorize :: "string \<Rightarrow> Request \<Rightarrow> Request" where
  "authorize authToken req =
     (if authToken \<noteq> '''' then set_header ''Authorization'' (''Bearer '' @ authToken) req else req)"

section \<open>The pusher\<close>

record PushResult =
  pr_Endpoint :: string
  pr_Err :: "gerr option"

definition doPush ::
    "'r server \<Rightarrow> NetFate \<Rightarrow> string \<Rightarrow> string \<Rightarrow> string \<Rightarrow> 'r \<Rightarrow> gerr option \<times> 'r" where
  "doPush serve fate endpoint body authToken r =
     (case NewRequest ''PUT'' endpoint (Some body) of
        None \<Rightarrow> (Some (Wrapped (InText ''create request'') (Sentinel errCreateRequest)), r)
      | Some req \<Rightarrow>
          (case client_Do serve fate (authorize authToken (set_header ''Content-Type'' ''application/json'' req)) r of
             (Inl e, r') \<Rightarrow> (Some (Wrapped (InText ''send request'') e), r')
           | (Inr resp, r') \<Rightarrow>
               (if ar_Status resp = 409 then Some (Wrapped (InText endpoint) (Sentinel errStaleVersion))
                else if ar_Status resp \<noteq> 200
                then Some (Wrapped (InText ''status'') (Sentinel errUnexpectedStatusCode))
                else None, r')))"

definition fetchProxyVersion ::
    "json_codec \<Rightarrow> 'r server \<Rightarrow> NetFate \<Rightarrow> string \<Rightarrow> string \<Rightarrow> 'r \<Rightarrow> (gerr + int) \<times> 'r" where
  "fetchProxyVersion js serve fate endpoint authToken r =
     (case NewRequest ''GET'' endpoint None of
        None \<Rightarrow> (Inl (Wrapped (InText ''create GET request'') (Sentinel errCreateRequest)), r)
      | Some req \<Rightarrow>
          (case client_Do serve fate (authorize authToken req) r of
             (Inl e, r') \<Rightarrow> (Inl (Wrapped (InText ''send GET request'') e), r')
           | (Inr resp, r') \<Rightarrow>
               (if ar_Status resp \<noteq> 200
                then Inl (Wrapped (InText ''fetching proxy version'') (Sentinel errUnexpectedStatusCode))
                else case js_DecodeStatus js (ar_Body resp) of
                       JsonValue st \<Rightarrow> Inr (cs_Version st)
                     | _ \<Rightarrow> Inl (Wrapped (InText ''decode proxy status'') (Sentinel errDecodeStatus)), r')))"

text \<open>The counter is an \<^verbatim>\<open>int64\<close>; additions wrap.\<close>

definition wrap64 :: "int \<Rightarrow> int" where
  "wrap64 n = (n + 2 ^ 63) mod 2 ^ 64 - 2 ^ 63"

text \<open>The compare-and-swap loop takes effect at its last iteration, which sees the current value.\<close>

definition bumpVersionCounter :: "int \<Rightarrow> int \<Rightarrow> int" where
  "bumpVersionCounter proxyVersion counter =
     (if counter > proxyVersion then counter else wrap64 (proxyVersion + 1))"

text \<open>The fates of the three exchanges of one push are \<open>fates 0\<close> (the push), \<open>fates 1\<close> (the version) and
  \<open>fates 2\<close> (the second push).\<close>

definition pushToEndpoint ::
    "json_codec \<Rightarrow> 'r server \<Rightarrow> (nat \<Rightarrow> NetFate) \<Rightarrow> string \<Rightarrow> string \<Rightarrow> string \<Rightarrow> int \<times> 'r
     \<Rightarrow> PushResult \<times> int \<times> 'r" where
  "pushToEndpoint js serve fates endpoint body authToken st =
     (case st of (counter, r) \<Rightarrow>
       (case doPush serve (fates 0) endpoint body authToken r of
          (None, r1) \<Rightarrow> (\<lparr> pr_Endpoint = endpoint, pr_Err = None \<rparr>, counter, r1)
        | (Some e, r1) \<Rightarrow>
            (if \<not> errors_is e errStaleVersion
             then (\<lparr> pr_Endpoint = endpoint, pr_Err = Some e \<rparr>, counter, r1)
             else case fetchProxyVersion js serve (fates 1) endpoint authToken r1 of
               (Inl f, r2) \<Rightarrow>
                 (\<lparr> pr_Endpoint = endpoint, pr_Err = Some (Wrapped (InText ''stale version recovery'') f) \<rparr>,
                  counter, r2)
             | (Inr proxyVersion, r2) \<Rightarrow>
                 (if proxyVersion \<le> counter
                  then (\<lparr> pr_Endpoint = endpoint,
                          pr_Err = Some (Wrapped (InText endpoint) (Sentinel ErrLostConfigPushRace)) \<rparr>, counter, r2)
                  else
                    (let counter1 = bumpVersionCounter proxyVersion counter
                     in case js_Unmarshal js body of
                          None \<Rightarrow>
                            (\<lparr> pr_Endpoint = endpoint,
                               pr_Err = Some (Wrapped (InText ''stale version recovery unmarshal'')
                                                (Sentinel errUnmarshalConfig)) \<rparr>, counter1, r2)
                        | Some retryCfg \<Rightarrow>
                            (let counter2 = wrap64 (counter1 + 1)
                             in case js_Marshal js (retryCfg \<lparr> cfg_Version := counter2 \<rparr>) of
                                  None \<Rightarrow>
                                    (\<lparr> pr_Endpoint = endpoint,
                                       pr_Err = Some (Wrapped (InText ''stale version recovery marshal'')
                                                        (Sentinel errMarshalConfig)) \<rparr>, counter2, r2)
                                | Some retryBody \<Rightarrow>
                                    (case doPush serve (fates 2) endpoint retryBody authToken r2 of
                                       (err, r3) \<Rightarrow>
                                         (\<lparr> pr_Endpoint = endpoint, pr_Err = err \<rparr>, counter2, r3))))))))"

text \<open>A push to several endpoints, in one order of the goroutines; \<open>rs\<close> gives the replica behind an
  endpoint.\<close>

fun push_each ::
    "json_codec \<Rightarrow> 'r server \<Rightarrow> (string \<Rightarrow> nat \<Rightarrow> NetFate) \<Rightarrow> string list \<Rightarrow> string \<Rightarrow> string
     \<Rightarrow> int \<times> (string \<Rightarrow> 'r) \<Rightarrow> PushResult list \<times> int \<times> (string \<Rightarrow> 'r)" where
  "push_each js serve fates [] body authToken st = ([], st)"
| "push_each js serve fates (e # es) body authToken (counter, rs) =
     (case pushToEndpoint js serve (fates e) e body authToken (counter, rs e) of
        (res, counter', r') \<Rightarrow>
          (case push_each js serve fates es body authToken (counter', rs (e := r')) of
             (ress, st') \<Rightarrow> (res # ress, st')))"

definition PushWithToken ::
    "json_codec \<Rightarrow> 'r server \<Rightarrow> (string \<Rightarrow> nat \<Rightarrow> NetFate) \<Rightarrow> Config \<Rightarrow> string list \<Rightarrow> string
     \<Rightarrow> int \<times> (string \<Rightarrow> 'r) \<Rightarrow> PushResult list \<times> int \<times> (string \<Rightarrow> 'r)" where
  "PushWithToken js serve fates cfg endpoints authToken st =
     (case js_Marshal js cfg of
        None \<Rightarrow>
          (map (\<lambda>e. \<lparr> pr_Endpoint = e,
                      pr_Err = Some (Wrapped (InText ''marshal config'') (Sentinel errMarshalConfig)) \<rparr>) endpoints, st)
      | Some body \<Rightarrow> push_each js serve fates endpoints body authToken st)"

section \<open>Atomic actions\<close>

text \<open>Where a push is: before its first exchange, after a conflict, with the replica's version in hand,
  before raising the counter, before taking a new version, before its second exchange, or done.\<close>

datatype PushPC =
    PushStart string | PushConflict string | PushFetched string int | PushBump string int
  | PushReissue string | PushRetry string | PushDone "gerr option"

fun push_step ::
    "json_codec \<Rightarrow> 'r server \<Rightarrow> (nat \<Rightarrow> NetFate) \<Rightarrow> string \<Rightarrow> string \<Rightarrow> PushPC \<Rightarrow> int \<times> 'r \<Rightarrow> PushPC \<times> int \<times> 'r" where
  "push_step js serve fates endpoint tok (PushStart body) (n, r) =
     (case doPush serve (fates 0) endpoint body tok r of
        (None, r') \<Rightarrow> (PushDone None, n, r')
      | (Some e, r') \<Rightarrow>
          (if errors_is e errStaleVersion then PushConflict body else PushDone (Some e), n, r'))"
| "push_step js serve fates endpoint tok (PushConflict body) (n, r) =
     (case fetchProxyVersion js serve (fates 1) endpoint tok r of
        (Inl e, r') \<Rightarrow> (PushDone (Some (Wrapped (InText ''stale version recovery'') e)), n, r')
      | (Inr v, r') \<Rightarrow> (PushFetched body v, n, r'))"
| "push_step js serve fates endpoint tok (PushFetched body v) (n, r) =
     (if v \<le> n then PushDone (Some (Wrapped (InText endpoint) (Sentinel ErrLostConfigPushRace)))
      else PushBump body v, n, r)"
| "push_step js serve fates endpoint tok (PushBump body v) (n, r) =
     (PushReissue body, bumpVersionCounter v n, r)"
| "push_step js serve fates endpoint tok (PushReissue body) (n, r) =
     (case js_Unmarshal js body of
        None \<Rightarrow>
          (PushDone (Some (Wrapped (InText ''stale version recovery unmarshal'') (Sentinel errUnmarshalConfig))), n, r)
      | Some cfg \<Rightarrow>
          (case js_Marshal js (cfg \<lparr> cfg_Version := wrap64 (n + 1) \<rparr>) of
             None \<Rightarrow>
               (PushDone (Some (Wrapped (InText ''stale version recovery marshal'') (Sentinel errMarshalConfig))),
                wrap64 (n + 1), r)
           | Some body' \<Rightarrow> (PushRetry body', wrap64 (n + 1), r)))"
| "push_step js serve fates endpoint tok (PushRetry body) (n, r) =
     (case doPush serve (fates 2) endpoint body tok r of (err, r') \<Rightarrow> (PushDone err, n, r'))"
| "push_step js serve fates endpoint tok (PushDone err) (n, r) = (PushDone err, n, r)"

text \<open>Pushers of one controller on one replica. Issuing a configuration takes the next version; any
  pusher may take its next action at any time. The configurations are within the endpoint's size limit,
  and the counter, which starts at the time in milliseconds, is not at the end of its range.\<close>

record 'r push_system =
  ps_counter :: int
  ps_replica :: 'r
  ps_pushers :: "nat \<Rightarrow> PushPC"

inductive push_system_step ::
    "json_codec \<Rightarrow> 'r server \<Rightarrow> string \<Rightarrow> string \<Rightarrow> 'r push_system \<Rightarrow> 'r push_system \<Rightarrow> bool"
  for js serve endpoint tok where
  issue: "js_Encodable js cfg \<Longrightarrow> js_Marshal js (cfg \<lparr> cfg_Version := wrap64 (ps_counter s + 1) \<rparr>) = Some body \<Longrightarrow>
     length body \<le> maxConfigBodySize \<Longrightarrow> ps_counter s < 2 ^ 63 - 1 \<Longrightarrow> ps_pushers s p = PushDone err \<Longrightarrow>
     push_system_step js serve endpoint tok s
       (s \<lparr> ps_counter := wrap64 (ps_counter s + 1), ps_pushers := (ps_pushers s)(p := PushStart body) \<rparr>)"
| act: "push_step js serve fates endpoint tok (ps_pushers s p) (ps_counter s, ps_replica s) = (pc, n, r) \<Longrightarrow>
     push_system_step js serve endpoint tok s
       (s \<lparr> ps_counter := n, ps_replica := r, ps_pushers := (ps_pushers s)(p := pc) \<rparr>)"

inductive push_system_run ::
    "json_codec \<Rightarrow> 'r server \<Rightarrow> string \<Rightarrow> string \<Rightarrow> 'r push_system \<Rightarrow> 'r push_system \<Rightarrow> bool"
  for js serve endpoint tok where
  run_refl: "push_system_run js serve endpoint tok s s"
| run_step: "push_system_run js serve endpoint tok s t \<Longrightarrow> push_system_step js serve endpoint tok t u \<Longrightarrow>
     push_system_run js serve endpoint tok s u"


section \<open>What a pusher relies on\<close>

text \<open>The version of a replica changes only by a push that is accepted, to the version pushed, which is
  not below the one before; a conflict is answered only where it is; a read changes nothing and reports
  the version.\<close>

locale config_replica =
  fixes js :: json_codec and serve :: "'r server" and version :: "'r \<Rightarrow> int"
  assumes put_version:
      "url_Path (req_URL req) = ''/config'' \<Longrightarrow> req_Method req = ''PUT'' \<Longrightarrow>
       req_Body req = Some \<lparr> br_Data = data, br_Fails = False \<rparr> \<Longrightarrow> length data \<le> maxConfigBodySize \<Longrightarrow>
       js_Decode js data = JsonValue cfg \<Longrightarrow> serve r req = (resp, r') \<Longrightarrow>
       (if ar_Status resp = 200
        then version r' = cfg_Version cfg \<and> (cfg_Version cfg \<le> 0 \<or> version r \<le> cfg_Version cfg)
        else version r' = version r)
       \<and> (ar_Status resp = 409 \<longrightarrow> 0 < cfg_Version cfg \<and> cfg_Version cfg < version r)"
    and get_version:
      "url_Path (req_URL req) = ''/config'' \<Longrightarrow> req_Method req = ''GET'' \<Longrightarrow> codec_ok js \<Longrightarrow>
       serve r req = (resp, r') \<Longrightarrow>
       r' = r \<and> (ar_Status resp = 200 \<longrightarrow>
                  (\<exists>st. js_DecodeStatus js (ar_Body resp) = JsonValue st \<and> cs_Version st = version r))"
begin

lemma client_Do_put:
  assumes "url_Path (req_URL req) = ''/config''" "req_Method req = ''PUT''"
    "req_Body req = Some \<lparr> br_Data = data, br_Fails = False \<rparr>" "length data \<le> maxConfigBodySize"
    "js_Decode js data = JsonValue cfg" "client_Do serve fate req r = (res, r')"
  shows "(version r' = version r
          \<or> version r' = cfg_Version cfg \<and> (cfg_Version cfg \<le> 0 \<or> version r \<le> cfg_Version cfg))
       \<and> (\<forall>resp. res = Inr resp \<longrightarrow>
             (ar_Status resp = 200 \<longrightarrow> version r' = cfg_Version cfg)
             \<and> (ar_Status resp = 409 \<longrightarrow> version r' = version r \<and> cfg_Version cfg < version r))"
proof -
  obtain resp r1 where s: "serve r req = (resp, r1)" by force
  from put_version [OF assms(1-5) s] assms(6) s show ?thesis
    by (auto simp: client_Do_def split: NetFate.splits if_splits)
qed

lemma doPush_version:
  assumes "url_Parse endpoint = Some u" "url_Path u = ''/config''" "length body \<le> maxConfigBodySize"
    "js_Decode js body = JsonValue cfg" "doPush serve fate endpoint body tok r = (err, r')"
  shows "(version r' = version r
          \<or> version r' = cfg_Version cfg \<and> (cfg_Version cfg \<le> 0 \<or> version r \<le> cfg_Version cfg))
       \<and> (err = None \<longrightarrow> version r' = cfg_Version cfg)
       \<and> (\<forall>e. err = Some e \<and> errors_is e errStaleVersion \<longrightarrow>
             version r' = version r \<and> cfg_Version cfg < version r)"
proof -
  obtain req where req: "NewRequest ''PUT'' endpoint (Some body) = Some req"
    and "req_URL req = u" "req_Method req = ''PUT''" "req_Body req = Some \<lparr> br_Data = body, br_Fails = False \<rparr>"
    using assms(1) by (auto simp: NewRequest_def)
  then have q: "url_Path (req_URL (authorize tok (set_header ''Content-Type'' ''application/json'' req))) = ''/config''"
    "req_Method (authorize tok (set_header ''Content-Type'' ''application/json'' req)) = ''PUT''"
    "req_Body (authorize tok (set_header ''Content-Type'' ''application/json'' req))
       = Some \<lparr> br_Data = body, br_Fails = False \<rparr>"
    using assms(2) by (simp_all add: authorize_def set_header_def)
  obtain res r1 where c:
    "client_Do serve fate (authorize tok (set_header ''Content-Type'' ''application/json'' req)) r = (res, r1)"
    by force
  have "r' = r1" "err = (case res of Inl e \<Rightarrow> Some (Wrapped (InText ''send request'') e)
      | Inr resp \<Rightarrow> if ar_Status resp = 409 then Some (Wrapped (InText endpoint) (Sentinel errStaleVersion))
                else if ar_Status resp \<noteq> 200
                then Some (Wrapped (InText ''status'') (Sentinel errUnexpectedStatusCode)) else None)"
    using assms(5) req c by (auto simp: doPush_def split: sum.splits)
  moreover have "res = Inl e \<Longrightarrow> e = Sentinel errSendRequest" for e
    using c by (auto simp: client_Do_def split: NetFate.splits)
  ultimately show ?thesis
    using client_Do_put [OF q assms(3,4) c] by (auto split: sum.splits if_splits)
qed

lemma fetch_version:
  assumes "url_Parse endpoint = Some u" "url_Path u = ''/config''" "codec_ok js"
    "fetchProxyVersion js serve fate endpoint tok r = (res, r')"
  shows "r' = r \<and> (\<forall>v. res = Inr v \<longrightarrow> v = version r)"
proof -
  obtain req where req: "NewRequest ''GET'' endpoint None = Some req"
    and "req_URL req = u" "req_Method req = ''GET''" using assms(1) by (auto simp: NewRequest_def)
  then have q: "url_Path (req_URL (authorize tok req)) = ''/config''" "req_Method (authorize tok req) = ''GET''"
    using assms(2) by (simp_all add: authorize_def set_header_def)
  obtain resp r1 where s: "serve r (authorize tok req) = (resp, r1)" by force
  from get_version [OF q assms(3) s] assms(4) req s show ?thesis
    by (auto simp: fetchProxyVersion_def client_Do_def split: NetFate.splits if_splits json_read.splits)
qed

end


lemma wrap64_id: "- (2 ^ 63) \<le> n \<Longrightarrow> n < 2 ^ 63 \<Longrightarrow> wrap64 n = n"
  by (simp add: wrap64_def)

text \<open>No pusher is about to overwrite: the replica's version was issued by this process, and every
  pusher either has a body issued by it or has lost.\<close>

fun pusher_ok :: "json_codec \<Rightarrow> int \<Rightarrow> PushPC \<Rightarrow> bool" where
  "pusher_ok js n (PushStart body) \<longleftrightarrow>
     length body \<le> maxConfigBodySize
     \<and> (\<exists>cfg. js_Decode js body = JsonValue cfg \<and> 0 < cfg_Version cfg \<and> cfg_Version cfg \<le> n)"
| "pusher_ok js n (PushConflict body) \<longleftrightarrow> True"
| "pusher_ok js n (PushFetched body v) \<longleftrightarrow> v \<le> n"
| "pusher_ok js n (PushBump body v) \<longleftrightarrow> False"
| "pusher_ok js n (PushReissue body) \<longleftrightarrow> False"
| "pusher_ok js n (PushRetry body) \<longleftrightarrow> False"
| "pusher_ok js n (PushDone err) \<longleftrightarrow> True"

definition issued_here :: "json_codec \<Rightarrow> ('r \<Rightarrow> int) \<Rightarrow> 'r push_system \<Rightarrow> bool" where
  "issued_here js version s \<longleftrightarrow>
     0 \<le> ps_counter s \<and> version (ps_replica s) \<le> ps_counter s
     \<and> (\<forall>p. pusher_ok js (ps_counter s) (ps_pushers s p))"

lemma pusher_ok_mono: "pusher_ok js n pc \<Longrightarrow> n \<le> m \<Longrightarrow> pusher_ok js m pc"
  by (induction js n pc rule: pusher_ok.induct) auto

context config_replica
begin

lemma push_step_ok:
  assumes u: "url_Parse endpoint = Some u" "url_Path u = ''/config''" "codec_ok js"
    and ok: "version r \<le> n" "pusher_ok js n pc"
    and step: "push_step js serve fates endpoint tok pc (n, r) = (pc', n', r')"
  shows "n' = n \<and> version r \<le> version r' \<and> version r' \<le> n \<and> pusher_ok js n pc'"
proof (cases pc)
  case (PushStart body)
  obtain cfg where cfg: "length body \<le> maxConfigBodySize" "js_Decode js body = JsonValue cfg"
    "0 < cfg_Version cfg" "cfg_Version cfg \<le> n" using ok(2) PushStart by auto
  obtain err r1 where d: "doPush serve (fates 0) endpoint body tok r = (err, r1)" by force
  from doPush_version [OF u(1,2) cfg(1,2) d] step d cfg ok PushStart show ?thesis
    by (auto split: option.splits if_splits)
next
  case (PushConflict body)
  obtain res r1 where f: "fetchProxyVersion js serve (fates 1) endpoint tok r = (res, r1)" by force
  from fetch_version [OF u f] step f ok PushConflict show ?thesis
    by (auto split: sum.splits)
next
  case (PushFetched body v)
  then show ?thesis using ok step by auto
qed (use ok step in auto)

lemma system_step_ok:
  assumes u: "url_Parse endpoint = Some u" "url_Path u = ''/config''" "codec_ok js"
    and "issued_here js version s" and "push_system_step js serve endpoint tok s t"
  shows "issued_here js version t \<and> version (ps_replica s) \<le> version (ps_replica t)
       \<and> ps_counter s \<le> ps_counter t"
  using assms(5)
proof cases
  case (issue cfg body p err)
  have w: "wrap64 (ps_counter s + 1) = ps_counter s + 1"
    using issue(5) assms(4) by (intro wrap64_id) (auto simp: issued_here_def)
  obtain b where "js_Marshal js (cfg \<lparr> cfg_Version := wrap64 (ps_counter s + 1) \<rparr>) = Some b"
    "js_Decode js b = JsonValue (wire_config (cfg \<lparr> cfg_Version := wrap64 (ps_counter s + 1) \<rparr>))"
    using u(3) issue(2) unfolding codec_ok_def by blast
  with issue(3,4) w assms(4) have "pusher_ok js (ps_counter s + 1) (PushStart body)"
    by (simp add: wire_config_def issued_here_def)
  then show ?thesis
    using issue(1) w assms(4) pusher_ok_mono [of js "ps_counter s" _ "ps_counter s + 1"]
    by (auto simp: issued_here_def)
next
  case (act fates p pc n r)
  from push_step_ok [OF u _ _ act(2)] assms(4) act(1) show ?thesis
    by (auto simp: issued_here_def)
qed

lemma system_run_ok:
  assumes u: "url_Parse endpoint = Some u" "url_Path u = ''/config''" "codec_ok js"
    and "issued_here js version s" and "push_system_run js serve endpoint tok s t"
  shows "issued_here js version t \<and> version (ps_replica s) \<le> version (ps_replica t)"
  using assms(5,4)
proof (induction rule: push_system_run.induct)
  case (run_step s t w)
  then show ?case using system_step_ok [OF u _ run_step(2)] by (meson order_trans)
qed simp

end

section \<open>The configuration endpoint as a replica\<close>

lemma api_put_version:
  assumes "url_Path (req_URL req) = ''/config''" "req_Method req = ''PUT''"
    "req_Body req = Some \<lparr> br_Data = data, br_Fails = False \<rparr>" "length data \<le> maxConfigBodySize"
    "js_Decode js data = JsonValue cfg" "ConfigAPI_ServeHTTP env js api req = (resp, api')"
  shows "(if ar_Status resp = 200
          then ConfigVersion (api_router api') = cfg_Version cfg
               \<and> (cfg_Version cfg \<le> 0 \<or> ConfigVersion (api_router api) \<le> cfg_Version cfg)
          else ConfigVersion (api_router api') = ConfigVersion (api_router api))
       \<and> (ar_Status resp = 409 \<longrightarrow> 0 < cfg_Version cfg \<and> cfg_Version cfg < ConfigVersion (api_router api))"
proof -
  have d: "decode_body js (req_Body req) = Inr cfg"
    using assms(3-5) by (simp add: decode_body_def Let_def)
  have put: "handlePutConfig env js api req = (resp, api')"
    using assms(1,2,6) by (simp add: ConfigAPI_ServeHTTP_def)
  then show ?thesis
  proof (cases rule: put_config_cases)
    case (failed cfg' e)
    have "rs_table (api_router api') = rs_table (api_router api)"
      using pool_update_fields(1) [OF UpdateConfig_error [OF failed(2)]] by simp
    with failed d stale_error_iff [OF failed(2)] show ?thesis by (auto simp: ConfigVersion_def)
  next
    case (applied cfg')
    with d UpdateConfig_cases [OF applied(4)] show ?thesis by (auto simp: ConfigVersion_def)
  qed auto
qed

lemma api_get_version:
  assumes "url_Path (req_URL req) = ''/config''" "req_Method req = ''GET''" "codec_ok js"
    "ConfigAPI_ServeHTTP env js api req = (resp, api')"
  shows "api' = api \<and> (ar_Status resp = 200 \<longrightarrow>
           (\<exists>st. js_DecodeStatus js (ar_Body resp) = JsonValue st \<and> cs_Version st = ConfigVersion (api_router api)))"
proof -
  let ?st = "\<lparr> cs_Version = ConfigVersion (api_router api), cs_Ready = IsReady (api_router api) \<rparr>"
  obtain s where "js_MarshalStatus js ?st = Some s" "js_DecodeStatus js s = JsonValue ?st"
    using assms(3) unfolding codec_ok_def by blast
  with assms(1,2,4) show ?thesis
    by (auto simp: ConfigAPI_ServeHTTP_def handleGetConfig_def split: if_splits)
qed

interpretation api: config_replica js "ConfigAPI_ServeHTTP env js" "ConfigVersion \<circ> api_router"
  by unfold_locales (use api_put_version api_get_version in \<open>simp_all add: comp_def\<close>)

subsection \<open>A push that reaches the endpoint\<close>

lemma equal_fold_refl [simp]: "equal_fold s s"
  by (simp add: equal_fold_def)

lemma authorize_checkAuth: "tok \<noteq> '''' \<Longrightarrow> checkAuth tok (authorize tok req)"
  unfolding checkAuth_iff
  by (intro exI [of _ bearerPrefix]) (simp add: authorize_def set_header_def bearerPrefix_def)

lemma authorize_content_type:
  "header_Get (req_Header (authorize tok (set_header ''Content-Type'' v req))) ''Content-Type'' = v"
proof -
  have "canonical_key ''Authorization'' \<noteq> canonical_key ''Content-Type''" by code_simp
  then show ?thesis by (simp add: authorize_def set_header_def header_Get_def header_Values_Set)
qed

lemma doPush_api:
  assumes "url_Parse endpoint = Some u" "url_Path u = ''/config''" "length body \<le> maxConfigBodySize"
    "js_Decode js body = JsonValue cfg" "Config_Validate cfg = None"
    "UpdateConfig env (api_router api) cfg = (err, router')"
  shows "doPush (ConfigAPI_ServeHTTP env js) Delivered endpoint body (api_authToken api) api =
     ((case err of
         None \<Rightarrow> None
       | Some e \<Rightarrow> Some (if errors_is e errStaleVersion then Wrapped (InText endpoint) (Sentinel errStaleVersion)
                        else Wrapped (InText ''status'') (Sentinel errUnexpectedStatusCode))),
      api \<lparr> api_router := router' \<rparr>)"
proof -
  obtain req where req: "NewRequest ''PUT'' endpoint (Some body) = Some req" "req_URL req = u"
    "req_Method req = ''PUT''" "req_Body req = Some \<lparr> br_Data = body, br_Fails = False \<rparr>"
    using assms(1) by (auto simp: NewRequest_def)
  let ?req = "authorize (api_authToken api) (set_header ''Content-Type'' ''application/json'' req)"
  have q: "url_Path (req_URL ?req) = ''/config''" "req_Method ?req = ''PUT''"
    "req_Body ?req = Some \<lparr> br_Data = body, br_Fails = False \<rparr>"
    using req assms(2) by (simp_all add: authorize_def set_header_def)
  have d: "decode_body js (req_Body ?req) = Inr cfg"
    using q(3) assms(3,4) by (simp add: decode_body_def Let_def)
  have auth: "\<not> (api_authToken api \<noteq> '''' \<and> \<not> checkAuth (api_authToken api) ?req)"
    using authorize_checkAuth by blast
  have "ConfigAPI_ServeHTTP env js api ?req = handlePutConfig env js api ?req"
    using q by (simp add: ConfigAPI_ServeHTTP_def)
  also have "\<dots> = (case UpdateConfig env (api_router api) cfg of
             (Some e, router') \<Rightarrow>
               (if errors_is e errStaleVersion then http_Error ''stale config version'' 409
                else http_Error ''internal server error'' 500, api \<lparr> api_router := router' \<rparr>)
           | (None, router') \<Rightarrow> (http_Status 200, api \<lparr> api_router := router' \<rparr>))"
    unfolding handlePutConfig_def if_not_P [OF auth] using d assms(5) by (simp add: authorize_content_type)
  finally show ?thesis
    using req(1) assms(6) by (auto simp: doPush_def client_Do_def split: option.splits)
qed

lemma fetch_api:
  assumes "url_Parse endpoint = Some u" "url_Path u = ''/config''" "codec_ok js"
  shows "fetchProxyVersion js (ConfigAPI_ServeHTTP env js) Delivered endpoint (api_authToken api) api =
           (Inr (ConfigVersion (api_router api)), api)"
proof -
  obtain req where req: "NewRequest ''GET'' endpoint None = Some req" "req_URL req = u" "req_Method req = ''GET''"
    using assms(1) by (auto simp: NewRequest_def)
  let ?req = "authorize (api_authToken api) req"
  let ?st = "\<lparr> cs_Version = ConfigVersion (api_router api), cs_Ready = IsReady (api_router api) \<rparr>"
  obtain s where s: "js_MarshalStatus js ?st = Some s" "js_DecodeStatus js s = JsonValue ?st"
    using assms(3) unfolding codec_ok_def by blast
  have auth: "\<not> (api_authToken api \<noteq> '''' \<and> \<not> checkAuth (api_authToken api) ?req)"
    using authorize_checkAuth by blast
  have "handleGetConfig js api ?req = \<lparr> ar_Status = 200, ar_ContentType = ''application/json'', ar_Body = s \<rparr>"
    unfolding handleGetConfig_def if_not_P [OF auth] using s(1) by simp
  moreover have "url_Path (req_URL ?req) = ''/config''" "req_Method ?req = ''GET''"
    using req assms(2) by (simp_all add: authorize_def set_header_def)
  ultimately have "ConfigAPI_ServeHTTP env js api ?req =
      (\<lparr> ar_Status = 200, ar_ContentType = ''application/json'', ar_Body = s \<rparr>, api)"
    by (simp add: ConfigAPI_ServeHTTP_def)
  with req(1) s(2) show ?thesis by (simp add: fetchProxyVersion_def client_Do_def)
qed

lemma UpdateConfig_succeeds:
  assumes "wf_config cfg" and "rs_pool st \<noteq> None"
    and "\<forall>r \<in> set (cfg_Rules cfg). \<forall>m \<in> set (rule_Matches r). match_regexps_ok (env_re_compile env) m"
    and "cfg_Version cfg \<le> 0 \<or> ConfigVersion st \<le> cfg_Version cfg"
  obtains st' where "UpdateConfig env st cfg = (None, st')" "ConfigVersion st' = cfg_Version cfg"
    "compileRoutingTable (env_re_compile env) (env_iter env) True cfg = Inr (rs_table st')"
proof -
  obtain t where t: "compileRoutingTable (env_re_compile env) (env_iter env) True cfg = Inr t"
    "rt_version t = cfg_Version cfg" using compile_config_total [OF assms(1,3)] by blast
  have guards: "\<not> (cfg_Version cfg > 0 \<and> cfg_Version cfg < ConfigVersion st)"
    "\<not> (rs_pool st = None \<and> configHasTLSMirror cfg)" "(rs_pool st \<noteq> None) = True"
    using assms(2,4) by auto
  have "fst (UpdateConfig env st cfg) = None"
    unfolding UpdateConfig_def Let_def if_not_P [OF guards(1)] if_not_P [OF guards(2)] guards(3) t(1) by simp
  then obtain st' where u: "UpdateConfig env st cfg = (None, st')" by (metis prod.collapse)
  have "rs_table st' = t"
    by (rule UpdateConfig_ok [OF u]) (use t(1) guards(3) in simp)
  then show thesis using that [OF u] t by (simp add: ConfigVersion_def)
qed

lemma UpdateConfig_stale:
  assumes "0 < cfg_Version cfg" and "cfg_Version cfg < ConfigVersion st"
  shows "UpdateConfig env st cfg = (Some (Wrapped (InText ''version'') (Sentinel errStaleVersion)), st)"
  using assms by (simp add: UpdateConfig_def)

lemma wf_reissued:
  "wf_config cfg \<Longrightarrow> 0 \<le> v \<Longrightarrow> wf_config ((wire_config cfg) \<lparr> cfg_Version := v \<rparr>)"
  by (simp add: wf_config_def wire_config_def)

lemma wf_wire: "wf_config cfg \<Longrightarrow> wf_config (wire_config cfg)"
  by (simp add: wf_config_def wire_config_def)

lemma wire_fields [simp]:
  "cfg_Version (wire_config cfg) = cfg_Version cfg" "cfg_Rules (wire_config cfg) = cfg_Rules cfg"
  "wire_config (wire_config cfg) = wire_config cfg"
  "wire_config (cfg \<lparr> cfg_Version := v \<rparr>) = (wire_config cfg) \<lparr> cfg_Version := v \<rparr>"
  by (simp_all add: wire_config_def)

section \<open>Properties\<close>

text \<open>C10: concurrent pushes of one controller never roll a replica back. Start with a replica whose
  version this process has issued and no push under way. Then in every interleaving of issues and
  pushes, with any losses on the network, the replica's version never decreases and stays one this
  process has issued, and no pusher ever re-issues its payload under a new version.\<close>

theorem concurrent_push_never_rolls_back:
  assumes "url_Parse endpoint = Some u" and "url_Path u = ''/config''" and "codec_ok js"
    and "0 \<le> ps_counter s" and "ConfigVersion (api_router (ps_replica s)) \<le> ps_counter s"
    and "\<forall>p. \<exists>err. ps_pushers s p = PushDone err"
    and "push_system_run js (ConfigAPI_ServeHTTP env js) endpoint tok s t"
  shows "ConfigVersion (api_router (ps_replica s)) \<le> ConfigVersion (api_router (ps_replica t))
         \<and> ConfigVersion (api_router (ps_replica t)) \<le> ps_counter t
         \<and> (\<forall>p body v. ps_pushers t p \<noteq> PushBump body v \<and> ps_pushers t p \<noteq> PushReissue body
               \<and> ps_pushers t p \<noteq> PushRetry body)"
proof -
  have "issued_here js (ConfigVersion \<circ> api_router) s"
    unfolding issued_here_def using assms(4,5,6) by (metis comp_apply pusher_ok.simps(7))
  from api.system_run_ok [OF assms(1-3) this assms(7)] show ?thesis
    by (auto simp: issued_here_def) (metis pusher_ok.simps(4-6))+
qed


text \<open>The push as written is a run of its atomic actions: six of them always end it, with the error
  and the state \<^verbatim>\<open>pushToEndpoint\<close> returns.\<close>

theorem push_is_six_actions:
  "\<exists>err st'. ((\<lambda>(pc, st). push_step js serve fates endpoint tok pc st) ^^ 6) (PushStart body, n, r)
       = (PushDone err, st')
     \<and> pushToEndpoint js serve fates endpoint body tok (n, r) = (\<lparr> pr_Endpoint = endpoint, pr_Err = err \<rparr>, st')"
  by (simp add: pushToEndpoint_def eval_nat_numeral Let_def split: prod.splits option.splits sum.splits)

text \<open>C11: a push that reaches a replica with its token ends in one of three ways. A version the replica
  does not find stale is installed. A stale one is abandoned with the lost-race error where the replica
  runs a version this process may have issued. Where the replica runs a version above the counter, left
  by a controller whose clock was ahead, the push is delivered all the same, under a version above both.\<close>

theorem push_outcome:
  assumes "url_Parse endpoint = Some u" and "url_Path u = ''/config''" and "codec_ok js"
    and "js_Encodable js cfg" and "js_Marshal js cfg = Some body" and "length body \<le> maxConfigBodySize"
    and "\<forall>b. js_Marshal js ((wire_config cfg) \<lparr> cfg_Version := ConfigVersion (api_router api) + 2 \<rparr>) = Some b \<longrightarrow>
           length b \<le> maxConfigBodySize"
    and "wf_config cfg" and "rs_pool (api_router api) \<noteq> None"
    and "\<forall>r \<in> set (cfg_Rules cfg). \<forall>m \<in> set (rule_Matches r). match_regexps_ok (env_re_compile env) m"
    and "ConfigVersion (api_router api) + 2 < 2 ^ 63"
    and "pushToEndpoint js (ConfigAPI_ServeHTTP env js) (\<lambda>_. Delivered) endpoint body (api_authToken api)
           (counter, api) = (res, counter', api')"
  shows "if cfg_Version cfg = 0 \<or> ConfigVersion (api_router api) \<le> cfg_Version cfg
         then pr_Err res = None \<and> counter' = counter \<and> ConfigVersion (api_router api') = cfg_Version cfg
              \<and> compileRoutingTable (env_re_compile env) (env_iter env) True (wire_config cfg)
                  = Inr (rs_table (api_router api'))
         else if ConfigVersion (api_router api) \<le> counter
         then pr_Err res = Some (Wrapped (InText endpoint) (Sentinel ErrLostConfigPushRace))
              \<and> counter' = counter \<and> api' = api
         else pr_Err res = None \<and> counter' = ConfigVersion (api_router api) + 2
              \<and> compileRoutingTable (env_re_compile env) (env_iter env) True
                  ((wire_config cfg) \<lparr> cfg_Version := ConfigVersion (api_router api) + 2 \<rparr>)
                  = Inr (rs_table (api_router api'))"
proof -
  let ?V = "ConfigVersion (api_router api)" and ?serve = "ConfigAPI_ServeHTTP env js"
  have body: "js_Decode js body = JsonValue (wire_config cfg)" "js_Unmarshal js body = Some (wire_config cfg)"
    using assms(3,4,5) unfolding codec_ok_def by auto
  have valid: "Config_Validate (wire_config cfg) = None" "0 \<le> cfg_Version cfg"
    using assms(8) by (simp_all add: Config_Validate_iff wf_wire wf_config_def)
  note push = doPush_api [OF assms(1,2,6) body(1) valid(1)]
  show ?thesis
  proof (cases "cfg_Version cfg = 0 \<or> ?V \<le> cfg_Version cfg")
    case True
    obtain st where "UpdateConfig env (api_router api) (wire_config cfg) = (None, st)"
      "ConfigVersion st = cfg_Version cfg"
      "compileRoutingTable (env_re_compile env) (env_iter env) True (wire_config cfg) = Inr (rs_table st)"
      by (rule UpdateConfig_succeeds [OF wf_wire [OF assms(8)] assms(9), of env]) (use True assms(10) in auto)
    with True assms(12) push [of env api] show ?thesis by (auto simp: pushToEndpoint_def)
  next
    case False
    then have stale: "0 < cfg_Version cfg" "cfg_Version cfg < ?V" using valid(2) by auto
    have first: "doPush ?serve Delivered endpoint body (api_authToken api) api =
        (Some (Wrapped (InText endpoint) (Sentinel errStaleVersion)), api)"
      using push [of env api] UpdateConfig_stale [of "wire_config cfg" "api_router api" env] stale by simp
    show ?thesis
    proof (cases "?V \<le> counter")
      case True
      with assms(12) first fetch_api [OF assms(1-3)] False stale show ?thesis
        by (auto simp: pushToEndpoint_def)
    next
      case skew: False
      let ?retry = "(wire_config cfg) \<lparr> cfg_Version := ?V + 2 \<rparr>"
      have w: "wrap64 (?V + 1) = ?V + 1" "wrap64 (?V + 2) = ?V + 2"
        using stale assms(11) by (auto intro!: wrap64_id)
      obtain b where b: "js_Marshal js ?retry = Some b" "js_Decode js b = JsonValue ?retry"
        using assms(3,4) unfolding codec_ok_def by (metis wire_fields(3,4))
      have "Config_Validate ?retry = None"
        using wf_reissued [OF assms(8)] stale by (simp add: Config_Validate_iff)
      moreover obtain st where "UpdateConfig env (api_router api) ?retry = (None, st)"
        "compileRoutingTable (env_re_compile env) (env_iter env) True ?retry = Inr (rs_table st)"
        by (rule UpdateConfig_succeeds [OF wf_reissued [OF assms(8)] assms(9), of "?V + 2" env])
          (use stale assms(10) in auto)
      ultimately have second: "doPush ?serve Delivered endpoint b (api_authToken api) api =
            (None, api \<lparr> api_router := st \<rparr>)"
        and t: "compileRoutingTable (env_re_compile env) (env_iter env) True ?retry = Inr (rs_table st)"
        using doPush_api [OF assms(1,2) _ b(2), of env api None st] assms(7) b(1) by auto
      have "bumpVersionCounter ?V counter = ?V + 1" using skew w(1) by (simp add: bumpVersionCounter_def)
      with assms(12) first fetch_api [OF assms(1-3), of env api] body(2) w(2) skew b(1) second
      have "res = \<lparr> pr_Endpoint = endpoint, pr_Err = None \<rparr>" "counter' = ?V + 2"
        "api' = api \<lparr> api_router := st \<rparr>"
        by (simp_all add: pushToEndpoint_def add.assoc)
      with t skew False show ?thesis by simp
    qed
  qed
qed

text \<open>Two pushers, written out.\<close>

definition two_pushers :: "int \<Rightarrow> 'r \<Rightarrow> PushPC \<Rightarrow> PushPC \<Rightarrow> 'r push_system" where
  "two_pushers n r a b =
     \<lparr> ps_counter = n, ps_replica = r, ps_pushers = (\<lambda>_. PushDone None)(0 := a, 1 := b) \<rparr>"

lemma two_pushers_act:
  assumes "push_system_run js serve endpoint tok s (two_pushers n r a b)"
  shows "push_step js serve fates endpoint tok a (n, r) = (a', n', r') \<Longrightarrow>
           push_system_run js serve endpoint tok s (two_pushers n' r' a' b)"
    and "push_step js serve fates endpoint tok b (n, r) = (b', n', r') \<Longrightarrow>
           push_system_run js serve endpoint tok s (two_pushers n' r' a b')"
proof -
  let ?s = "two_pushers n r a b"
  assume "push_step js serve fates endpoint tok a (n, r) = (a', n', r')"
  then have "push_system_step js serve endpoint tok ?s
      (?s \<lparr> ps_counter := n', ps_replica := r', ps_pushers := (ps_pushers ?s)(0 := a') \<rparr>)"
    by (intro act [where fates = fates]) (simp add: two_pushers_def)
  moreover have "?s \<lparr> ps_counter := n', ps_replica := r', ps_pushers := (ps_pushers ?s)(0 := a') \<rparr>
      = two_pushers n' r' a' b" by (simp add: two_pushers_def fun_upd_twist)
  ultimately show "push_system_run js serve endpoint tok s (two_pushers n' r' a' b)"
    using assms by (auto intro: run_step)
next
  let ?s = "two_pushers n r a b"
  assume "push_step js serve fates endpoint tok b (n, r) = (b', n', r')"
  then have "push_system_step js serve endpoint tok ?s
      (?s \<lparr> ps_counter := n', ps_replica := r', ps_pushers := (ps_pushers ?s)(1 := b') \<rparr>)"
    by (intro act [where fates = fates]) (simp add: two_pushers_def)
  moreover have "?s \<lparr> ps_counter := n', ps_replica := r', ps_pushers := (ps_pushers ?s)(1 := b') \<rparr>
      = two_pushers n' r' a b'" by (simp add: two_pushers_def)
  ultimately show "push_system_run js serve endpoint tok s (two_pushers n' r' a b')"
    using assms by (auto intro: run_step)
qed

lemma two_pushers_issue:
  assumes "js_Encodable js cfgA" "js_Encodable js cfgB" "0 \<le> n" "n + 2 < 2 ^ 63"
    "js_Marshal js (cfgA \<lparr> cfg_Version := n + 1 \<rparr>) = Some bodyA" "length bodyA \<le> maxConfigBodySize"
    "js_Marshal js (cfgB \<lparr> cfg_Version := n + 2 \<rparr>) = Some bodyB" "length bodyB \<le> maxConfigBodySize"
  shows "push_system_run js serve endpoint tok (two_pushers n r (PushDone None) (PushDone None))
           (two_pushers (n + 2) r (PushStart bodyA) (PushStart bodyB))"
proof -
  let ?s = "two_pushers n r (PushDone None) (PushDone None)"
  let ?t = "two_pushers (n + 1) r (PushStart bodyA) (PushDone None)"
  have n2: "n + 1 + 1 = n + 2" by simp
  have w: "wrap64 (n + 1) = n + 1" "wrap64 (n + 1 + 1) = n + 2"
    unfolding n2 using assms(3,4) by (simp_all add: wrap64_id)
  have f: "ps_pushers ?s 0 = PushDone None" "ps_pushers ?t 1 = PushDone None" "ps_counter ?s = n"
    "ps_counter ?t = n + 1" by (simp_all add: two_pushers_def)
  have "push_system_step js serve endpoint tok ?s
      (?s \<lparr> ps_counter := wrap64 (ps_counter ?s + 1), ps_pushers := (ps_pushers ?s)(0 := PushStart bodyA) \<rparr>)"
    by (rule issue [OF assms(1)]) (use assms w f in auto)
  moreover have "?s \<lparr> ps_counter := wrap64 (ps_counter ?s + 1), ps_pushers := (ps_pushers ?s)(0 := PushStart bodyA) \<rparr>
      = ?t" by (simp add: two_pushers_def fun_upd_twist w)
  ultimately have 1: "push_system_step js serve endpoint tok ?s ?t" by simp
  have "push_system_step js serve endpoint tok ?t
      (?t \<lparr> ps_counter := wrap64 (ps_counter ?t + 1), ps_pushers := (ps_pushers ?t)(1 := PushStart bodyB) \<rparr>)"
    by (rule issue [OF assms(2)]) (use assms w f in auto)
  moreover have "?t \<lparr> ps_counter := wrap64 (ps_counter ?t + 1), ps_pushers := (ps_pushers ?t)(1 := PushStart bodyB) \<rparr>
      = two_pushers (n + 2) r (PushStart bodyA) (PushStart bodyB)"
    unfolding f(4) w(2) by (simp add: two_pushers_def)
  ultimately show ?thesis using 1 by (metis run_refl run_step)
qed

text \<open>Both pushers meet a replica whose version is above the counter; the second takes its new version
  first and lands first.\<close>

lemma skewed_race:
  fixes api :: ConfigAPI and env :: RouterEnv and js :: json_codec
  defines "V \<equiv> ConfigVersion (api_router api)" and "serve \<equiv> ConfigAPI_ServeHTTP env js"
  assumes u: "url_Parse endpoint = Some u" "url_Path u = ''/config''" "codec_ok js"
    and pool: "rs_pool (api_router api) \<noteq> None"
    and n: "0 \<le> n" "n + 2 < V" "V + 3 < 2 ^ 63"
    and cfg: "\<And>c. c \<in> {cfgA, cfgB} \<Longrightarrow> js_Encodable js c \<and> wire_config c = c \<and> wf_config c
               \<and> (\<forall>r \<in> set (cfg_Rules c). \<forall>m \<in> set (rule_Matches r). match_regexps_ok (env_re_compile env) m)"
    and fits: "\<And>c v b. c \<in> {cfgA, cfgB} \<Longrightarrow> 0 \<le> v \<Longrightarrow> v \<le> V + 3 \<Longrightarrow>
                 js_Marshal js (c \<lparr> cfg_Version := v \<rparr>) = Some b \<Longrightarrow> length b \<le> maxConfigBodySize"
    and a: "js_Marshal js (cfgA \<lparr> cfg_Version := n + 1 \<rparr>) = Some a"
    and b: "js_Marshal js (cfgB \<lparr> cfg_Version := n + 2 \<rparr>) = Some b"
  shows "\<exists>api'. push_system_run js serve endpoint (api_authToken api)
             (two_pushers (n + 2) api (PushStart a) (PushStart b))
             (two_pushers (V + 3) api' (PushDone None) (PushDone None))
           \<and> compileRoutingTable (env_re_compile env) (env_iter env) True (cfgA \<lparr> cfg_Version := V + 3 \<rparr>)
               = Inr (rs_table (api_router api'))"
proof -
  let ?step = "\<lambda>pc st. push_step js serve (\<lambda>_. Delivered) endpoint (api_authToken api) pc st"
  have code: "js_Decode js x = JsonValue (c \<lparr> cfg_Version := v \<rparr>)" "js_Unmarshal js x = Some (c \<lparr> cfg_Version := v \<rparr>)"
    if "c \<in> {cfgA, cfgB}" "js_Marshal js (c \<lparr> cfg_Version := v \<rparr>) = Some x" for c v x
    using u(3) cfg [OF that(1)] that(2) unfolding codec_ok_def by (metis option.inject wire_fields(4))+
  have valid: "Config_Validate (c \<lparr> cfg_Version := v \<rparr>) = None" if "c \<in> {cfgA, cfgB}" "0 \<le> v" for c v
    using wf_reissued [of c v] cfg [OF that(1)] that(2) by (simp add: Config_Validate_iff)
  have stale: "?step (PushStart x) (m, api) = (PushConflict x, m, api)"
    if "c \<in> {cfgA, cfgB}" "js_Marshal js (c \<lparr> cfg_Version := v \<rparr>) = Some x" "0 < v" "v < V" for c v x m
    using doPush_api [OF u(1,2) fits [OF that(1) _ _ that(2)] code(1) [OF that(1,2)] valid [OF that(1)],
        of env api] UpdateConfig_stale [of "c \<lparr> cfg_Version := v \<rparr>" "api_router api" env] that(3,4)
    by (simp add: serve_def V_def)
  have fetch: "?step (PushConflict x) (m, api) = (PushFetched x V, m, api)" for x m
    using fetch_api [OF u, of env api] by (simp add: serve_def V_def)
  have w: "wrap64 (V + 1) = V + 1" "wrap64 (V + 2) = V + 2" "wrap64 (V + 3) = V + 3"
    using n by (auto intro!: wrap64_id)
  have land: "\<exists>r'. ?step (PushRetry x) (m, r) = (PushDone None, m, r')
        \<and> api_authToken r' = api_authToken api \<and> rs_pool (api_router r') \<noteq> None
        \<and> ConfigVersion (api_router r') = v
        \<and> compileRoutingTable (env_re_compile env) (env_iter env) True (c \<lparr> cfg_Version := v \<rparr>)
            = Inr (rs_table (api_router r'))"
    if prem: "c \<in> {cfgA, cfgB}" "js_Marshal js (c \<lparr> cfg_Version := v \<rparr>) = Some x" "0 \<le> v" "v \<le> V + 3"
      "ConfigVersion (api_router r) \<le> v" "api_authToken r = api_authToken api" "rs_pool (api_router r) \<noteq> None"
    for c v x m r
  proof -
    have wf: "wf_config (c \<lparr> cfg_Version := v \<rparr>)"
      using valid [OF prem(1,3)] by (simp add: Config_Validate_iff)
    obtain st where st: "UpdateConfig env (api_router r) (c \<lparr> cfg_Version := v \<rparr>) = (None, st)"
      "ConfigVersion st = v" "compileRoutingTable (env_re_compile env) (env_iter env) True
         (c \<lparr> cfg_Version := v \<rparr>) = Inr (rs_table st)"
      by (rule UpdateConfig_succeeds [OF wf prem(7), of env]) (use cfg [OF prem(1)] prem(5) in auto)
    have "rs_pool st \<noteq> None" by (rule UpdateConfig_ok [OF st(1)]) (use prem(7) in simp)
    then show ?thesis
      using doPush_api [OF u(1,2) fits [OF prem(1,3,4,2)] code(1) [OF prem(1,2)] valid [OF prem(1,3)] st(1)]
        st(2,3) prem(6)
      by (intro exI [of _ "r \<lparr> api_router := st \<rparr>"]) (simp add: serve_def)
  qed
  obtain a' where a': "js_Marshal js (cfgA \<lparr> cfg_Version := V + 3 \<rparr>) = Some a'"
    using u(3) cfg [of cfgA] unfolding codec_ok_def by (meson insertI1)
  obtain b' where b': "js_Marshal js (cfgB \<lparr> cfg_Version := V + 2 \<rparr>) = Some b'"
    using u(3) cfg [of cfgB] unfolding codec_ok_def by (meson insertI1 insertI2)
  obtain r1 where r1: "?step (PushRetry b') (V + 3, api) = (PushDone None, V + 3, r1)"
    "api_authToken r1 = api_authToken api" "rs_pool (api_router r1) \<noteq> None" "ConfigVersion (api_router r1) = V + 2"
    using land [OF _ b', of api "V + 3"] n pool by (auto simp: V_def)
  obtain r2 where r2: "?step (PushRetry a') (V + 3, r1) = (PushDone None, V + 3, r2)"
    "compileRoutingTable (env_re_compile env) (env_iter env) True (cfgA \<lparr> cfg_Version := V + 3 \<rparr>)
       = Inr (rs_table (api_router r2))"
    using land [OF _ a', of r1 "V + 3"] n r1 by auto
  note go = two_pushers_act [where fates = "\<lambda>_. Delivered"]
  let ?run = "push_system_run js serve endpoint (api_authToken api)
                (two_pushers (n + 2) api (PushStart a) (PushStart b))"
  have "?run (two_pushers (n + 2) api (PushConflict a) (PushConflict b))"
    by (rule go(2) [OF go(1) [OF run_refl]]) (use stale [OF _ a] stale [OF _ b] n in auto)
  then have "?run (two_pushers (n + 2) api (PushFetched a V) (PushFetched b V))"
    by (rule go(2) [OF go(1)]) (rule fetch)+
  then have "?run (two_pushers (n + 2) api (PushBump a V) (PushBump b V))"
    by (rule go(2) [OF go(1)]) (use n in auto)
  then have "?run (two_pushers (V + 1) api (PushReissue a) (PushReissue b))"
    by (rule go(2) [OF go(1)]) (use n w in \<open>auto simp: bumpVersionCounter_def\<close>)
  then have "?run (two_pushers (V + 3) api (PushRetry a') (PushRetry b'))"
    by (rule go(1) [OF go(2) [where n' = "V + 2" and r' = api]])
      (use code(2) [OF _ a] code(2) [OF _ b] a' b' w in \<open>auto simp: add.assoc\<close>)
  then have "?run (two_pushers (V + 3) r2 (PushDone None) (PushDone None))"
    by (rule go(1) [OF go(2)]) (use r1 r2 in auto)
  with r2(2) show ?thesis by blast
qed

text \<open>A codec for two kinds of configuration, with no rule and with one rule that serves everything: the
  version in unary and the kind.\<close>

definition tiny_config :: "bool \<Rightarrow> int \<Rightarrow> Config" where
  "tiny_config catch_all v =
     \<lparr> cfg_Version = v, cfg_Rules = (if catch_all then [sample_rule [] []] else []), cfg_HasGRPCRoute = False,
       cfg_Diagnostics = [], cfg_Provenance = [] \<rparr>"

definition unary :: "bool \<Rightarrow> int \<Rightarrow> string" where
  "unary flag v =
     (if flag then ''t'' else ''f'') @ (if v < 0 then ''-'' else ''+'') @ replicate (nat \<bar>v\<bar>) (CHR ''1'')"

definition unary_flag :: "string \<Rightarrow> bool" where
  "unary_flag s = (hd s = CHR ''t'')"

definition unary_value :: "string \<Rightarrow> int" where
  "unary_value s = (if s ! 1 = CHR ''-'' then - int (length s - 2) else int (length s - 2))"

lemma unary_read [simp]: "unary_flag (unary flag v) = flag" "unary_value (unary flag v) = v"
  by (auto simp: unary_def unary_flag_def unary_value_def)

definition tiny_codec :: json_codec where
  "tiny_codec =
     \<lparr> js_Encodable = (\<lambda>cfg. \<exists>k. wire_config cfg = tiny_config k (cfg_Version cfg)),
       js_Marshal = (\<lambda>cfg. Some (unary (cfg_Rules cfg \<noteq> []) (cfg_Version cfg))),
       js_Decode = (\<lambda>s. JsonValue (tiny_config (unary_flag s) (unary_value s))),
       js_Unmarshal = (\<lambda>s. Some (tiny_config (unary_flag s) (unary_value s))),
       js_MarshalStatus = (\<lambda>st. Some (unary (cs_Ready st) (cs_Version st))),
       js_DecodeStatus = (\<lambda>s. JsonValue \<lparr> cs_Version = unary_value s, cs_Ready = unary_flag s \<rparr>) \<rparr>"

lemma tiny_codec_ok: "codec_ok tiny_codec"
proof -
  have "tiny_config (cfg_Rules cfg \<noteq> []) (cfg_Version cfg) = wire_config cfg"
    if "wire_config cfg = tiny_config k (cfg_Version cfg)" for cfg k
    using that by (cases cfg) (auto simp: tiny_config_def wire_config_def split: if_splits)
  moreover have "\<exists>k. wire_config (cfg \<lparr> cfg_Version := v \<rparr>) = tiny_config k v"
    if "wire_config cfg = tiny_config k (cfg_Version cfg)" for cfg k v
    using that by (cases cfg) (auto simp: tiny_config_def wire_config_def)
  ultimately show ?thesis by (auto simp: codec_ok_def tiny_codec_def)
qed


lemma tiny_codec_Marshal: "js_Marshal tiny_codec cfg = Some (unary (cfg_Rules cfg \<noteq> []) (cfg_Version cfg))"
  by (simp add: tiny_codec_def)

lemma tiny_codec_fits: "\<bar>v\<bar> \<le> 100 \<Longrightarrow> length (unary k v) \<le> maxConfigBodySize"
  by (auto simp: unary_def maxConfigBodySize_def nat_le_iff)

lemma tiny_config_fields:
  "js_Encodable tiny_codec (tiny_config k v)" "wire_config (tiny_config k v) = tiny_config k v"
  "0 \<le> v \<Longrightarrow> wf_config (tiny_config k v)" "(tiny_config k v) \<lparr> cfg_Version := w \<rparr> = tiny_config k w"
  "cfg_Version (tiny_config k v) = v" "cfg_Rules (tiny_config k v) = (if k then [sample_rule [] []] else [])"
  by (auto simp: tiny_codec_def tiny_config_def wire_config_def wf_config_def sample_rule_def wf_rule_def)

lemma tiny_config_regexps:
  "\<forall>r \<in> set (cfg_Rules (tiny_config k v)). \<forall>m \<in> set (rule_Matches r). match_regexps_ok re m"
  by (auto simp: tiny_config_def sample_rule_def)

definition sample_endpoint :: string where
  "sample_endpoint = ''http://p/config''"

lemma sample_endpoint_url:
  "url_Parse sample_endpoint = Some (empty_url \<lparr> url_Scheme := ''http'', url_Host := ''p'', url_Path := ''/config'' \<rparr>)"
  by code_simp

definition sample_replica :: "int \<Rightarrow> ConfigAPI" where
  "sample_replica v =
     NewConfigAPI (SetHandler (NewRouter \<lparr> rs_table := (rs_table NewRouter) \<lparr> rt_version := v \<rparr> \<rparr>) Map.empty) ''''"

lemma sample_replica_fields [simp]:
  "ConfigVersion (api_router (sample_replica v)) = v" "rs_pool (api_router (sample_replica v)) \<noteq> None"
  "api_authToken (sample_replica v) = ''''"
  by (simp_all add: sample_replica_def NewConfigAPI_def SetHandler_def ConfigVersion_def)

theorem concurrent_push_never_rolls_back_witness:
  "\<exists>t. push_system_run tiny_codec (ConfigAPI_ServeHTTP sample_env tiny_codec) sample_endpoint ''''
         (two_pushers 5 (sample_replica 3) (PushDone None) (PushDone None)) t
     \<and> ps_counter t = 7 \<and> ConfigVersion (api_router (ps_replica t)) \<le> 7"
proof -
  let ?s = "two_pushers 5 (sample_replica 3) (PushDone None) (PushDone None)"
  let ?t = "two_pushers 7 (sample_replica 3) (PushStart (unary False 6)) (PushStart (unary True 7))"
  have "push_system_run tiny_codec (ConfigAPI_ServeHTTP sample_env tiny_codec) sample_endpoint ''''
      (two_pushers 5 (sample_replica 3) (PushDone None) (PushDone None))
      (two_pushers (5 + 2) (sample_replica 3) (PushStart (unary False 6)) (PushStart (unary True 7)))"
    by (rule two_pushers_issue [of _ "tiny_config False 0" "tiny_config True 0"])
      (simp_all add: tiny_config_fields tiny_codec_Marshal tiny_codec_fits)
  then have run: "push_system_run tiny_codec (ConfigAPI_ServeHTTP sample_env tiny_codec) sample_endpoint '''' ?s ?t"
    by simp
  have "\<forall>p. \<exists>err. ps_pushers ?s p = PushDone err" by (simp add: two_pushers_def)
  with concurrent_push_never_rolls_back [OF sample_endpoint_url _ tiny_codec_ok _ _ _ run]
  have "ConfigVersion (api_router (ps_replica ?t)) \<le> ps_counter ?t" by (simp add: two_pushers_def)
  with run show ?thesis by (intro exI [of _ ?t]) (simp add: two_pushers_def)
qed

theorem push_outcome_witness:
  "\<exists>res api'. pushToEndpoint tiny_codec (ConfigAPI_ServeHTTP sample_env tiny_codec) (\<lambda>_. Delivered)
       sample_endpoint (unary True 6) '''' (6, sample_replica 9) = (res, 11, api')
     \<and> pr_Err res = None"
proof -
  obtain res c api' where p: "pushToEndpoint tiny_codec (ConfigAPI_ServeHTTP sample_env tiny_codec) (\<lambda>_. Delivered)
       sample_endpoint (unary True 6) (api_authToken (sample_replica 9)) (6, sample_replica 9) = (res, c, api')"
    by (metis prod_cases3)
  have "pr_Err res = None \<and> c = 11"
    using push_outcome [of sample_endpoint _ tiny_codec "tiny_config True 6" "unary True 6" "sample_replica 9"
        sample_env 6 res c api', OF sample_endpoint_url _ tiny_codec_ok] p
    by (simp add: tiny_config_fields tiny_codec_Marshal tiny_codec_fits tiny_config_regexps)
  with p show ?thesis by auto
qed

text \<open>C12: where a replica runs a version above the counter, two concurrent pushes can leave it with the
  older of their configurations, and both report success: the check of the version and the new version
  are not one action. Here the first pusher carries version 6, with no rule, and the second version 7,
  with a rule that serves everything; the replica ends with the rules of the first.\<close>

theorem skewed_pushes_can_roll_back:
  "\<exists>api'. push_system_run tiny_codec (ConfigAPI_ServeHTTP sample_env tiny_codec) sample_endpoint ''''
       (two_pushers 7 (sample_replica 9) (PushStart (unary False 6)) (PushStart (unary True 7)))
       (two_pushers 12 api' (PushDone None) (PushDone None))
     \<and> js_Marshal tiny_codec (tiny_config False 6) = Some (unary False 6)
     \<and> js_Marshal tiny_codec (tiny_config True 7) = Some (unary True 7)
     \<and> compileRoutingTable (env_re_compile sample_env) (env_iter sample_env) True (tiny_config False 12)
         = Inr (rs_table (api_router api'))"
proof -
  have "\<exists>api'. push_system_run tiny_codec (ConfigAPI_ServeHTTP sample_env tiny_codec) sample_endpoint
             (api_authToken (sample_replica 9))
             (two_pushers (5 + 2) (sample_replica 9) (PushStart (unary False 6)) (PushStart (unary True 7)))
             (two_pushers (ConfigVersion (api_router (sample_replica 9)) + 3) api' (PushDone None) (PushDone None))
           \<and> compileRoutingTable (env_re_compile sample_env) (env_iter sample_env) True
               ((tiny_config False 0) \<lparr> cfg_Version := ConfigVersion (api_router (sample_replica 9)) + 3 \<rparr>)
               = Inr (rs_table (api_router api'))"
    by (rule skewed_race [OF sample_endpoint_url _ tiny_codec_ok, where cfgB = "tiny_config True 0"])
      (auto simp: tiny_config_fields tiny_codec_Marshal tiny_codec_fits sample_rule_def)
  then show ?thesis by (simp add: tiny_config_fields tiny_codec_Marshal)
qed

end
