(* ===== verification/Handler.thy ===== *)
theory Handler
  imports RouterState RouterPriority
begin

text \<open>
  The request path of the proxy (\<^verbatim>\<open>handler.go\<close>, \<^verbatim>\<open>handler_websocket.go\<close>): what \<^verbatim>\<open>ServeHTTP\<close> does with a
  request, from the routing decision to an answer of its own, a reverse-proxied request or a WebSocket
  upgrade, and the request each of the two ways sends to the backend. Metrics, tracing and the access log
  wrap the writer and do not change the outcome; they are left out. The token test of \<^verbatim>\<open>httpguts\<close> is a
  parameter.
\<close>

section \<open>Answers\<close>

record HttpAnswer =
  an_Status :: int
  an_Header :: Header
  an_Body :: string

definition error_answer :: "string \<Rightarrow> int \<Rightarrow> HttpAnswer" where
  "error_answer msg code =
     \<lparr> an_Status = code,
       an_Header = header_Set (header_Set Map.empty ''Content-Type'' ''text/plain; charset=utf-8'')
                     ''X-Content-Type-Options'' ''nosniff'',
       an_Body = msg @ [CHR 0x0A] \<rparr>"

text \<open>\<^verbatim>\<open>http.StatusText\<close> on the server errors, the statuses the controller marks rules with.\<close>

definition StatusText :: "int \<Rightarrow> string" where
  "StatusText code =
     (if code = 500 then ''Internal Server Error'' else if code = 501 then ''Not Implemented''
      else if code = 502 then ''Bad Gateway'' else if code = 503 then ''Service Unavailable''
      else if code = 504 then ''Gateway Timeout'' else '''')"

definition isGRPCRequest :: "Request \<Rightarrow> bool" where
  "isGRPCRequest req \<longleftrightarrow> has_prefix (header_Get (req_Header req) ''Content-Type'') ''application/grpc''"

definition grpcStatusUnimplemented :: string where
  "grpcStatusUnimplemented = ''12''"

definition writeGRPCStatus :: "string \<Rightarrow> string \<Rightarrow> HttpAnswer" where
  "writeGRPCStatus status message =
     \<lparr> an_Status = 200,
       an_Header = header_Set (header_Set (header_Set Map.empty ''Content-Type'' ''application/grpc'')
                     ''Trailer:Grpc-Status'' status) ''Trailer:Grpc-Message'' message,
       an_Body = '''' \<rparr>"

definition writeRuleUnavailable :: "RouteRule \<Rightarrow> HttpAnswer option" where
  "writeRuleUnavailable rule =
     (if rule_UnavailableStatus rule = 0 then None
      else Some (error_answer (StatusText (rule_UnavailableStatus rule)) (rule_UnavailableStatus rule)))"

text \<open>\<^verbatim>\<open>copyHeaderValues\<close> into an empty writer.\<close>

definition writeRedirectResponse :: "Response \<Rightarrow> HttpAnswer" where
  "writeRedirectResponse resp =
     \<lparr> an_Status = resp_StatusCode resp, an_Header = resp_Header resp, an_Body = '''' \<rparr>"

section \<open>The backend's base path and query\<close>

definition joinBackendBasePath :: "string \<Rightarrow> string \<Rightarrow> string" where
  "joinBackendBasePath base reqPath =
     (let baseSlash = has_suffix base ''/''; reqSlash = has_prefix reqPath ''/''
      in if baseSlash \<and> reqSlash then base @ drop 1 reqPath
         else if \<not> baseSlash \<and> \<not> reqSlash then base @ ''/'' @ reqPath
         else base @ reqPath)"

text \<open>\<^verbatim>\<open>url.Values.Encode\<close> of settings given in order: the keys are sorted, the values of a key keep their
  order.\<close>

definition encode_setting :: "string \<times> string \<Rightarrow> string" where
  "encode_setting kv =
     url_escape encodeQueryComponent (fst kv) @ ''='' @ url_escape encodeQueryComponent (snd kv)"

definition values_Encode :: "(string \<times> string) list \<Rightarrow> string" where
  "values_Encode kvs = str_join (map encode_setting (sort_stable (less_on fst) kvs)) ''&''"

definition mergeBackendBaseQuery :: "string \<Rightarrow> string \<Rightarrow> string" where
  "mergeBackendBaseQuery baseRawQuery reqRawQuery =
     (let baseValues = parse_query baseRawQuery
      in if baseValues = [] then reqRawQuery
         else
           let reqValues = parse_query reqRawQuery;
               extra = filter (\<lambda>kv. fst kv \<notin> set (map fst reqValues)) baseValues
           in if extra = [] then reqRawQuery
              else if reqRawQuery = '''' then values_Encode extra
              else reqRawQuery @ ''&'' @ values_Encode extra)"

definition applyBackendBasePath :: "URL \<Rightarrow> string \<Rightarrow> string \<Rightarrow> URL" where
  "applyBackendBasePath target base baseRawQuery =
     (let t1 = (if base \<noteq> '''' \<and> base \<noteq> ''/''
                then target \<lparr> url_Path := joinBackendBasePath base (url_Path target),
                              url_RawPath := (if url_RawPath target \<noteq> ''''
                                              then joinBackendBasePath base (url_RawPath target)
                                              else url_RawPath target) \<rparr>
                else target)
      in if baseRawQuery \<noteq> ''''
         then t1 \<lparr> url_RawQuery := mergeBackendBaseQuery baseRawQuery (url_RawQuery t1) \<rparr>
         else t1)"

section \<open>The two requests to a backend\<close>

text \<open>The Director of \<^verbatim>\<open>createReverseProxy\<close>.\<close>

definition director :: "URL \<Rightarrow> Request \<Rightarrow> Request" where
  "director backendURL req =
     (let url1 = applyBackendBasePath
                   ((req_URL req) \<lparr> url_Scheme := url_Scheme backendURL, url_Host := url_Host backendURL \<rparr>)
                   (url_Path backendURL) (url_RawQuery backendURL);
          hostRewritten = isHostRewritten req;
          h1 = (if hostRewritten then header_Del (req_Header req) hostRewrittenHeader else req_Header req);
          origHost = header_Get h1 ''X-Original-Host'';
          host = (if \<not> hostRewritten \<and> origHost \<noteq> '''' then origHost else req_Host req);
          h2 = header_Del h1 ''X-Original-Host'';
          h3 = (if h2 ''User-Agent'' = None then header_Set h2 ''User-Agent'' '''' else h2)
      in req \<lparr> req_URL := url1, req_Host := host, req_Header := h3 \<rparr>)"

definition buildBackendUpgradeRequest :: "Request \<Rightarrow> URL \<Rightarrow> Request" where
  "buildBackendUpgradeRequest req backendURL =
     req \<lparr> req_URL := applyBackendBasePath
                        \<lparr> url_Scheme = url_Scheme backendURL, url_Host = url_Host backendURL,
                          url_Path = url_Path (req_URL req), url_RawPath = '''',
                          url_RawQuery = url_RawQuery (req_URL req) \<rparr>
                        (url_Path backendURL) (url_RawQuery backendURL),
           req_Host := url_Host backendURL \<rparr>"

definition isHTTPUpgradeRequest :: "(string list \<Rightarrow> string \<Rightarrow> bool) \<Rightarrow> Request \<Rightarrow> bool" where
  "isHTTPUpgradeRequest contains_token req =
     (if header_Get (req_Header req) ''Upgrade'' = '''' then False
      else contains_token (header_Values (req_Header req) ''Connection'') ''upgrade'')"

definition shouldUseWebSocketUpgradePath :: "(string list \<Rightarrow> string \<Rightarrow> bool) \<Rightarrow> Request \<Rightarrow> bool \<Rightarrow> bool" where
  "shouldUseWebSocketUpgradePath contains_token req operatorAllowsUpgrade \<longleftrightarrow>
     operatorAllowsUpgrade \<and> isHTTPUpgradeRequest contains_token req"

section \<open>Serving a request\<close>

definition externalBackendScheme :: string where
  "externalBackendScheme = ''externalbackend''"

text \<open>A request handed to \<^verbatim>\<open>httputil.ReverseProxy\<close>: the Director's output, the transport's key fields and
  the filters for the response.\<close>

record DialPlan =
  dp_Request :: Request
  dp_Host :: string
  dp_Protocol :: BackendProtocol
  dp_TLS :: "BackendTLSConfig option"
  dp_HeaderTimeout :: int
  dp_Filters :: "Filter list"

record UpgradePlan =
  up_Request :: Request
  up_Scheme :: string
  up_Host :: string
  up_TLS :: "BackendTLSConfig option"
  up_Filters :: "Filter list"

datatype Outcome =
    Answer HttpAnswer
  | Forward DialPlan
  | Upgrade UpgradePlan
  | Panic gerr

definition proxyToBackend :: "(string list \<Rightarrow> string \<Rightarrow> bool) \<Rightarrow> Request \<Rightarrow> RouteResult \<Rightarrow> Outcome" where
  "proxyToBackend contains_token req res =
     (let rule = rr_Rule res in
      if rr_BackendIdx res < 0 \<or> int (length (rule_Backends rule)) \<le> rr_BackendIdx res
      then Answer (error_answer ''no backend available for this route'' 500)
      else
        let backend = rule_Backends rule ! nat (rr_BackendIdx res) in
        if be_UnavailableStatus backend \<noteq> 0
        then Answer (error_answer ''backend unavailable'' (be_UnavailableStatus backend))
        else case url_Parse (be_URL backend) of
          None \<Rightarrow> Answer (error_answer ''invalid backend URL'' 500)
        | Some backendURL \<Rightarrow>
            (if url_Scheme backendURL = externalBackendScheme
             then Answer (error_answer ''backend unavailable'' 500)
             else
               let allFilters = rr_Filters res @ rr_BackendFilters res in
               if shouldUseWebSocketUpgradePath contains_token req (be_WebSocket backend)
               then Upgrade \<lparr> up_Request = buildBackendUpgradeRequest req backendURL,
                              up_Scheme = url_Scheme backendURL, up_Host = url_Host backendURL,
                              up_TLS = be_TLS backend, up_Filters = allFilters \<rparr>
               else Forward \<lparr> dp_Request = director backendURL req, dp_Host = url_Host backendURL,
                              dp_Protocol = be_Protocol backend, dp_TLS = be_TLS backend,
                              dp_HeaderTimeout = ruleHeaderTimeout (rule_Timeouts rule),
                              dp_Filters = allFilters \<rparr>))"

text \<open>\<open>env\<close> and \<open>benv\<close> are the surroundings of the rule's and of the backend's filters. The second
  component is the mirrored copies started on the way.\<close>

definition ServeHTTP ::
    "(string list \<Rightarrow> string \<Rightarrow> bool) \<Rightarrow> (int \<Rightarrow> int) \<Rightarrow> FilterEnv \<Rightarrow> FilterEnv \<Rightarrow> routingTable \<Rightarrow> Request
     \<Rightarrow> Outcome \<times> MirrorLeg list" where
  "ServeHTTP contains_token rnd env benv table req =
     (case Route rnd table req of
        None \<Rightarrow>
          (Answer (if isGRPCRequest req then writeGRPCStatus grpcStatusUnimplemented ''no matching route''
                   else error_answer ''no matching route'' 404), [])
      | Some res \<Rightarrow>
          (case writeRuleUnavailable (rr_Rule res) of
             Some a \<Rightarrow> (Answer a, [])
           | None \<Rightarrow>
               (let req1 = (if rr_MatchedPrefix res \<noteq> ''''
                            then req \<lparr> req_MatchedPrefix := rr_MatchedPrefix res \<rparr> else req)
                in case ApplyRequestFilters env (rr_Filters res) req1 of
                     Inl e \<Rightarrow> (Panic e, [])
                   | Inr (req2, Some resp, legs) \<Rightarrow> (Answer (writeRedirectResponse resp), legs)
                   | Inr (req2, None, legs) \<Rightarrow>
                       (if rr_BackendFilters res = [] then (proxyToBackend contains_token req2 res, legs)
                        else case ApplyRequestFilters benv (rr_BackendFilters res) req2 of
                               Inl e \<Rightarrow> (Panic e, legs)
                             | Inr (req3, Some resp, legs') \<Rightarrow> (Answer (writeRedirectResponse resp), legs @ legs')
                             | Inr (req3, None, legs') \<Rightarrow>
                                 (proxyToBackend contains_token req3 res, legs @ legs')))))"


section \<open>Lemmas\<close>

lemma error_answer_status [simp]: "an_Status (error_answer msg code) = code"
  by (simp add: error_answer_def)

subsection \<open>What a routed request carries\<close>

lemma hit_result_fields:
  assumes "compileRule re b rule i = Inr c"
  shows "rr_Rule (hit_result rnd req c) = rule"
    and "rr_Filters (hit_result rnd req c) = cr_filters c"
    and "rr_BackendIdx (hit_result rnd req c) = selectBackend rnd (rule_Backends rule)"
  using compileRule_fields(1) [OF assms] by (simp_all add: hit_result_def route_result_def Let_def)

lemma compiled_filters_ok:
  assumes "compileRule re b rule i = Inr c" and "wf_rule rule"
  shows "\<forall>f \<in> set (cr_filters c). filter_ok f" "\<forall>fs \<in> set (cr_backendFilters c). \<forall>f \<in> set fs. filter_ok f"
proof -
  have rule: "CompileFilters b (rule_Filters rule) = Inr (cr_filters c)"
    and bk: "traverse (\<lambda>i x. if be_Filters x = [] then Inr []
         else wrap_res (AtBackend i) (CompileFilters b (be_Filters x))) 0 (rule_Backends rule)
         = Inr (cr_backendFilters c)"
    using assms(1) by (auto simp: compileRule_def split: sum.splits)
  have wf: "\<forall>f \<in> set (rule_Filters rule). wf_filter f"
    "\<forall>x \<in> set (rule_Backends rule). \<forall>f \<in> set (be_Filters x). wf_filter f"
    using assms(2) by (auto simp: wf_rule_def wf_backend_def)
  show "\<forall>f \<in> set (cr_filters c). filter_ok f"
    using CompileFilters_wf [OF wf(1), of b] rule by auto
  show "\<forall>fs \<in> set (cr_backendFilters c). \<forall>f \<in> set fs. filter_ok f"
  proof
    fix fs assume "fs \<in> set (cr_backendFilters c)"
    then obtain k where "k < length (rule_Backends rule)" "fs = cr_backendFilters c ! k"
      using traverse_length [OF bk] by (auto simp: in_set_conv_nth)
    with bk have k: "rule_Backends rule ! k \<in> set (rule_Backends rule)"
      "fs = [] \<or> CompileFilters b (be_Filters (rule_Backends rule ! k)) = Inr fs"
      by (auto simp: traverse_Inr split: if_splits)
    with wf(2) CompileFilters_wf [of "be_Filters (rule_Backends rule ! k)" b]
    show "\<forall>f \<in> set fs. filter_ok f" by auto
  qed
qed

lemma hit_result_filters_ok:
  assumes "compileRule re b rule i = Inr c" and "wf_rule rule"
  shows "\<forall>f \<in> set (rr_Filters (hit_result rnd req c)). filter_ok f"
    and "\<forall>f \<in> set (rr_BackendFilters (hit_result rnd req c)). filter_ok f"
  using compiled_filters_ok [OF assms]
  by (auto simp: hit_result_def route_result_def Let_def in_set_conv_nth all_set_conv_all_nth)

lemma filters_total:
  assumes "\<forall>f \<in> set fs. filter_ok f"
  obtains req' resp legs where "ApplyRequestFilters env fs req = Inr (req', resp, legs)"
  using ApplyRequestFilters_from_ok [OF assms, of env 0 req] that
  by (metis ApplyRequestFilters_def prod_cases3)

subsection \<open>Specification of a dial\<close>

definition best_rule :: "re_engine \<Rightarrow> Config \<Rightarrow> Request \<Rightarrow> nat \<Rightarrow> nat \<Rightarrow> bool" where
  "best_rule re_compile cfg req i k \<longleftrightarrow>
     serves re_compile cfg req i k
     \<and> (\<forall>j l. serves re_compile cfg req j l \<longrightarrow> at_least_as_good cfg (i, k) (j, l))"

lemma best_rule_unique:
  "best_rule re cfg req i k \<Longrightarrow> best_rule re cfg req j l \<Longrightarrow> i = j \<and> k = l"
  by (fastforce simp: best_rule_def at_least_as_good_def)

text \<open>A backend a rule may send traffic to.\<close>

definition dialable :: "RouteRule \<Rightarrow> BackendRef \<Rightarrow> URL \<Rightarrow> bool" where
  "dialable rule b u \<longleftrightarrow>
     b \<in> set (rule_Backends rule) \<and> 0 < be_Weight b \<and> be_UnavailableStatus b = 0
     \<and> url_Parse (be_URL b) = Some u \<and> url_Scheme u \<noteq> externalBackendScheme"

definition outcome_ok :: "RouteRule \<Rightarrow> Outcome \<Rightarrow> bool" where
  "outcome_ok rule out =
     (case out of
        Panic e \<Rightarrow> False
      | Answer a \<Rightarrow> True
      | Forward p \<Rightarrow> (\<exists>b u r. dialable rule b u \<and> dp_Request p = director u r \<and> dp_Host p = url_Host u
            \<and> dp_TLS p = be_TLS b \<and> dp_Protocol p = be_Protocol b
            \<and> dp_HeaderTimeout p = ruleHeaderTimeout (rule_Timeouts rule))
      | Upgrade p \<Rightarrow> (\<exists>b u r. dialable rule b u \<and> be_WebSocket b
            \<and> up_Request p = buildBackendUpgradeRequest r u \<and> up_Host p = url_Host u \<and> up_TLS p = be_TLS b))"

lemma proxyToBackend_ok:
  assumes "rr_Rule res = rule" and "rr_BackendIdx res = selectBackend rnd (rule_Backends rule)"
    and "\<forall>b \<in> set (rule_Backends rule). 0 \<le> be_Weight b" and "\<forall>n > 0. 0 \<le> rnd n \<and> rnd n < n"
  shows "outcome_ok rule (proxyToBackend ct req res)"
proof (cases "rule_Backends rule = [] \<or> total_weight (rule_Backends rule) = 0")
  case True
  then have "rr_BackendIdx res = -1"
    using selectBackend_cases [OF assms(3,4)] assms(2) by simp
  then show ?thesis by (simp add: proxyToBackend_def outcome_ok_def)
next
  case False
  then obtain i where i: "i < length (rule_Backends rule)" "rr_BackendIdx res = int i"
    "0 < be_Weight (rule_Backends rule ! i)"
    using selectBackend_cases [OF assms(3,4)] assms(2) by auto
  let ?b = "rule_Backends rule ! i"
  show ?thesis
  proof (cases "be_UnavailableStatus ?b = 0")
    case unavailable: False
    then show ?thesis using i assms(1) by (simp add: proxyToBackend_def outcome_ok_def Let_def)
  next
    case up: True
    show ?thesis
    proof (cases "url_Parse (be_URL ?b)")
      case None
      then show ?thesis using i assms(1) up by (simp add: proxyToBackend_def outcome_ok_def Let_def)
    next
      case (Some u)
      show ?thesis
      proof (cases "url_Scheme u = externalBackendScheme")
        case True
        then show ?thesis using i assms(1) up Some by (simp add: proxyToBackend_def outcome_ok_def Let_def)
      next
        case False
        then have d: "dialable rule ?b u" using i up Some by (simp add: dialable_def)
        have p: "proxyToBackend ct req res =
            (if shouldUseWebSocketUpgradePath ct req (be_WebSocket ?b)
             then Upgrade \<lparr> up_Request = buildBackendUpgradeRequest req u,
                            up_Scheme = url_Scheme u, up_Host = url_Host u,
                            up_TLS = be_TLS ?b, up_Filters = rr_Filters res @ rr_BackendFilters res \<rparr>
             else Forward \<lparr> dp_Request = director u req, dp_Host = url_Host u,
                            dp_Protocol = be_Protocol ?b, dp_TLS = be_TLS ?b,
                            dp_HeaderTimeout = ruleHeaderTimeout (rule_Timeouts rule),
                            dp_Filters = rr_Filters res @ rr_BackendFilters res \<rparr>)"
          using i assms(1) up Some False by (simp add: proxyToBackend_def Let_def)
        show ?thesis
        proof (cases "shouldUseWebSocketUpgradePath ct req (be_WebSocket ?b)")
          case True
          then have "be_WebSocket ?b" by (simp add: shouldUseWebSocketUpgradePath_def)
          with d p True show ?thesis by (auto simp: outcome_ok_def)
        next
          case False
          with d p show ?thesis by (auto simp: outcome_ok_def)
        qed
      qed
    qed
  qed
qed

lemma ServeHTTP_routed:
  assumes "Route rnd table req = Some res" and "writeRuleUnavailable (rr_Rule res) = None"
    and "\<forall>f \<in> set (rr_Filters res). filter_ok f" and "\<forall>f \<in> set (rr_BackendFilters res). filter_ok f"
  shows "(\<exists>a legs. ServeHTTP ct rnd env benv table req = (Answer a, legs))
       \<or> (\<exists>req' legs. ServeHTTP ct rnd env benv table req = (proxyToBackend ct req' res, legs))"
proof -
  let ?req = "if rr_MatchedPrefix res \<noteq> '''' then req \<lparr> req_MatchedPrefix := rr_MatchedPrefix res \<rparr> else req"
  obtain req2 resp legs where 1: "ApplyRequestFilters env (rr_Filters res) ?req = Inr (req2, resp, legs)"
    by (rule filters_total [OF assms(3)])
  obtain req3 resp' legs' where 2: "ApplyRequestFilters benv (rr_BackendFilters res) req2 = Inr (req3, resp', legs')"
    by (rule filters_total [OF assms(4)])
  show ?thesis
    using assms(1,2) 1 2 unfolding ServeHTTP_def Let_def
    by (cases resp; cases resp'; cases "rr_BackendFilters res = []") auto
qed


subsection \<open>Headers of the outgoing requests\<close>

lemma director_fields:
  "req_Host (director u req) =
     (if isHostRewritten req \<or> header_Get (req_Header req) ''X-Original-Host'' = '''' then req_Host req
      else header_Get (req_Header req) ''X-Original-Host'')"
  "req_URL (director u req) =
     applyBackendBasePath ((req_URL req) \<lparr> url_Scheme := url_Scheme u, url_Host := url_Host u \<rparr>)
       (url_Path u) (url_RawQuery u)"
  "req_Body (director u req) = req_Body req" "req_Method (director u req) = req_Method req"
  by (simp_all add: director_def Let_def)

lemma director_header:
  "header_Values (req_Header (director u req)) name =
     (if canonical_key name = canonical_key ''X-Original-Host''
         \<or> (isHostRewritten req \<and> canonical_key name = canonical_key hostRewrittenHeader)
      then []
      else if canonical_key name = ''User-Agent'' \<and> req_Header req ''User-Agent'' = None then ['''']
      else header_Values (req_Header req) name)"
proof -
  define xo ua where "xo = ''X-Original-Host''" and "ua = ''User-Agent''"
  have "canonical_key ''User-Agent'' = ''User-Agent''" "canonical_key ''X-Original-Host'' \<noteq> ''User-Agent''"
    "canonical_key hostRewrittenHeader \<noteq> ''User-Agent''" by code_simp+
  then have k: "canonical_key ua = ua" "canonical_key xo \<noteq> ua" "canonical_key hostRewrittenHeader \<noteq> ua"
    unfolding xo_def ua_def by blast+
  have "header_Values (req_Header (director u req)) name =
      header_Values
        (let h2 = header_Del (if isHostRewritten req then header_Del (req_Header req) hostRewrittenHeader
                              else req_Header req) xo
         in if h2 ua = None then header_Set h2 ua '''' else h2) name"
    unfolding director_def Let_def xo_def ua_def by simp
  also have "\<dots> =
     (if canonical_key name = canonical_key xo
         \<or> (isHostRewritten req \<and> canonical_key name = canonical_key hostRewrittenHeader)
      then []
      else if canonical_key name = ua \<and> req_Header req ua = None then ['''']
      else header_Values (req_Header req) name)"
    using k by (cases "isHostRewritten req"; cases "req_Header req ua")
      (auto simp: Let_def header_Del_def header_Set_def header_Values_def)
  finally show ?thesis unfolding xo_def ua_def .
qed

section \<open>Properties\<close>


definition sample_filter_env :: FilterEnv where
  "sample_filter_env = \<lparr> env_url_ref = (\<lambda>u s. None), env_roll = (\<lambda>_. 0) \<rparr>"

definition sample_down_rule :: RouteRule where
  "sample_down_rule = (sample_rule [] []) \<lparr> rule_UnavailableStatus := 500 \<rparr>"

definition sample_down_config :: Config where
  "sample_down_config =
     \<lparr> cfg_Version = 1, cfg_Rules = [sample_down_rule], cfg_HasGRPCRoute = False, cfg_Diagnostics = [],
       cfg_Provenance = [] \<rparr>"

lemma sample_down_compiles: "\<exists>table. compileRoutingTable sample_re rev True sample_down_config = Inr table"
proof -
  have "wf_config sample_down_config"
    by (simp add: sample_down_config_def sample_down_rule_def sample_rule_def wf_config_def wf_rule_def)
  then show ?thesis
    using compile_config_total [of sample_down_config sample_re rev True]
    by (auto simp: sample_down_config_def sample_down_rule_def sample_rule_def)
qed

lemma sample_down_best: "best_rule sample_re sample_down_config sample_preflight 0 0"
  by (auto simp: best_rule_def serves_def sample_down_config_def sample_down_rule_def sample_rule_def
      rule_ranks_def rule_accepts_def at_least_as_good_def)




text \<open>The host a backend sees. A forwarded request keeps the client's host, the one of X-Original-Host
  where that is set, unless a rewrite filter has put its own; neither of the two internal headers reaches
  the backend, and every other header but an absent User-Agent does unchanged.\<close>

theorem forwarded_host_and_headers:
  "req_Host (director u req) =
     (if isHostRewritten req \<or> header_Get (req_Header req) ''X-Original-Host'' = '''' then req_Host req
      else header_Get (req_Header req) ''X-Original-Host'')
   \<and> header_Get (req_Header (director u req)) ''X-Original-Host'' = ''''
   \<and> header_Get (req_Header (director u req)) hostRewrittenHeader = ''''
   \<and> (canonical_key name \<noteq> canonical_key ''X-Original-Host'' \<and> canonical_key name \<noteq> canonical_key hostRewrittenHeader
      \<and> canonical_key name \<noteq> ''User-Agent'' \<longrightarrow>
        header_Values (req_Header (director u req)) name = header_Values (req_Header req) name)"
proof -
  have "canonical_key hostRewrittenHeader \<noteq> canonical_key ''X-Original-Host''"
    "canonical_key hostRewrittenHeader \<noteq> ''User-Agent''" by code_simp+
  then have "header_Get (req_Header (director u req)) hostRewrittenHeader = ''''"
    by (auto simp: header_Get_def director_header isHostRewritten_def)
  then show ?thesis
    by (auto simp: director_fields header_Get_def director_header)
qed


end
