(* ===== verification/QueryMerge.thy ===== *)
theory QueryMerge
  imports Handler
begin

text \<open>
  Merging the query of a backend's base URL into a request's: the escaping of \<^verbatim>\<open>net/url\<close> round-trips, and
  the merged query gives every parameter the request's values where the request has the parameter and
  the base's otherwise.
\<close>

section \<open>Escaping\<close>

lemma upper_hex_read:
  assumes "0 \<le> n" and "n < 16"
  shows "is_hex (upper_hex n)" "unhex (upper_hex n) = n"
proof -
  have "(of_char (upper_hex n) :: int) = (if n < 10 then 48 + n else 55 + n)"
    using assms by (auto simp: upper_hex_def of_char_of_small)
  with assms show "is_hex (upper_hex n)" "unhex (upper_hex n) = n"
    by (auto simp: is_hex_def unhex_def Let_def)
qed

lemma char_code_bounds: "0 \<le> (of_char c :: int)" "(of_char c :: int) < 256"
  by (cases c; simp add: of_char_def horner_sum_simps)+

lemma escape_char_read:
  "char_of (16 * (of_char c div 16) + of_char c mod 16 :: int) = c"
  by simp

lemma unescape_escape: "query_unescape (url_escape encodeQueryComponent s) = Some s"
proof (induction s)
  case (Cons c s)
  have h: "0 \<le> (of_char c :: int) div 16" "(of_char c :: int) div 16 < 16"
    using char_code_bounds [of c] by auto
  show ?case
  proof (cases "should_escape encodeQueryComponent c")
    case True
    then show ?thesis
      using Cons upper_hex_read [OF h] upper_hex_read [of "of_char c mod 16"]
      by (auto simp: escape_char_read)
  next
    case False
    then have "c \<noteq> CHR ''%''" "c \<noteq> CHR ''+''"
      by (auto simp: should_escape_def is_alnum_def)
    with Cons False show ?thesis by simp
  qed
qed simp


text \<open>The bytes of an escaped component.\<close>

definition is_query_byte :: "char \<Rightarrow> bool" where
  "is_query_byte c \<longleftrightarrow> is_alnum c \<or> c \<in> set ''-_.~+%''"

lemma upper_hex_alnum: "0 \<le> n \<Longrightarrow> n < 16 \<Longrightarrow> is_alnum (upper_hex n)"
  by (auto simp: upper_hex_def is_alnum_def of_char_of_small Let_def)

lemma escape_bytes: "list_all is_query_byte (url_escape encodeQueryComponent s)"
proof (induction s)
  case (Cons c s)
  have h: "0 \<le> (of_char c :: int) div 16" "(of_char c :: int) div 16 < 16"
    "0 \<le> (of_char c :: int) mod 16" "(of_char c :: int) mod 16 < 16"
    using char_code_bounds [of c] by auto
  then have "is_query_byte (upper_hex (of_char c div 16))" "is_query_byte (upper_hex (of_char c mod 16))"
    by (simp_all only: is_query_byte_def upper_hex_alnum simp_thms)
  moreover have "is_query_byte CHR ''%''" "is_query_byte CHR ''+''" by (simp_all add: is_query_byte_def)
  moreover have "is_query_byte c" if "\<not> should_escape encodeQueryComponent c"
    using that by (auto simp: should_escape_def is_query_byte_def split: if_splits)
  ultimately show ?case using Cons by simp
qed simp

lemma separators_not_query_bytes:
  "\<not> is_query_byte CHR ''&''" "\<not> is_query_byte CHR ''=''" "\<not> is_query_byte CHR '';''"
  by code_simp+

lemma escape_no_separator:
  "CHR ''&'' \<notin> set (url_escape encodeQueryComponent s)" "CHR ''='' \<notin> set (url_escape encodeQueryComponent s)"
  "CHR '';'' \<notin> set (url_escape encodeQueryComponent s)"
  using escape_bytes [of s] separators_not_query_bytes by (auto simp: list_all_iff)

section \<open>Settings\<close>

lemma str_cut_fresh: "c \<notin> set a \<Longrightarrow> str_cut (a @ c # b) [c] = Some (a, b)"
  by (induction a) (auto simp: has_prefix_iff)

lemma parse_encode_setting: "parse_query_setting (encode_setting kv) = Some kv"
proof -
  let ?k = "url_escape encodeQueryComponent (fst kv)" and ?v = "url_escape encodeQueryComponent (snd kv)"
  have e: "encode_setting kv = ?k @ CHR ''='' # ?v" by (simp add: encode_setting_def)
  have "str_cut (encode_setting kv) ''='' = Some (?k, ?v)"
    unfolding e by (rule str_cut_fresh) (rule escape_no_separator)
  moreover have "CHR '';'' \<notin> set (encode_setting kv)" "encode_setting kv \<noteq> []"
    unfolding e using escape_no_separator by auto
  ultimately show ?thesis by (simp add: parse_query_setting_def unescape_escape)
qed

lemma encode_setting_no_amp: "CHR ''&'' \<notin> set (encode_setting kv)"
  using escape_no_separator by (auto simp: encode_setting_def)

lemma str_split_fresh: "c \<notin> set s \<Longrightarrow> str_split c s = [s]"
  by (induction s) auto

lemma split_join:
  "ws \<noteq> [] \<Longrightarrow> \<forall>w \<in> set ws. c \<notin> set w \<Longrightarrow> str_split c (str_join ws [c]) = ws"
proof (induction ws "[c]" rule: str_join.induct)
  case (3 s t ss)
  then show ?case
    using str_split_append_sep [of c s "str_join (t # ss) [c]"] by (simp add: str_split_fresh)
qed (simp_all add: str_split_fresh)

lemma parse_query_append: "parse_query (a @ ''&'' @ b) = parse_query a @ parse_query b"
  using str_split_append_sep [of "CHR ''&''" a b] by (simp add: parse_query_def List.map_filter_def)

lemma parse_query_encode: "parse_query (values_Encode kvs) = sort_stable (less_on fst) kvs"
proof (cases "kvs = []")
  case True
  then show ?thesis
    by (simp add: values_Encode_def parse_query_def List.map_filter_def parse_query_setting_def)
next
  case False
  let ?ws = "map encode_setting (sort_stable (less_on fst) kvs)"
  have "?ws \<noteq> []" using False by (metis length_0_conv length_map length_sort_stable)
  then have "str_split (CHR ''&'') (values_Encode kvs) = ?ws"
    unfolding values_Encode_def by (intro split_join) (auto simp: encode_setting_no_amp)
  then show ?thesis
    by (simp add: parse_query_def List.map_filter_def comp_def parse_encode_setting)
qed

lemma query_values_encode: "query_values (values_Encode kvs) name = map snd (filter (\<lambda>kv. fst kv = name) kvs)"
proof -
  have "filter (\<lambda>kv. fst kv = name) (sort_stable (less_on fst) kvs) = filter (\<lambda>kv. fst kv = name) kvs"
    by (rule less_on.sort_stable_stable) (simp add: less_on_def)
  then show ?thesis by (simp add: query_values_def parse_query_encode)
qed

section \<open>Properties\<close>


text \<open>A request to a backend with a base query carries every parameter of the client unchanged, and
  the base's values exactly for the parameters the client did not send.\<close>

theorem merged_query_values:
  "query_values (mergeBackendBaseQuery base q) name =
     (if query_values q name \<noteq> [] then query_values q name else query_values base name)"
proof -
  let ?extra = "filter (\<lambda>kv. fst kv \<notin> set (map fst (parse_query q))) (parse_query base)"
  have none: "query_values q name = [] \<longleftrightarrow> name \<notin> set (map fst (parse_query q))"
    by (auto simp: query_values_def filter_empty_conv image_iff)
  have extra: "map snd (filter (\<lambda>kv. fst kv = name) ?extra) =
      (if query_values q name = [] then query_values base name else [])"
    unfolding none by (auto simp: query_values_def filter_empty_conv intro!: arg_cong [of _ _ "map snd"] filter_cong)
  have merged: "query_values (mergeBackendBaseQuery base q) name =
      query_values q name @ map snd (filter (\<lambda>kv. fst kv = name) ?extra)"
  proof (cases "?extra = []")
    case True
    then show ?thesis by (simp add: mergeBackendBaseQuery_def Let_def)
  next
    case False
    then have ne: "parse_query base \<noteq> []" by auto
    show ?thesis
    proof (cases "q = ''''")
      case True
      then have "query_values q name = []"
        by (simp add: query_values_def parse_query_def List.map_filter_def parse_query_setting_def)
      then show ?thesis
        using False ne True query_values_encode [of ?extra name] by (simp add: mergeBackendBaseQuery_def Let_def)
    next
      case nq: False
      have "query_values (q @ ''&'' @ values_Encode ?extra) name =
          query_values q name @ query_values (values_Encode ?extra) name"
        by (simp only: query_values_def parse_query_append filter_append map_append)
      then show ?thesis
        using False ne nq query_values_encode [of ?extra name] by (simp add: mergeBackendBaseQuery_def Let_def)
    qed
  qed
  then show ?thesis unfolding merged extra by simp
qed

end
