(* ===== verification/BackendConn.thy ===== *)
theory BackendConn
  imports Handler
begin

text \<open>
  Connections to backends (\<^verbatim>\<open>handler.go\<close>, \<^verbatim>\<open>handler_websocket.go\<close>, \<^verbatim>\<open>headertimeout.go\<close>): the TLS
  configuration of a backend and what a handshake under it accepts, the header-only deadline of the h2c
  transport, the status of a failed exchange and the course of a WebSocket upgrade. \<^verbatim>\<open>crypto/x509\<close> is a
  parameter, the record \<open>x509_env\<close>; of \<^verbatim>\<open>crypto/tls\<close> the model has when a handshake accepts the peer.
\<close>

section \<open>Backend TLS\<close>

text \<open>\<open>x_Pool\<close> is \<^verbatim>\<open>AppendCertsFromPEM\<close> on an empty pool with its ok flag, \<open>x_Verify\<close> a chain verification
  without a name, \<open>x_VerifyHostname\<close> and \<open>x_URIs\<close> the names of a certificate.\<close>

record ('cert, 'pool, 'key) x509_env =
  x_EmptyPool :: 'pool
  x_Pool :: "string \<Rightarrow> 'pool \<times> bool"
  x_KeyPair :: "string \<Rightarrow> string \<Rightarrow> 'key option"
  x_Verify :: "'pool \<Rightarrow> 'cert list \<Rightarrow> 'cert \<Rightarrow> bool"
  x_VerifyHostname :: "'cert \<Rightarrow> string \<Rightarrow> bool"
  x_URIs :: "'cert \<Rightarrow> string list"

record ('cert, 'pool, 'key) TLSConfig =
  tc_MinVersion :: int
  tc_RootCAs :: "'pool option"
  tc_ServerName :: string
  tc_InsecureSkipVerify :: bool
  tc_VerifyConnection :: "('cert list \<Rightarrow> gerr option) option"
  tc_Certificates :: "'key list"

definition VersionTLS12 :: int where
  "VersionTLS12 = 771"

definition matchAnyDNSSan :: "('cert, 'pool, 'key) x509_env \<Rightarrow> 'cert \<Rightarrow> string list \<Rightarrow> bool" where
  "matchAnyDNSSan x leaf expected = list_ex (x_VerifyHostname x leaf) expected"

definition matchAnyURISan :: "('cert, 'pool, 'key) x509_env \<Rightarrow> 'cert \<Rightarrow> string list \<Rightarrow> bool" where
  "matchAnyURISan x leaf expected =
     (if expected = [] then False else list_ex (\<lambda>u. u \<in> set expected) (x_URIs x leaf))"

definition verifyBackendChainAndSANs ::
    "('cert, 'pool, 'key) x509_env \<Rightarrow> 'pool \<Rightarrow> string list \<Rightarrow> string list \<Rightarrow> 'cert list \<Rightarrow> gerr option" where
  "verifyBackendChainAndSANs x rootCAs expectedHostnames expectedURIs peers =
     (case peers of
        [] \<Rightarrow> Some (Sentinel errBackendTLSNoPeerCert)
      | leaf # intermediates \<Rightarrow>
          (if \<not> x_Verify x rootCAs intermediates leaf then Some (Sentinel errBackendTLSChainVerify)
           else if matchAnyDNSSan x leaf expectedHostnames then None
           else if matchAnyURISan x leaf expectedURIs then None
           else Some (Sentinel errBackendTLSSANMissing)))"

definition attachClientCert ::
    "('cert, 'pool, 'key) x509_env \<Rightarrow> ('cert, 'pool, 'key) TLSConfig \<Rightarrow> BackendTLSConfig
     \<Rightarrow> ('cert, 'pool, 'key) TLSConfig" where
  "attachClientCert x tc backendTLS =
     (if \<not> HasClientCert (Some backendTLS) then tc
      else case x_KeyPair x (tls_ClientCertPEM backendTLS) (tls_ClientKeyPEM backendTLS) of
             None \<Rightarrow> tc
           | Some cert \<Rightarrow> tc \<lparr> tc_Certificates := [cert] \<rparr>)"

definition buildBackendTLSConfig ::
    "('cert, 'pool, 'key) x509_env \<Rightarrow> BackendTLSConfig \<Rightarrow> 'pool \<Rightarrow> ('cert, 'pool, 'key) TLSConfig" where
  "buildBackendTLSConfig x backendTLS rootCAs =
     attachClientCert x
       (if \<not> HasSANConstraints (Some backendTLS)
        then \<lparr> tc_MinVersion = VersionTLS12, tc_RootCAs = Some rootCAs, tc_ServerName = tls_ServerName backendTLS,
               tc_InsecureSkipVerify = False, tc_VerifyConnection = None, tc_Certificates = [] \<rparr>
        else \<lparr> tc_MinVersion = VersionTLS12, tc_RootCAs = Some rootCAs, tc_ServerName = tls_ServerName backendTLS,
               tc_InsecureSkipVerify = True,
               tc_VerifyConnection = Some (verifyBackendChainAndSANs x rootCAs (tls_SubjectAltNames backendTLS)
                                             (tls_SubjectAltNameURIs backendTLS)),
               tc_Certificates = [] \<rparr>)
       backendTLS"

text \<open>\<^verbatim>\<open>newTLSTransport\<close>: a bundle that does not parse leaves the pool as far as it was filled.\<close>

definition newTLSTransport ::
    "('cert, 'pool, 'key) x509_env \<Rightarrow> BackendTLSConfig \<Rightarrow> int \<Rightarrow> ('cert, 'pool, 'key) TLSConfig \<times> int" where
  "newTLSTransport x backendTLS headerTimeout =
     (buildBackendTLSConfig x backendTLS (fst (x_Pool x (tls_CABundlePEM backendTLS))), headerTimeout)"

datatype ('cert, 'pool, 'key) BackendTransport =
    TLSTransport "('cert, 'pool, 'key) TLSConfig" int
  | H2CTransport
  | H2CTimeoutTransport int
  | PlainTransport int

definition newTransport ::
    "('cert, 'pool, 'key) x509_env \<Rightarrow> BackendProtocol \<Rightarrow> BackendTLSConfig option \<Rightarrow> int
     \<Rightarrow> ('cert, 'pool, 'key) BackendTransport" where
  "newTransport x protocol backendTLS headerTimeout =
     (case backendTLS of
        Some t \<Rightarrow> (case newTLSTransport x t headerTimeout of (tc, timeout) \<Rightarrow> TLSTransport tc timeout)
      | None \<Rightarrow>
          (if protocol = BackendProtocolH2C
           then (if headerTimeout \<le> 0 then H2CTransport else H2CTimeoutTransport headerTimeout)
           else PlainTransport headerTimeout))"

text \<open>\<^verbatim>\<open>URL.Hostname\<close>.\<close>

definition url_Hostname :: "URL \<Rightarrow> string" where
  "url_Hostname u =
     (let h = url_Host u in
      if CHR '':'' \<notin> set h then h
      else case str_cut h '']'' of
             Some (a, _) \<Rightarrow> (case cut_prefix a ''['' of Some b \<Rightarrow> b | None \<Rightarrow> a)
           | None \<Rightarrow> (case str_cut h '':'' of Some (a, _) \<Rightarrow> a | None \<Rightarrow> h))"

definition backendUpgradeTLSConfig ::
    "('cert, 'pool, 'key) x509_env \<Rightarrow> URL \<Rightarrow> BackendTLSConfig option \<Rightarrow> gerr + ('cert, 'pool, 'key) TLSConfig" where
  "backendUpgradeTLSConfig x backendURL backendTLS =
     (case backendTLS of
        None \<Rightarrow>
          Inr \<lparr> tc_MinVersion = VersionTLS12, tc_RootCAs = None, tc_ServerName = url_Hostname backendURL,
                tc_InsecureSkipVerify = False, tc_VerifyConnection = None, tc_Certificates = [] \<rparr>
      | Some t \<Rightarrow>
          (if tls_CABundlePEM t = '''' then Inr (buildBackendTLSConfig x t (x_EmptyPool x))
           else case x_Pool x (tls_CABundlePEM t) of
                  (pool, ok) \<Rightarrow>
                    (if ok then Inr (buildBackendTLSConfig x t pool)
                     else Inl (Wrapped (InText (url_Host backendURL)) (Sentinel errBackendCABundleInvalid)))))"

text \<open>When a client handshake accepts the peer's certificates; \<open>system\<close> is the pool used where none is
  set.\<close>

definition handshake_accepts ::
    "('cert, 'pool, 'key) x509_env \<Rightarrow> 'pool \<Rightarrow> ('cert, 'pool, 'key) TLSConfig \<Rightarrow> 'cert list \<Rightarrow> bool" where
  "handshake_accepts x system tc peers \<longleftrightarrow>
     (case peers of
        [] \<Rightarrow> False
      | leaf # intermediates \<Rightarrow>
          (tc_InsecureSkipVerify tc
           \<or> x_Verify x (case tc_RootCAs tc of None \<Rightarrow> system | Some p \<Rightarrow> p) intermediates leaf
             \<and> x_VerifyHostname x leaf (tc_ServerName tc))
          \<and> (case tc_VerifyConnection tc of None \<Rightarrow> True | Some f \<Rightarrow> f peers = None))"

section \<open>The header deadline of the h2c transport\<close>

text \<open>\<open>fired\<close> is whether the timer's callback has run when it is stopped or awaited, \<open>inner\<close> what the
  wrapped transport returned. The second component is whether the request's context is cancelled when
  \<^verbatim>\<open>RoundTrip\<close> returns.\<close>

definition headerTimeout_RoundTrip :: "bool \<Rightarrow> gerr + Response \<Rightarrow> (gerr + Response) \<times> bool" where
  "headerTimeout_RoundTrip fired inner =
     (case inner of
        Inr resp \<Rightarrow>
          (if fired then (Inl (Wrapped (InText ''h2c header timeout'') (Sentinel errDeadlineExceeded)), True)
           else (Inr resp, False))
      | Inl e \<Rightarrow>
          (if fired then (Inl (Wrapped (InText ''h2c header timeout'') (Sentinel errDeadlineExceeded)), True)
           else (Inl (Wrapped (InText ''h2c header-timeout transport'') e), True)))"

text \<open>The answer to a failed exchange, None where the client is gone. The transport's own timeout is
  \<open>errTransportTimeout\<close>.\<close>

definition errorHandler :: "gerr option \<Rightarrow> HttpAnswer option" where
  "errorHandler err =
     (case err of
        None \<Rightarrow> None
      | Some e \<Rightarrow>
          (if errors_is e errContextCanceled then None
           else if errors_is e errDeadlineExceeded then Some (error_answer ''gateway timeout'' 504)
           else if errors_is e errTransportTimeout then Some (error_answer ''gateway timeout'' 504)
           else Some (error_answer ''bad gateway'' 502)))"

section \<open>WebSocket upgrades\<close>

text \<open>What the network does during an upgrade: the dial, the write of the request, the response read.\<close>

record UpgradeNet =
  un_Dial :: "gerr option"
  un_Write :: "gerr option"
  un_Read :: "gerr + Response"

datatype UpgradeResult =
    UpgradeAnswer HttpAnswer
  | UpgradeRefused Response
  | UpgradePiped Header
  | UpgradePanic gerr

definition dialBackendForUpgrade ::
    "('cert, 'pool, 'key) x509_env \<Rightarrow> 'pool \<Rightarrow> URL \<Rightarrow> BackendTLSConfig option \<Rightarrow> gerr option \<Rightarrow> 'cert list
     \<Rightarrow> gerr option" where
  "dialBackendForUpgrade x system backendURL backendTLS tcp peers =
     (if url_Scheme backendURL \<noteq> ''https'' then wrap_err (InText ''dial backend'') tcp
      else case backendUpgradeTLSConfig x backendURL backendTLS of
             Inl e \<Rightarrow> Some e
           | Inr tc \<Rightarrow>
               (case tcp of
                  Some e \<Rightarrow> Some (Wrapped (InText ''dial backend'') e)
                | None \<Rightarrow>
                    (if handshake_accepts x system tc peers then None
                     else Some (Wrapped (InText ''backend TLS handshake'') (Sentinel errHandshake)))))"

definition proxyWebSocketUpgrade :: "UpgradeNet \<Rightarrow> Filter list \<Rightarrow> UpgradeResult" where
  "proxyWebSocketUpgrade net filters =
     (case un_Dial net of
        Some _ \<Rightarrow> UpgradeAnswer (error_answer ''bad gateway'' 502)
      | None \<Rightarrow>
          (case un_Write net of
             Some _ \<Rightarrow> UpgradeAnswer (error_answer ''bad gateway'' 502)
           | None \<Rightarrow>
               (case un_Read net of
                  Inl _ \<Rightarrow> UpgradeAnswer (error_answer ''bad gateway'' 502)
                | Inr resp \<Rightarrow>
                    (case ApplyResponseFilters filters resp of
                       Inl e \<Rightarrow> UpgradePanic e
                     | Inr resp' \<Rightarrow>
                         (if resp_StatusCode resp' \<noteq> 101 then UpgradeRefused resp'
                          else UpgradePiped (resp_Header resp'))))))"


section \<open>Lemmas\<close>

lemma attachClientCert_fields [simp]:
  "tc_RootCAs (attachClientCert x tc t) = tc_RootCAs tc"
  "tc_ServerName (attachClientCert x tc t) = tc_ServerName tc"
  "tc_InsecureSkipVerify (attachClientCert x tc t) = tc_InsecureSkipVerify tc"
  "tc_VerifyConnection (attachClientCert x tc t) = tc_VerifyConnection tc"
  "tc_MinVersion (attachClientCert x tc t) = tc_MinVersion tc"
  by (auto simp: attachClientCert_def split: option.split)

lemma verify_chain_and_SANs_ok:
  "verifyBackendChainAndSANs x pool dns uris peers = None \<longleftrightarrow>
     (\<exists>leaf rest. peers = leaf # rest \<and> x_Verify x pool rest leaf
        \<and> ((\<exists>n \<in> set dns. x_VerifyHostname x leaf n) \<or> (\<exists>u \<in> set (x_URIs x leaf). u \<in> set uris)))"
  by (auto simp: verifyBackendChainAndSANs_def matchAnyDNSSan_def matchAnyURISan_def list_ex_iff
      split: list.split if_splits)

lemma backend_handshake:
  "handshake_accepts x system (buildBackendTLSConfig x t pool) peers \<longleftrightarrow>
     (\<exists>leaf rest. peers = leaf # rest \<and> x_Verify x pool rest leaf
        \<and> (if HasSANConstraints (Some t)
           then (\<exists>n \<in> set (tls_SubjectAltNames t). x_VerifyHostname x leaf n)
                \<or> (\<exists>u \<in> set (x_URIs x leaf). u \<in> set (tls_SubjectAltNameURIs t))
           else x_VerifyHostname x leaf (tls_ServerName t)))"
proof (cases "HasSANConstraints (Some t)")
  case True
  then show ?thesis
    by (cases peers) (auto simp: handshake_accepts_def buildBackendTLSConfig_def verify_chain_and_SANs_ok)
next
  case False
  then show ?thesis
    by (cases peers) (auto simp: handshake_accepts_def buildBackendTLSConfig_def)
qed

section \<open>Properties\<close>

text \<open>Which backend a TLS connection accepts. The peer's leaf certificate has to chain up to the
  policy's CA bundle, in both modes; with subject alternative names in the policy one of them has to
  match, as a DNS name or as a URI, and without any the certificate has to be valid for the policy's
  host name. The minimum version is TLS 1.2.\<close>

theorem backend_tls_identity:
  "(handshake_accepts x system (buildBackendTLSConfig x t pool) peers \<longleftrightarrow>
     (\<exists>leaf rest. peers = leaf # rest \<and> x_Verify x pool rest leaf
        \<and> (if HasSANConstraints (Some t)
           then (\<exists>n \<in> set (tls_SubjectAltNames t). x_VerifyHostname x leaf n)
                \<or> (\<exists>u \<in> set (x_URIs x leaf). u \<in> set (tls_SubjectAltNameURIs t))
           else x_VerifyHostname x leaf (tls_ServerName t))))
   \<and> tc_MinVersion (buildBackendTLSConfig x t pool) = VersionTLS12"
proof
  show "tc_MinVersion (buildBackendTLSConfig x t pool) = VersionTLS12" by (simp add: buildBackendTLSConfig_def)
qed (rule backend_handshake)

text \<open>A WebSocket upgrade to an https backend with a TLS policy goes only to a peer the pooled transport
  of the same backend would accept.\<close>

theorem upgrade_keeps_tls_identity:
  assumes "url_Scheme u = ''https''" and "dialBackendForUpgrade x system u (Some t) tcp peers = None"
    and "fst (x_Pool x '''') = x_EmptyPool x"
  shows "handshake_accepts x system (fst (newTLSTransport x t timeout)) peers"
proof (cases "tls_CABundlePEM t = ''''")
  case True
  with assms show ?thesis
    by (auto simp: dialBackendForUpgrade_def backendUpgradeTLSConfig_def newTLSTransport_def
        split: option.splits if_splits)
next
  case False
  with assms show ?thesis
    by (auto simp: dialBackendForUpgrade_def backendUpgradeTLSConfig_def newTLSTransport_def
        split: option.splits if_splits prod.splits)
qed

text \<open>Certificates are names, a pool the names of the certificates it trusts.\<close>

definition sample_x509 :: "(string, string list, unit) x509_env" where
  "sample_x509 =
     \<lparr> x_EmptyPool = [], x_Pool = (\<lambda>s. if s = '''' then ([], False) else ([s], True)), x_KeyPair = (\<lambda>_ _. None),
       x_Verify = (\<lambda>pool rest leaf. list_ex (\<lambda>c. c \<in> set pool) (rest @ [leaf])),
       x_VerifyHostname = (\<lambda>leaf n. leaf = n), x_URIs = (\<lambda>_. []) \<rparr>"

definition sample_tls :: BackendTLSConfig where
  "sample_tls =
     \<lparr> tls_CABundlePEM = ''ca'', tls_ServerName = ''db.internal'', tls_SubjectAltNames = [],
       tls_SubjectAltNameURIs = [], tls_ClientCertPEM = '''', tls_ClientKeyPEM = '''' \<rparr>"

text \<open>The header deadline of the h2c transport. Once the timer has fired the exchange fails and the
  client is answered 504, whatever the backend returned; a response is handed on only with its context
  alive, so that its body can stream past the deadline; and a failed exchange always releases its context.\<close>

theorem header_timeout_contract:
  assumes "headerTimeout_RoundTrip fired inner = (res, cancelled)"
  shows "(fired \<longrightarrow> (\<exists>e. res = Inl e \<and> map_option an_Status (errorHandler (Some e)) = Some 504))
         \<and> (\<forall>resp. res = Inr resp \<longrightarrow> \<not> fired \<and> \<not> cancelled \<and> inner = Inr resp)
         \<and> (\<forall>e. res = Inl e \<longrightarrow> cancelled)"
proof -
  have "map_option an_Status (errorHandler (Some (Wrapped c (Sentinel errDeadlineExceeded)))) = Some 504" for c
    by (simp add: errorHandler_def)
  with assms show ?thesis by (auto simp: headerTimeout_RoundTrip_def split: sum.splits if_splits)
qed

end
