(* ===== verification/ReferenceGrant.thy ===== *)
theory ReferenceGrant
  imports Prelude
begin

text \<open>
  Cross-namespace references (\<^verbatim>\<open>src/internal/referencegrant/validator.go\<close>). The cluster's answer to the
  list of grants of a namespace is the parameter \<open>list_grants\<close>: the client call may fail.
\<close>

section \<open>Definitions\<close>

record Reference =
  ref_Group :: string
  ref_Kind :: string
  ref_Namespace :: string
  ref_Name :: string

record ReferenceGrantFrom =
  gf_Group :: string
  gf_Kind :: string
  gf_Namespace :: string

record ReferenceGrantTo =
  gt_Group :: string
  gt_Kind :: string
  gt_Name :: "string option"

record Grant =
  gr_From :: "ReferenceGrantFrom list"
  gr_To :: "ReferenceGrantTo list"

definition matchesFrom :: "ReferenceGrantFrom \<Rightarrow> Reference \<Rightarrow> bool" where
  "matchesFrom grantFrom fromRef =
     (if gf_Group grantFrom \<noteq> ref_Group fromRef then False
      else if gf_Kind grantFrom \<noteq> ref_Kind fromRef then False
      else if gf_Namespace grantFrom \<noteq> ref_Namespace fromRef then False
      else True)"

definition matchesTo :: "ReferenceGrantTo \<Rightarrow> Reference \<Rightarrow> bool" where
  "matchesTo grantTo toRef =
     (let grantGroup = (if gt_Group grantTo = ''core'' then '''' else gt_Group grantTo) in
      if grantGroup \<noteq> ref_Group toRef then False
      else if gt_Kind grantTo \<noteq> ref_Kind toRef then False
      else if (case gt_Name grantTo of None \<Rightarrow> False | Some name \<Rightarrow> name \<noteq> ref_Name toRef) then False
      else True)"

definition grantAllowsReference :: "Grant \<Rightarrow> Reference \<Rightarrow> Reference \<Rightarrow> bool" where
  "grantAllowsReference grant fromRef toRef =
     (if \<not> list_ex (\<lambda>grantFrom. matchesFrom grantFrom fromRef) (gr_From grant) then False
      else list_ex (\<lambda>grantTo. matchesTo grantTo toRef) (gr_To grant))"

definition IsReferenceAllowed ::
    "(string \<Rightarrow> gerr + Grant list) \<Rightarrow> Reference \<Rightarrow> Reference \<Rightarrow> gerr + bool" where
  "IsReferenceAllowed list_grants fromRef toRef =
     (if ref_Namespace fromRef = ref_Namespace toRef then Inr True
      else case list_grants (ref_Namespace toRef) of
             Inl err \<Rightarrow> Inl (Wrapped (InText ''failed to list ReferenceGrants'') err)
           | Inr grants \<Rightarrow> Inr (list_ex (\<lambda>grant. grantAllowsReference grant fromRef toRef) grants))"

section \<open>What a grant means\<close>

text \<open>The references a grant permits, as a set of pairs.\<close>

definition granted :: "Grant \<Rightarrow> (Reference \<times> Reference) set" where
  "granted grant =
     {(f, t). (\<exists>a \<in> set (gr_From grant). (gf_Group a, gf_Kind a, gf_Namespace a) =
                                          (ref_Group f, ref_Kind f, ref_Namespace f))
            \<and> (\<exists>b \<in> set (gr_To grant).
                 (ref_Group t = gt_Group b \<and> gt_Group b \<noteq> ''core'' \<or> ref_Group t = '''' \<and> gt_Group b = ''core'')
                 \<and> ref_Kind t = gt_Kind b \<and> gt_Name b \<in> {None, Some (ref_Name t)})}"

lemma grantAllowsReference_granted: "grantAllowsReference grant f t \<longleftrightarrow> (f, t) \<in> granted grant"
proof -
  have "matchesFrom a f \<longleftrightarrow> (gf_Group a, gf_Kind a, gf_Namespace a) = (ref_Group f, ref_Kind f, ref_Namespace f)" for a
    by (simp add: matchesFrom_def)
  moreover have "matchesTo b t \<longleftrightarrow>
      (ref_Group t = gt_Group b \<and> gt_Group b \<noteq> ''core'' \<or> ref_Group t = '''' \<and> gt_Group b = ''core'')
      \<and> ref_Kind t = gt_Kind b \<and> gt_Name b \<in> {None, Some (ref_Name t)}" for b
    by (cases "gt_Name b") (auto simp: matchesTo_def Let_def)
  ultimately show ?thesis
    unfolding grantAllowsReference_def granted_def list_ex_iff by auto
qed

lemma IsReferenceAllowed_iff:
  "IsReferenceAllowed list_grants f t = Inr True \<longleftrightarrow>
     ref_Namespace f = ref_Namespace t \<or>
     (\<exists>grants. list_grants (ref_Namespace t) = Inr grants \<and> (f, t) \<in> (\<Union>g \<in> set grants. granted g))"
  by (auto simp: IsReferenceAllowed_def list_ex_iff grantAllowsReference_granted split: sum.splits)

text \<open>A reference is allowed exactly when it stays in its namespace or a grant of the TARGET namespace
  permits it, and only the grants of that namespace are read. A failing list call never allows a reference: it is
  an error that wraps the cause. Adding a grant never revokes a permission.\<close>

theorem reference_allowed_exactly:
  "(IsReferenceAllowed list_grants f t = Inr True \<longleftrightarrow>
      (if ref_Namespace f = ref_Namespace t then True
       else case list_grants (ref_Namespace t) of
              Inl _ \<Rightarrow> False | Inr grants \<Rightarrow> (f, t) \<in> (\<Union>g \<in> set grants. granted g)))
   \<and> (isl (IsReferenceAllowed list_grants f t) \<longleftrightarrow>
        ref_Namespace f \<noteq> ref_Namespace t \<and> isl (list_grants (ref_Namespace t)))
   \<and> {(f, t). IsReferenceAllowed (\<lambda>_. Inr gs) f t = Inr True}
       \<subseteq> {(f, t). IsReferenceAllowed (\<lambda>_. Inr (gs @ gs')) f t = Inr True}"
proof -
  have "isl (IsReferenceAllowed list_grants f t) \<longleftrightarrow>
        ref_Namespace f \<noteq> ref_Namespace t \<and> isl (list_grants (ref_Namespace t))"
    by (simp add: IsReferenceAllowed_def split: sum.splits)
  moreover have "{(f, t). IsReferenceAllowed (\<lambda>_. Inr gs) f t = Inr True}
       \<subseteq> {(f, t). IsReferenceAllowed (\<lambda>_. Inr (gs @ gs')) f t = Inr True}"
    unfolding IsReferenceAllowed_iff by auto
  ultimately show ?thesis unfolding IsReferenceAllowed_iff by (auto split: sum.splits)
qed

end
