(* ===== verification/RouteBinding.thy ===== *)
theory RouteBinding
  imports RouterSpec
begin

text \<open>
  Binding of routes to listeners (\<^verbatim>\<open>src/internal/routebinding\<close>): hostname intersection, allowed
  namespaces and kinds, and the decision over the listeners of a Gateway or of a ListenerSet. The Gateway
  API types have the fields the code reads. The lookup of a namespace and the compilation of a label
  selector are the parameters \<open>ns_labels\<close> and \<open>selector\<close>.
\<close>

section \<open>Gateway API types\<close>

type_synonym labels = "string \<Rightarrow> string option"

text \<open>A label selector is kept as the value the API gives; \<^verbatim>\<open>LabelSelectorAsSelector\<close> is the parameter
  \<open>selector\<close>.\<close>

datatype FromNamespaces =
  NamespacesFromAll | NamespacesFromSelector | NamespacesFromSame | NamespacesFromNone
  | NamespacesFromOther string

record 'sel RouteNamespaces =
  rn_From :: "FromNamespaces option"
  rn_Selector :: "'sel option"

record RouteGroupKind =
  gk_Group :: "string option"
  gk_Kind :: string

record 'sel AllowedRoutes =
  ar_Namespaces :: "'sel RouteNamespaces option"
  ar_Kinds :: "RouteGroupKind list"

record 'sel Listener =
  li_Name :: string
  li_Hostname :: "string option"
  li_Port :: int
  li_Protocol :: string
  li_AllowedRoutes :: "'sel AllowedRoutes option"

record LocalParametersReference =
  lp_Group :: string
  lp_Kind :: string
  lp_Name :: string

record 'sel Gateway =
  gw_Namespace :: string
  gw_Name :: string
  gw_Generation :: int
  gw_GatewayClassName :: string
  gw_Listeners :: "'sel Listener list"
  gw_AllowedListeners :: "'sel RouteNamespaces option"
  gw_Infrastructure :: "LocalParametersReference option option"

record 'sel ListenerSet =
  ls_Namespace :: string
  ls_Name :: string
  ls_CreationTimestamp :: int
  ls_Generation :: int
  ls_ParentNamespace :: "string option"
  ls_ParentName :: string
  ls_Listeners :: "'sel Listener list"

definition GroupName :: string where
  "GroupName = ''gateway.networking.k8s.io''"

section \<open>Hostnames\<close>

text \<open>\<^verbatim>\<open>matchesWildcard\<close> of the binding package; the router has a function of the same name.\<close>

definition binding_matchesWildcard :: "string \<Rightarrow> string \<Rightarrow> bool" where
  "binding_matchesWildcard wildcardHost specificHost =
     (let sfx = drop 1 wildcardHost
      in if \<not> has_suffix specificHost sfx then False
         else if specificHost = drop 1 sfx then False
         else True)"

definition hostnameMatches :: "string \<Rightarrow> string \<Rightarrow> bool" where
  "hostnameMatches listenerHost0 routeHost0 =
     (let listenerHost = to_lower listenerHost0; routeHost = to_lower routeHost0;
          listenerIsWildcard = has_prefix listenerHost ''*.''; routeIsWildcard = has_prefix routeHost ''*.''
      in if listenerHost = routeHost then True
         else if listenerIsWildcard \<and> routeIsWildcard
         then has_suffix (drop 1 listenerHost) (drop 1 routeHost)
              \<or> has_suffix (drop 1 routeHost) (drop 1 listenerHost)
         else if listenerIsWildcard then binding_matchesWildcard listenerHost routeHost
         else if routeIsWildcard then binding_matchesWildcard routeHost listenerHost
         else False)"

definition HostnamesIntersect :: "string option \<Rightarrow> string list \<Rightarrow> bool" where
  "HostnamesIntersect listenerHostname routeHostnames =
     (case listenerHostname of
        None \<Rightarrow> True
      | Some l \<Rightarrow>
          (if l = '''' then True
           else if routeHostnames = [] then True
           else list_ex (hostnameMatches l) routeHostnames))"

definition HostnameIntersection :: "string option \<Rightarrow> string \<Rightarrow> string option" where
  "HostnameIntersection listenerHostname routeHostname =
     (case listenerHostname of
        None \<Rightarrow> Some routeHostname
      | Some l \<Rightarrow>
          (if l = '''' then Some routeHostname
           else if \<not> hostnameMatches l routeHostname then None
           else if has_prefix routeHostname ''*.''
           then (if has_prefix l ''*.'' \<and> length routeHostname > length l then Some routeHostname else Some l)
           else Some routeHostname))"

definition EffectiveListenerHostnames :: "string option \<Rightarrow> string list \<Rightarrow> string list" where
  "EffectiveListenerHostnames listenerHostname routeHostnames =
     (if routeHostnames = []
      then (case listenerHostname of None \<Rightarrow> [] | Some l \<Rightarrow> if l \<noteq> '''' then [l] else [])
      else List.map_filter (HostnameIntersection listenerHostname) routeHostnames)"

section \<open>Kinds\<close>

definition default_kind :: "string \<Rightarrow> RouteGroupKind" where
  "default_kind k = \<lparr> gk_Group = Some GroupName, gk_Kind = k \<rparr>"

definition getDefaultKindsForProtocol :: "string \<Rightarrow> RouteGroupKind list" where
  "getDefaultKindsForProtocol protocol =
     (if protocol = ''HTTP'' \<or> protocol = ''HTTPS'' then [default_kind ''HTTPRoute'', default_kind ''GRPCRoute'']
      else if protocol = ''TLS'' then [default_kind ''TLSRoute'']
      else if protocol = ''TCP'' then [default_kind ''TCPRoute'']
      else if protocol = ''UDP'' then [default_kind ''UDPRoute'']
      else [default_kind ''HTTPRoute'', default_kind ''GRPCRoute''])"

definition getAllowedKinds :: "'sel AllowedRoutes option \<Rightarrow> string \<Rightarrow> RouteGroupKind list" where
  "getAllowedKinds allowedRoutes protocol =
     (case allowedRoutes of
        Some a \<Rightarrow> if ar_Kinds a \<noteq> [] then ar_Kinds a else getDefaultKindsForProtocol protocol
      | None \<Rightarrow> getDefaultKindsForProtocol protocol)"

definition kind_group :: "RouteGroupKind \<Rightarrow> string" where
  "kind_group k = (case gk_Group k of Some g \<Rightarrow> if g \<noteq> '''' then g else GroupName | None \<Rightarrow> GroupName)"

definition kindMatches :: "RouteGroupKind \<Rightarrow> string \<Rightarrow> bool" where
  "kindMatches allowed routeKind = (if gk_Kind allowed \<noteq> routeKind then False else kind_group allowed = GroupName)"

definition IsRouteKindAllowed :: "'sel AllowedRoutes option \<Rightarrow> string \<Rightarrow> string \<Rightarrow> bool" where
  "IsRouteKindAllowed allowedRoutes protocol routeKind =
     list_ex (\<lambda>a. kindMatches a routeKind) (getAllowedKinds allowedRoutes protocol)"

definition supported_kind :: "RouteGroupKind \<Rightarrow> bool" where
  "supported_kind k \<longleftrightarrow>
     kind_group k = GroupName \<and> (gk_Kind k = ''HTTPRoute'' \<or> gk_Kind k = ''GRPCRoute'')"

definition FilterSupportedKinds ::
    "'sel AllowedRoutes option \<Rightarrow> string \<Rightarrow> RouteGroupKind list \<times> bool \<times> bool" where
  "FilterSupportedKinds allowedRoutes protocol =
     (let explicitlySpecified = (case allowedRoutes of Some a \<Rightarrow> ar_Kinds a \<noteq> [] | None \<Rightarrow> False);
          kinds = getAllowedKinds allowedRoutes protocol;
          supported = filter supported_kind kinds
      in (supported, supported \<noteq> [], explicitlySpecified \<and> list_ex (\<lambda>k. \<not> supported_kind k) kinds))"

section \<open>Namespaces\<close>

record 'sel ClusterEnv =
  cl_labels :: "string \<Rightarrow> labels option"
  cl_selector :: "'sel \<Rightarrow> gerr + (labels \<Rightarrow> bool)"

definition getNamespaceFrom :: "'sel AllowedRoutes option \<Rightarrow> FromNamespaces" where
  "getNamespaceFrom allowedRoutes =
     (case allowedRoutes of
        None \<Rightarrow> NamespacesFromSame
      | Some a \<Rightarrow>
          (case ar_Namespaces a of
             None \<Rightarrow> NamespacesFromSame
           | Some n \<Rightarrow> (case rn_From n of None \<Rightarrow> NamespacesFromSame | Some f \<Rightarrow> f)))"

text \<open>A namespace that cannot be read does not match.\<close>

definition namespaceMatchesSelector :: "'sel ClusterEnv \<Rightarrow> 'sel option \<Rightarrow> string \<Rightarrow> gerr + bool" where
  "namespaceMatchesSelector env sel routeNamespace =
     (case sel of
        None \<Rightarrow> Inr False
      | Some s \<Rightarrow>
          (case cl_selector env s of
             Inl e \<Rightarrow> Inl (Wrapped (InText ''invalid label selector'') e)
           | Inr matches \<Rightarrow>
               (case cl_labels env routeNamespace of
                  None \<Rightarrow> Inr False
                | Some ls \<Rightarrow> Inr (matches ls))))"

definition IsNamespaceAllowed ::
    "'sel ClusterEnv \<Rightarrow> 'sel AllowedRoutes option \<Rightarrow> string \<Rightarrow> string \<Rightarrow> gerr + bool" where
  "IsNamespaceAllowed env allowedRoutes gatewayNamespace routeNamespace =
     (case getNamespaceFrom allowedRoutes of
        NamespacesFromSame \<Rightarrow> Inr (gatewayNamespace = routeNamespace)
      | NamespacesFromAll \<Rightarrow> Inr True
      | NamespacesFromSelector \<Rightarrow>
          namespaceMatchesSelector env
            (case allowedRoutes of None \<Rightarrow> None
             | Some a \<Rightarrow> (case ar_Namespaces a of None \<Rightarrow> None | Some n \<Rightarrow> rn_Selector n)) routeNamespace
      | NamespacesFromNone \<Rightarrow> Inr False
      | NamespacesFromOther _ \<Rightarrow> Inr (gatewayNamespace = routeNamespace))"

section \<open>Binding\<close>

datatype RouteReason =
  RouteReasonAccepted | RouteReasonNoMatchingListenerHostname | RouteReasonNotAllowedByListeners
  | RouteReasonNoMatchingParent | RouteReasonHostnameNotPermitted | RouteReasonConflicted

record RouteInfo =
  ri_Name :: string
  ri_Namespace :: string
  ri_Hostnames :: "string list"
  ri_Kind :: string
  ri_SectionName :: "string option"
  ri_Port :: "int option"

text \<open>The message is a function of the reason; \<open>br_Reason\<close> stands for both.\<close>

record BindingResult =
  br_Accepted :: bool
  br_Reason :: RouteReason
  br_MatchedListeners :: "string list"

definition evaluateListenerBinding ::
    "'sel ClusterEnv \<Rightarrow> 'sel Listener \<Rightarrow> string \<Rightarrow> RouteInfo \<Rightarrow> gerr + RouteReason" where
  "evaluateListenerBinding env l parentNamespace route =
     (if \<not> HostnamesIntersect (li_Hostname l) (ri_Hostnames route)
      then Inr RouteReasonNoMatchingListenerHostname
      else case IsNamespaceAllowed env (li_AllowedRoutes l) parentNamespace (ri_Namespace route) of
        Inl e \<Rightarrow> Inl e
      | Inr allowed \<Rightarrow>
          (if \<not> allowed then Inr RouteReasonNotAllowedByListeners
           else if \<not> IsRouteKindAllowed (li_AllowedRoutes l) (li_Protocol l) (ri_Kind route)
           then Inr RouteReasonNotAllowedByListeners
           else Inr RouteReasonAccepted))"

definition selects_listener :: "string option \<Rightarrow> int option \<Rightarrow> 'sel Listener \<Rightarrow> bool" where
  "selects_listener section port l \<longleftrightarrow>
     (case section of None \<Rightarrow> True | Some s \<Rightarrow> s = li_Name l)
     \<and> (case port of None \<Rightarrow> True | Some p \<Rightarrow> p = li_Port l)"

text \<open>The loop of \<^verbatim>\<open>findMatchingEntries\<close>: the names matched so far and the last rejection.\<close>

fun match_entries ::
    "('sel Listener \<Rightarrow> gerr + RouteReason) \<Rightarrow> string option \<Rightarrow> int option \<Rightarrow> 'sel Listener list
     \<Rightarrow> string list \<times> RouteReason option \<Rightarrow> gerr + (string list \<times> RouteReason option)" where
  "match_entries accept section port [] st = Inr st"
| "match_entries accept section port (l # ls) (matched, rejection) =
     (if \<not> selects_listener section port l then match_entries accept section port ls (matched, rejection)
      else case accept l of
        Inl e \<Rightarrow> Inl e
      | Inr reason \<Rightarrow>
          match_entries accept section port ls
            (if reason = RouteReasonAccepted then (matched @ [li_Name l], rejection)
             else (matched, Some reason)))"

definition findMatchingEntries ::
    "('sel Listener \<Rightarrow> gerr + RouteReason) \<Rightarrow> 'sel Listener list \<Rightarrow> string option \<Rightarrow> int option
     \<Rightarrow> gerr + (string list \<times> RouteReason)" where
  "findMatchingEntries accept listeners section port =
     (if listeners = [] then Inr ([], RouteReasonNoMatchingParent)
      else case match_entries accept section port listeners ([], None) of
        Inl e \<Rightarrow> Inl e
      | Inr (matched, rejection) \<Rightarrow>
          (if matched = []
           then (if section \<noteq> None \<or> port \<noteq> None then Inr ([], RouteReasonNoMatchingParent)
                 else case rejection of
                        None \<Rightarrow> Inr ([], RouteReasonNoMatchingParent)
                      | Some r \<Rightarrow> Inr ([], r))
           else Inr (matched, RouteReasonAccepted)))"

definition makeBindingResult :: "string list \<Rightarrow> RouteReason \<Rightarrow> BindingResult" where
  "makeBindingResult matched rejectionReason =
     (if matched = [] then \<lparr> br_Accepted = False, br_Reason = rejectionReason, br_MatchedListeners = [] \<rparr>
      else \<lparr> br_Accepted = True, br_Reason = RouteReasonAccepted, br_MatchedListeners = matched \<rparr>)"

definition bind_listeners ::
    "'sel ClusterEnv \<Rightarrow> 'sel Listener list \<Rightarrow> string \<Rightarrow> RouteInfo \<Rightarrow> gerr + BindingResult" where
  "bind_listeners env listeners parentNamespace route =
     (case findMatchingEntries (\<lambda>l. evaluateListenerBinding env l parentNamespace route) listeners
             (ri_SectionName route) (ri_Port route) of
        Inl e \<Rightarrow> Inl e
      | Inr (matched, reason) \<Rightarrow> Inr (makeBindingResult matched reason))"

definition ValidateBinding ::
    "'sel ClusterEnv \<Rightarrow> 'sel Gateway \<Rightarrow> RouteInfo \<Rightarrow> gerr + BindingResult" where
  "ValidateBinding env gateway route = bind_listeners env (gw_Listeners gateway) (gw_Namespace gateway) route"

definition ValidateBindingForListenerSet ::
    "'sel ClusterEnv \<Rightarrow> 'sel ListenerSet \<Rightarrow> RouteInfo \<Rightarrow> gerr + BindingResult" where
  "ValidateBindingForListenerSet env ls route = bind_listeners env (ls_Listeners ls) (ls_Namespace ls) route"

section \<open>ListenerSet attachment\<close>

definition getListenerNamespaceFrom :: "'sel RouteNamespaces option \<Rightarrow> FromNamespaces" where
  "getListenerNamespaceFrom allowed =
     (case allowed of None \<Rightarrow> NamespacesFromNone
      | Some n \<Rightarrow> (case rn_From n of None \<Rightarrow> NamespacesFromNone | Some f \<Rightarrow> f))"

definition listenerSetNamespaceMatchesSelector ::
    "'sel ClusterEnv \<Rightarrow> 'sel RouteNamespaces option \<Rightarrow> string \<Rightarrow> gerr + bool" where
  "listenerSetNamespaceMatchesSelector env allowed namespace =
     (case allowed of None \<Rightarrow> Inr False | Some n \<Rightarrow> namespaceMatchesSelector env (rn_Selector n) namespace)"

definition EvaluateListenerSetAcceptance ::
    "'sel ClusterEnv \<Rightarrow> 'sel Gateway \<Rightarrow> 'sel ListenerSet \<Rightarrow> gerr + bool" where
  "EvaluateListenerSetAcceptance env gateway ls =
     (case getListenerNamespaceFrom (gw_AllowedListeners gateway) of
        NamespacesFromAll \<Rightarrow> Inr True
      | NamespacesFromSame \<Rightarrow> Inr (gw_Namespace gateway = ls_Namespace ls)
      | NamespacesFromSelector \<Rightarrow>
          listenerSetNamespaceMatchesSelector env (gw_AllowedListeners gateway) (ls_Namespace ls)
      | NamespacesFromNone \<Rightarrow> Inr False
      | NamespacesFromOther _ \<Rightarrow> Inr False)"


section \<open>Hostname sets\<close>

text \<open>The hosts a hostname pattern covers, as the proxy decides it: \<open>host_rank\<close> is the specificity the
  router gives a pattern.\<close>

definition covers :: "string \<Rightarrow> string \<Rightarrow> bool" where
  "covers pattern host \<longleftrightarrow> host_rank host pattern \<noteq> None"

text \<open>What the API's validation of hostnames ensures: not empty, and no empty first label.\<close>

definition wf_hostname :: "string \<Rightarrow> bool" where
  "wf_hostname p \<longleftrightarrow> p \<noteq> '''' \<and> \<not> has_prefix p ''.''"

abbreviation is_wildcard :: "string \<Rightarrow> bool" where
  "is_wildcard p \<equiv> has_prefix (to_lower p) ''*.''"

abbreviation wild_suffix :: "string \<Rightarrow> string" where
  "wild_suffix p \<equiv> drop 1 (to_lower p)"

lemma char_lower_fixed:
  "char_lower c = CHR ''*'' \<longleftrightarrow> c = CHR ''*''" "char_lower c = CHR ''.'' \<longleftrightarrow> c = CHR ''.''"
proof -
  have "(of_char CHR ''*'' :: int) = 42" "(of_char CHR ''.'' :: int) = 46" by code_simp+
  moreover have "char_lower CHR ''*'' = CHR ''*''" "char_lower CHR ''.'' = CHR ''.''" by code_simp+
  ultimately show "char_lower c = CHR ''*'' \<longleftrightarrow> c = CHR ''*''" "char_lower c = CHR ''.'' \<longleftrightarrow> c = CHR ''.''"
    by (cases rule: char_lower_cases [of c]; fastforce)+
qed

lemma is_wildcard_lower: "has_prefix p ''*.'' \<longleftrightarrow> is_wildcard p"
proof (cases p)
  case (Cons a q)
  then show ?thesis
    by (cases q) (auto simp: has_prefix_iff to_lower_Cons char_lower_fixed)
qed (simp add: to_lower_def)

lemma covers_wildcard: "is_wildcard p \<Longrightarrow> covers p host \<longleftrightarrow> matchesWildcard host (wild_suffix p)"
  by (simp add: covers_def host_rank_def Let_def)

lemma covers_exact: "\<not> is_wildcard p \<Longrightarrow> covers p host \<longleftrightarrow> host = to_lower p"
  by (auto simp: covers_def host_rank_def Let_def)

lemma wild_suffix_dot: "is_wildcard p \<Longrightarrow> \<exists>t. wild_suffix p = CHR ''.'' # t"
  by (auto simp: has_prefix_iff)

lemma matchesWildcard_suffix:
  "has_suffix s t \<Longrightarrow> matchesWildcard host s \<Longrightarrow> matchesWildcard host t"
  unfolding matchesWildcard_def by (auto simp: has_suffix_iff)

lemma matchesWildcard_fresh: "matchesWildcard (c # s) s"
  unfolding matchesWildcard_def has_suffix_iff by auto

lemma binding_matchesWildcard_iff:
  assumes "has_prefix w ''*.''" and "\<not> has_prefix p ''.''"
  shows "binding_matchesWildcard w p \<longleftrightarrow> matchesWildcard p (drop 1 w)"
proof -
  obtain t where t: "drop 1 w = CHR ''.'' # t" using assms(1) by (auto simp: has_prefix_iff)
  have "p \<noteq> CHR ''.'' # t" using assms(2) by (auto simp: has_prefix_iff)
  then show ?thesis
    unfolding binding_matchesWildcard_def matchesWildcard_def Let_def t
    by (auto simp: has_suffix_iff)
qed

lemma wf_hostname_lower: "wf_hostname p \<Longrightarrow> \<not> has_prefix (to_lower p) ''.''"
  by (cases p) (auto simp: wf_hostname_def has_prefix_iff to_lower_Cons char_lower_fixed)

lemma hostnameMatches_unfold:
  assumes "wf_hostname l" and "wf_hostname r"
  shows "hostnameMatches l r \<longleftrightarrow>
     (if is_wildcard l \<and> is_wildcard r
      then has_suffix (wild_suffix l) (wild_suffix r) \<or> has_suffix (wild_suffix r) (wild_suffix l)
      else if is_wildcard l then matchesWildcard (to_lower r) (wild_suffix l)
      else if is_wildcard r then matchesWildcard (to_lower l) (wild_suffix r)
      else to_lower l = to_lower r)"
proof (cases "to_lower l = to_lower r")
  case True
  then show ?thesis by (simp add: hostnameMatches_def has_suffix_iff)
next
  case False
  then show ?thesis
    using binding_matchesWildcard_iff [OF _ wf_hostname_lower [OF assms(1)], of "to_lower r"]
      binding_matchesWildcard_iff [OF _ wf_hostname_lower [OF assms(2)], of "to_lower l"]
    unfolding hostnameMatches_def Let_def
    by (cases "is_wildcard l"; cases "is_wildcard r") (simp_all only: if_True if_False simp_thms)
qed

lemma hostnameMatches_covers:
  assumes "wf_hostname l" and "wf_hostname r"
  shows "hostnameMatches l r \<longleftrightarrow> (\<exists>host. covers l host \<and> covers r host)"
proof (cases "is_wildcard l \<and> is_wildcard r")
  case True
  then have "hostnameMatches l r \<longleftrightarrow>
      has_suffix (wild_suffix l) (wild_suffix r) \<or> has_suffix (wild_suffix r) (wild_suffix l)"
    by (simp add: hostnameMatches_unfold [OF assms])
  also have "\<dots> \<longleftrightarrow> (\<exists>host. matchesWildcard host (wild_suffix l) \<and> matchesWildcard host (wild_suffix r))"
  proof
    assume "has_suffix (wild_suffix l) (wild_suffix r) \<or> has_suffix (wild_suffix r) (wild_suffix l)"
    then show "\<exists>host. matchesWildcard host (wild_suffix l) \<and> matchesWildcard host (wild_suffix r)"
      using matchesWildcard_suffix matchesWildcard_fresh by blast
  next
    assume "\<exists>host. matchesWildcard host (wild_suffix l) \<and> matchesWildcard host (wild_suffix r)"
    then show "has_suffix (wild_suffix l) (wild_suffix r) \<or> has_suffix (wild_suffix r) (wild_suffix l)"
      unfolding matchesWildcard_def using has_suffix_total nat_le_linear by metis
  qed
  finally show ?thesis using True by (simp add: covers_wildcard)
next
  case False
  show ?thesis
    unfolding hostnameMatches_unfold [OF assms]
    using False covers_wildcard [of l] covers_wildcard [of r] covers_exact [of l] covers_exact [of r]
    by (cases "is_wildcard l"; cases "is_wildcard r") (simp_all only: if_True if_False simp_thms, auto)
qed

lemma HostnameIntersection_covers:
  assumes "wf_hostname l" and "wf_hostname r" and "HostnameIntersection (Some l) r = Some h"
  shows "covers h host \<longleftrightarrow> covers l host \<and> covers r host"
proof -
  have m: "hostnameMatches l r" and h: "h = (if is_wildcard r
      then (if is_wildcard l \<and> length r > length l then r else l) else r)"
    using assms
    by (auto simp: HostnameIntersection_def wf_hostname_def is_wildcard_lower [of l] is_wildcard_lower [of r]
        split: if_splits)
  note u = m [unfolded hostnameMatches_unfold [OF assms(1,2)]]
  consider (wild) "is_wildcard l" "is_wildcard r" | (left) "is_wildcard l" "\<not> is_wildcard r"
    | (right) "\<not> is_wildcard l" "is_wildcard r" | (exact) "\<not> is_wildcard l" "\<not> is_wildcard r" by blast
  then show ?thesis
  proof cases
    case wild
    have len: "length (wild_suffix p) = length p - 1" for p by (simp add: to_lower_def)
    have nested: "has_suffix (wild_suffix l) (wild_suffix r) \<or> has_suffix (wild_suffix r) (wild_suffix l)"
      using u wild by simp
    show ?thesis
    proof (cases "length r > length l")
      case True
      have "length l \<noteq> 0" using assms(1) by (simp add: wf_hostname_def)
      with True have "length (wild_suffix l) < length (wild_suffix r)"
        unfolding len by linarith
      then have "\<not> has_suffix (wild_suffix l) (wild_suffix r)"
        using has_suffix_length leD by blast
      with nested matchesWildcard_suffix have "matchesWildcard host (wild_suffix r) \<Longrightarrow>
          matchesWildcard host (wild_suffix l)" by blast
      with h wild True show ?thesis by (auto simp: covers_wildcard)
    next
      case False
      then have le: "length (wild_suffix r) \<le> length (wild_suffix l)" unfolding len by linarith
      have "has_suffix (wild_suffix l) (wild_suffix r)"
        using nested
      proof
        assume s: "has_suffix (wild_suffix r) (wild_suffix l)"
        with le has_suffix_length have "length (wild_suffix r) = length (wild_suffix l)" by (metis le_antisym)
        with s have "wild_suffix r = wild_suffix l"
          by (metis has_suffix_same_length has_suffix_append append_Nil)
        with s show ?thesis by (simp only:)
      qed
      with matchesWildcard_suffix have "matchesWildcard host (wild_suffix l) \<Longrightarrow>
          matchesWildcard host (wild_suffix r)" by blast
      with h wild False show ?thesis by (auto simp: covers_wildcard)
    qed
  next
    case left
    then show ?thesis using u h by (simp add: covers_wildcard covers_exact) blast
  next
    case right
    then show ?thesis using u h by (simp add: covers_wildcard covers_exact) blast
  next
    case exact
    then show ?thesis using u h by (simp add: covers_exact)
  qed
qed


text \<open>The hosts a listener and a route admit; an unset hostname admits all.\<close>

definition listener_admits :: "string option \<Rightarrow> string \<Rightarrow> bool" where
  "listener_admits l host \<longleftrightarrow> (case l of None \<Rightarrow> True | Some p \<Rightarrow> p = '''' \<or> covers p host)"

definition route_admits :: "string list \<Rightarrow> string \<Rightarrow> bool" where
  "route_admits rs host \<longleftrightarrow> rs = [] \<or> (\<exists>r \<in> set rs. covers r host)"

definition wf_listener_hostname :: "string option \<Rightarrow> bool" where
  "wf_listener_hostname l \<longleftrightarrow> (case l of None \<Rightarrow> True | Some p \<Rightarrow> p = '''' \<or> wf_hostname p)"

lemma HostnameIntersection_admits:
  assumes "wf_listener_hostname l" and "wf_hostname r"
  shows "(\<exists>h. HostnameIntersection l r = Some h \<and> covers h host) \<longleftrightarrow> listener_admits l host \<and> covers r host"
proof (cases "l = None \<or> l = Some ''''")
  case True
  then show ?thesis by (auto simp: HostnameIntersection_def listener_admits_def)
next
  case False
  then obtain p where p: "l = Some p" "p \<noteq> ''''" by auto
  with assms(1) have wf: "wf_hostname p" by (simp add: wf_listener_hostname_def)
  show ?thesis
  proof (cases "HostnameIntersection l r")
    case None
    then have "\<not> hostnameMatches p r"
      using p by (auto simp: HostnameIntersection_def split: if_splits)
    with None p show ?thesis
      using hostnameMatches_covers [OF wf assms(2)] by (auto simp: listener_admits_def)
  next
    case (Some h)
    with p HostnameIntersection_covers [OF wf assms(2)] show ?thesis by (simp add: listener_admits_def)
  qed
qed

lemma effective_hostnames_admit:
  assumes "wf_listener_hostname l" and "\<forall>r \<in> set rs. wf_hostname r" and "rs \<noteq> [] \<or> (l \<noteq> None \<and> l \<noteq> Some '''')"
  shows "(\<exists>h \<in> set (EffectiveListenerHostnames l rs). covers h host) \<longleftrightarrow>
           listener_admits l host \<and> route_admits rs host"
proof (cases "rs = []")
  case True
  with assms(3) show ?thesis
    by (auto simp: EffectiveListenerHostnames_def listener_admits_def route_admits_def split: option.splits)
next
  case False
  have "(\<exists>h \<in> set (EffectiveListenerHostnames l rs). covers h host) \<longleftrightarrow>
      (\<exists>r \<in> set rs. \<exists>h. HostnameIntersection l r = Some h \<and> covers h host)"
    using False by (auto simp: EffectiveListenerHostnames_def List.map_filter_def) force+
  also have "\<dots> \<longleftrightarrow> (\<exists>r \<in> set rs. listener_admits l host \<and> covers r host)"
    using HostnameIntersection_admits [OF assms(1)] assms(2) by blast
  finally show ?thesis using False by (auto simp: route_admits_def)
qed

lemma HostnamesIntersect_admits:
  assumes "wf_listener_hostname l" and "\<forall>r \<in> set rs. wf_hostname r"
  shows "HostnamesIntersect l rs \<longleftrightarrow> rs = [] \<or> (\<exists>host. listener_admits l host \<and> route_admits rs host)"
proof (cases "l = None \<or> l = Some '''' \<or> rs = []")
  case True
  have "\<exists>host. covers r host" if "wf_hostname r" for r
    using hostnameMatches_covers [OF that that] by (auto simp: hostnameMatches_def)
  then have "rs = [] \<or> (\<exists>host. route_admits rs host)"
    using assms(2) unfolding route_admits_def by (metis list.set_intros(1) neq_Nil_conv)
  with True show ?thesis
    by (auto simp: HostnamesIntersect_def listener_admits_def split: option.splits)
next
  case False
  then obtain p where p: "l = Some p" "p \<noteq> ''''" "rs \<noteq> []" by auto
  with assms(1) have wf: "wf_hostname p" by (simp add: wf_listener_hostname_def)
  have "HostnamesIntersect l rs \<longleftrightarrow> (\<exists>r \<in> set rs. hostnameMatches p r)"
    using p by (simp add: HostnamesIntersect_def list_ex_iff)
  also have "\<dots> \<longleftrightarrow> (\<exists>r \<in> set rs. \<exists>host. covers p host \<and> covers r host)"
    using hostnameMatches_covers [OF wf] assms(2) by blast
  finally show ?thesis using p by (auto simp: listener_admits_def route_admits_def)
qed

section \<open>The decision over the listeners\<close>

lemma match_entries_Inr:
  "match_entries accept s p ls (m, r) = Inr (m', r') \<Longrightarrow>
     (\<forall>l \<in> set ls. selects_listener s p l \<longrightarrow> (\<exists>x. accept l = Inr x))
     \<and> m' = m @ map li_Name (filter (\<lambda>l. selects_listener s p l \<and> accept l = Inr RouteReasonAccepted) ls)
     \<and> r' = (case rev (filter (\<lambda>l. selects_listener s p l \<and> accept l \<noteq> Inr RouteReasonAccepted) ls) of
               [] \<Rightarrow> r | l # _ \<Rightarrow> (case accept l of Inr x \<Rightarrow> Some x | Inl _ \<Rightarrow> r))"
proof (induction ls arbitrary: m r)
  case (Cons l ls)
  show ?case
  proof (cases "selects_listener s p l")
    case False
    with Cons show ?thesis by simp
  next
    case sel: True
    with Cons(2) obtain x where x: "accept l = Inr x" by (auto split: sum.splits)
    show ?thesis
    proof (cases "x = RouteReasonAccepted")
      case True
      then have "match_entries accept s p ls (m @ [li_Name l], r) = Inr (m', r')" using Cons(2) sel x by simp
      from Cons(1) [OF this] sel x True show ?thesis by simp
    next
      case False
      have step: "match_entries accept s p ls (m, Some x) = Inr (m', r')" using Cons(2) sel x False by simp
      from Cons(1) [OF step]
      have IH: "\<forall>l \<in> set ls. selects_listener s p l \<longrightarrow> (\<exists>x. accept l = Inr x)"
        "m' = m @ map li_Name (filter (\<lambda>l. selects_listener s p l \<and> accept l = Inr RouteReasonAccepted) ls)"
        "r' = (case rev (filter (\<lambda>l. selects_listener s p l \<and> accept l \<noteq> Inr RouteReasonAccepted) ls) of
               [] \<Rightarrow> Some x | l # _ \<Rightarrow> (case accept l of Inr x \<Rightarrow> Some x | Inl _ \<Rightarrow> Some x))"
        by simp_all
      show ?thesis
      proof (cases "rev (filter (\<lambda>l. selects_listener s p l \<and> accept l \<noteq> Inr RouteReasonAccepted) ls)")
        case Nil
        with IH sel x False show ?thesis by simp
      next
        case (Cons k ks)
        then have "k \<in> set (rev (filter (\<lambda>l. selects_listener s p l \<and> accept l \<noteq> Inr RouteReasonAccepted) ls))"
          by simp
        then have "\<exists>y. accept k = Inr y" using IH(1) by simp
        with Cons IH sel x False show ?thesis by auto
      qed
    qed
  qed
qed simp


text \<open>What binds a route to a listener.\<close>

definition binds :: "'sel ClusterEnv \<Rightarrow> 'sel Listener \<Rightarrow> string \<Rightarrow> RouteInfo \<Rightarrow> bool" where
  "binds env l ns route \<longleftrightarrow>
     selects_listener (ri_SectionName route) (ri_Port route) l
     \<and> HostnamesIntersect (li_Hostname l) (ri_Hostnames route)
     \<and> IsNamespaceAllowed env (li_AllowedRoutes l) ns (ri_Namespace route) = Inr True
     \<and> IsRouteKindAllowed (li_AllowedRoutes l) (li_Protocol l) (ri_Kind route)"

lemma evaluate_accepted:
  "evaluateListenerBinding env l ns route = Inr RouteReasonAccepted \<longleftrightarrow>
     HostnamesIntersect (li_Hostname l) (ri_Hostnames route)
     \<and> IsNamespaceAllowed env (li_AllowedRoutes l) ns (ri_Namespace route) = Inr True
     \<and> IsRouteKindAllowed (li_AllowedRoutes l) (li_Protocol l) (ri_Kind route)"
  by (auto simp: evaluateListenerBinding_def split: sum.splits if_splits)

lemma bind_listeners_Inr:
  assumes "bind_listeners env ls ns route = Inr res"
  obtains m r where "br_MatchedListeners res = m"
    "m = map li_Name (filter (\<lambda>l. binds env l ns route) ls)"
    "br_Accepted res \<longleftrightarrow> m \<noteq> []" "m \<noteq> [] \<Longrightarrow> br_Reason res = RouteReasonAccepted"
    "ls \<noteq> [] \<Longrightarrow> m = [] \<Longrightarrow> br_Reason res =
       (if ri_SectionName route \<noteq> None \<or> ri_Port route \<noteq> None then RouteReasonNoMatchingParent
        else case r of None \<Rightarrow> RouteReasonNoMatchingParent | Some x \<Rightarrow> x)"
    "r = (case rev (filter (\<lambda>l. selects_listener (ri_SectionName route) (ri_Port route) l
                    \<and> evaluateListenerBinding env l ns route \<noteq> Inr RouteReasonAccepted) ls) of
            [] \<Rightarrow> None
          | l # _ \<Rightarrow> (case evaluateListenerBinding env l ns route of Inr x \<Rightarrow> Some x | Inl _ \<Rightarrow> None))"
proof (cases "ls = []")
  case True
  with assms that show ?thesis
    by (auto simp: bind_listeners_def findMatchingEntries_def makeBindingResult_def)
next
  case False
  let ?acc = "\<lambda>l. evaluateListenerBinding env l ns route"
  from assms False obtain m r where
    e: "match_entries ?acc (ri_SectionName route) (ri_Port route) ls ([], None) = Inr (m, r)"
    by (auto simp: bind_listeners_def findMatchingEntries_def split: sum.splits)
  from match_entries_Inr [OF e] have m: "m = map li_Name (filter (\<lambda>l. binds env l ns route) ls)"
    and r: "r = (case rev (filter (\<lambda>l. selects_listener (ri_SectionName route) (ri_Port route) l
                    \<and> ?acc l \<noteq> Inr RouteReasonAccepted) ls) of
               [] \<Rightarrow> None | l # _ \<Rightarrow> (case ?acc l of Inr x \<Rightarrow> Some x | Inl _ \<Rightarrow> None))"
    by (simp_all add: binds_def evaluate_accepted)
  have res: "res = makeBindingResult m (if m = [] then
       (if ri_SectionName route \<noteq> None \<or> ri_Port route \<noteq> None then RouteReasonNoMatchingParent
        else case r of None \<Rightarrow> RouteReasonNoMatchingParent | Some x \<Rightarrow> x) else RouteReasonAccepted)"
    using assms e False
    by (auto simp: bind_listeners_def findMatchingEntries_def split: option.splits if_splits)
  show ?thesis
    by (rule that [OF _ m _ _ _ r]) (simp_all add: res makeBindingResult_def)
qed

section \<open>Properties\<close>

text \<open>The hostnames a route serves through a listener. For well-formed hostnames, one of the effective
  hostnames covers a host exactly when the listener admits the host and the route does, wildcards on
  either side included; both decisions are the router's own.\<close>

theorem effective_hostnames_exact:
  assumes "wf_listener_hostname l" and "\<forall>r \<in> set rs. wf_hostname r" and "rs \<noteq> [] \<or> (l \<noteq> None \<and> l \<noteq> Some '''')"
  shows "(\<exists>h \<in> set (EffectiveListenerHostnames l rs). host_rank host h \<noteq> None) \<longleftrightarrow>
           listener_admits l host \<and> route_admits rs host"
  using effective_hostnames_admit [OF assms] by (simp add: covers_def)

text \<open>A route is attached to exactly the listeners that select it by section and port, whose hostname
  intersects the route's, whose namespace rule admits the route's namespace and whose kinds admit the
  route's kind, in their order, and it is accepted exactly when there is one. The same decision is taken
  for the listeners of a Gateway and for those of a ListenerSet.\<close>

theorem binding_accepts_exactly:
  assumes "ValidateBinding env gw route = Inr res" and "ValidateBindingForListenerSet env ls route = Inr res'"
  shows "br_MatchedListeners res =
           map li_Name (filter (\<lambda>l. binds env l (gw_Namespace gw) route) (gw_Listeners gw))
         \<and> (br_Accepted res \<longleftrightarrow> (\<exists>l \<in> set (gw_Listeners gw). binds env l (gw_Namespace gw) route))
         \<and> br_MatchedListeners res' =
           map li_Name (filter (\<lambda>l. binds env l (ls_Namespace ls) route) (ls_Listeners ls))
         \<and> (br_Accepted res' \<longleftrightarrow> (\<exists>l \<in> set (ls_Listeners ls). binds env l (ls_Namespace ls) route))"
proof -
  have "br_MatchedListeners r = map li_Name (filter (\<lambda>l. binds env l ns route) xs)
      \<and> (br_Accepted r \<longleftrightarrow> (\<exists>l \<in> set xs. binds env l ns route))"
    if "bind_listeners env xs ns route = Inr r" for r xs ns
    by (rule bind_listeners_Inr [OF that]) (auto simp: filter_empty_conv)
  with assms show ?thesis by (simp add: ValidateBinding_def ValidateBindingForListenerSet_def)
qed

definition sample_listener :: "string \<Rightarrow> string \<Rightarrow> unit Listener" where
  "sample_listener name host =
     \<lparr> li_Name = name, li_Hostname = Some host, li_Port = 80, li_Protocol = ''HTTP'', li_AllowedRoutes = None \<rparr>"

definition sample_gateway :: "unit Gateway" where
  "sample_gateway =
     \<lparr> gw_Namespace = ''infra'', gw_Name = ''gw'', gw_Generation = 1, gw_GatewayClassName = ''cf'',
       gw_Listeners = [sample_listener ''a'' ''*.example.com'', sample_listener ''b'' ''other.org''],
       gw_AllowedListeners = None, gw_Infrastructure = None \<rparr>"

definition sample_listener_set :: "unit ListenerSet" where
  "sample_listener_set =
     \<lparr> ls_Namespace = ''infra'', ls_Name = ''ls'', ls_CreationTimestamp = 0, ls_Generation = 1, ls_ParentNamespace = None,
       ls_ParentName = ''gw'',
       ls_Listeners = [sample_listener ''a'' ''third.org''] \<rparr>"

definition sample_route_info :: RouteInfo where
  "sample_route_info =
     \<lparr> ri_Name = ''r'', ri_Namespace = ''infra'', ri_Hostnames = [''www.example.com''], ri_Kind = ''HTTPRoute'',
       ri_SectionName = None, ri_Port = None \<rparr>"

definition sample_cluster :: "unit ClusterEnv" where
  "sample_cluster = \<lparr> cl_labels = (\<lambda>_. None), cl_selector = (\<lambda>_. Inr (\<lambda>_. True)) \<rparr>"

lemma sample_matches:
  "hostnameMatches ''*.example.com'' ''www.example.com''" "\<not> hostnameMatches ''other.org'' ''www.example.com''"
  "\<not> hostnameMatches ''third.org'' ''www.example.com''"
  by code_simp+

lemma sample_evaluations:
  "evaluateListenerBinding sample_cluster (sample_listener n ''*.example.com'') ''infra'' sample_route_info
     = Inr RouteReasonAccepted"
  "evaluateListenerBinding sample_cluster (sample_listener n ''other.org'') ns sample_route_info
     = Inr RouteReasonNoMatchingListenerHostname"
  "evaluateListenerBinding sample_cluster (sample_listener n ''third.org'') ns sample_route_info
     = Inr RouteReasonNoMatchingListenerHostname"
  "evaluateListenerBinding sample_cluster (sample_listener n ''*.example.com'') ''tenant'' sample_route_info
     = Inr RouteReasonNotAllowedByListeners"
  by (simp_all add: evaluateListenerBinding_def sample_listener_def sample_route_info_def HostnamesIntersect_def
      sample_matches IsNamespaceAllowed_def getNamespaceFrom_def IsRouteKindAllowed_def getAllowedKinds_def
      getDefaultKindsForProtocol_def default_kind_def kindMatches_def kind_group_def)

text \<open>A route that no listener accepts, and that names neither section nor port, is rejected with the
  reason of the last listener, not of the first.\<close>

theorem rejection_reason_is_last:
  assumes "bind_listeners env ls ns route = Inr res" and "ls \<noteq> []" and "\<not> br_Accepted res"
    and "ri_SectionName route = None" and "ri_Port route = None"
  shows "evaluateListenerBinding env (last ls) ns route = Inr (br_Reason res)"
proof (rule bind_listeners_Inr [OF assms(1)])
  fix m r
  assume m: "m = map li_Name (filter (\<lambda>l. binds env l ns route) ls)" and "br_Accepted res = (m \<noteq> [])"
    and reason: "ls \<noteq> [] \<Longrightarrow> m = [] \<Longrightarrow> br_Reason res =
       (if ri_SectionName route \<noteq> None \<or> ri_Port route \<noteq> None then RouteReasonNoMatchingParent
        else case r of None \<Rightarrow> RouteReasonNoMatchingParent | Some x \<Rightarrow> x)"
    and r: "r = (case rev (filter (\<lambda>l. selects_listener (ri_SectionName route) (ri_Port route) l
                    \<and> evaluateListenerBinding env l ns route \<noteq> Inr RouteReasonAccepted) ls) of
            [] \<Rightarrow> None
          | l # _ \<Rightarrow> (case evaluateListenerBinding env l ns route of Inr x \<Rightarrow> Some x | Inl _ \<Rightarrow> None))"
  have sel: "selects_listener (ri_SectionName route) (ri_Port route) l" if "l \<in> set ls" for l
    using assms(4,5) by (simp add: selects_listener_def)
  have "m = []" using assms(3) \<open>br_Accepted res = (m \<noteq> [])\<close> by simp
  with m sel have "evaluateListenerBinding env l ns route \<noteq> Inr RouteReasonAccepted" if "l \<in> set ls" for l
    using that by (auto simp: filter_empty_conv binds_def evaluate_accepted)
  then have "filter (\<lambda>l. selects_listener (ri_SectionName route) (ri_Port route) l
                    \<and> evaluateListenerBinding env l ns route \<noteq> Inr RouteReasonAccepted) ls = ls"
    using sel by (simp add: filter_id_conv)
  moreover have "rev ls = last ls # rev (butlast ls)"
    using assms(2) by (metis append_butlast_last_id rev_eq_Cons_iff rev_rev_ident)
  ultimately have r': "r = (case evaluateListenerBinding env (last ls) ns route of Inr x \<Rightarrow> Some x | Inl _ \<Rightarrow> None)"
    using r by (simp only: list.case)
  from assms(1,2) obtain x where "evaluateListenerBinding env (last ls) ns route = Inr x"
    using match_entries_Inr sel [OF last_in_set [OF assms(2)]] last_in_set [OF assms(2)]
    by (fastforce simp: bind_listeners_def findMatchingEntries_def split: sum.splits)
  with r' reason [OF assms(2) \<open>m = []\<close>] assms(4,5) show ?thesis by simp
qed


text \<open>The kinds a listener reports as supported are the ones it binds. A route of a kind this
  controller serves is admitted by a listener's kinds exactly when the kind is among the supported kinds
  computed for its status.\<close>

theorem supported_kinds_match_binding:
  assumes "kind = ''HTTPRoute'' \<or> kind = ''GRPCRoute''"
  shows "IsRouteKindAllowed allowed protocol kind \<longleftrightarrow>
           kind \<in> gk_Kind ` set (fst (FilterSupportedKinds allowed protocol))"
  using assms by (auto simp: IsRouteKindAllowed_def FilterSupportedKinds_def Let_def list_ex_iff kindMatches_def
      supported_kind_def image_iff)

end
