(* ===== verification/ListenerMerge.thy ===== *)
theory ListenerMerge
  imports RouteBinding
begin

text \<open>
  The merged view of a Gateway's listeners and those of its attached ListenerSets
  (\<^verbatim>\<open>src/internal/listenermerge/merge.go\<close>): precedence and conflicts. Timestamps are integers; a missing
  hostname is the empty string, as in \<^verbatim>\<open>hostnameValue\<close>. The conflict message is a function of the reason.
\<close>

section \<open>Definitions\<close>

datatype ParentKind = ParentKindGateway | ParentKindListenerSet

datatype ConflictReason = NoConflict | ProtocolConflict | HostnameConflict

record 'sel MergedListener =
  ml_ParentKind :: ParentKind
  ml_ListenerSet :: "'sel ListenerSet option"
  ml_Index :: nat
  ml_Name :: string
  ml_Port :: int
  ml_Protocol :: string
  ml_Hostname :: "string option"
  ml_AllowedRoutes :: "'sel AllowedRoutes option"
  ml_Conflict :: ConflictReason

definition merged_of :: "ParentKind \<Rightarrow> 'sel ListenerSet option \<Rightarrow> nat \<Rightarrow> 'sel Listener \<Rightarrow> 'sel MergedListener" where
  "merged_of kind ls i l =
     \<lparr> ml_ParentKind = kind, ml_ListenerSet = ls, ml_Index = i, ml_Name = li_Name l, ml_Port = li_Port l,
       ml_Protocol = li_Protocol l, ml_Hostname = li_Hostname l, ml_AllowedRoutes = li_AllowedRoutes l,
       ml_Conflict = NoConflict \<rparr>"

definition appendGatewayListeners ::
    "'sel MergedListener list \<Rightarrow> 'sel Gateway option \<Rightarrow> 'sel MergedListener list" where
  "appendGatewayListeners out gateway =
     (case gateway of
        None \<Rightarrow> out
      | Some g \<Rightarrow> out @ map (\<lambda>(i, l). merged_of ParentKindGateway None i l) (enumerate 0 (gw_Listeners g)))"

definition appendListenerSetEntries ::
    "'sel MergedListener list \<Rightarrow> 'sel ListenerSet \<Rightarrow> 'sel MergedListener list" where
  "appendListenerSetEntries out ls =
     out @ map (\<lambda>(i, l). merged_of ParentKindListenerSet (Some ls) i l) (enumerate 0 (ls_Listeners ls))"

definition listenerSet_less :: "'sel ListenerSet \<Rightarrow> 'sel ListenerSet \<Rightarrow> bool" where
  "listenerSet_less a b =
     (if ls_CreationTimestamp a \<noteq> ls_CreationTimestamp b then ls_CreationTimestamp a < ls_CreationTimestamp b
      else if ls_Namespace a \<noteq> ls_Namespace b then ls_Namespace a < ls_Namespace b
      else ls_Name a < ls_Name b)"

definition sortListenerSets :: "'sel ListenerSet list \<Rightarrow> 'sel ListenerSet list" where
  "sortListenerSets sets = sort_stable listenerSet_less sets"

definition hostnameValue :: "string option \<Rightarrow> string" where
  "hostnameValue h = (case h of None \<Rightarrow> '''' | Some s \<Rightarrow> s)"

text \<open>\<open>protoSeen\<close> is the protocol of a port, \<open>hostnameSeen\<close> the claimed (port, hostname) pairs.\<close>

fun annotate ::
    "(int \<Rightarrow> string option) \<Rightarrow> (int \<times> string) set \<Rightarrow> 'sel MergedListener list \<Rightarrow> 'sel MergedListener list" where
  "annotate protoSeen hostnameSeen [] = []"
| "annotate protoSeen hostnameSeen (entry # rest) =
     (let key = (ml_Port entry, hostnameValue (ml_Hostname entry)) in
      if (case protoSeen (ml_Port entry) of None \<Rightarrow> False | Some p \<Rightarrow> p \<noteq> ml_Protocol entry)
      then entry \<lparr> ml_Conflict := ProtocolConflict \<rparr> # annotate protoSeen hostnameSeen rest
      else if key \<in> hostnameSeen
      then entry \<lparr> ml_Conflict := HostnameConflict \<rparr> # annotate protoSeen hostnameSeen rest
      else entry # annotate
             (case protoSeen (ml_Port entry) of
                None \<Rightarrow> protoSeen (ml_Port entry \<mapsto> ml_Protocol entry) | Some _ \<Rightarrow> protoSeen)
             (insert key hostnameSeen) rest)"

definition annotateConflicts :: "'sel MergedListener list \<Rightarrow> 'sel MergedListener list" where
  "annotateConflicts merged = annotate Map.empty {} merged"

definition Merge :: "'sel Gateway option \<Rightarrow> 'sel ListenerSet list \<Rightarrow> 'sel MergedListener list" where
  "Merge gateway listenerSets =
     annotateConflicts
       (foldl appendListenerSetEntries (appendGatewayListeners [] gateway) (sortListenerSets listenerSets))"

section \<open>Lemmas\<close>

interpretation listenerSet_order: strict_weak_order listenerSet_less
  by unfold_locales (auto simp: listenerSet_less_def split: if_splits)

definition unconflicted :: "'sel MergedListener \<Rightarrow> bool" where
  "unconflicted m \<longleftrightarrow> ml_Conflict m = NoConflict"

abbreviation slot :: "'sel MergedListener \<Rightarrow> int \<times> string" where
  "slot m \<equiv> (ml_Port m, hostnameValue (ml_Hostname m))"

lemma length_annotate [simp]: "length (annotate P H ms) = length ms"
  by (induction P H ms rule: annotate.induct) (simp_all add: Let_def)

lemma annotate_only_conflict:
  "i < length ms \<Longrightarrow> annotate P H ms ! i = (ms ! i) \<lparr> ml_Conflict := ml_Conflict (annotate P H ms ! i) \<rparr>"
proof (induction P H ms arbitrary: i rule: annotate.induct)
  case (2 P H e rest)
  then show ?case by (cases i) (auto simp: Let_def)
qed simp

text \<open>Two ways an earlier entry can block a later one: another protocol on the port, or the same slot.\<close>

definition protocol_clash :: "'sel MergedListener \<Rightarrow> 'sel MergedListener \<Rightarrow> bool" where
  "protocol_clash a m \<longleftrightarrow> ml_Port a = ml_Port m \<and> ml_Protocol a \<noteq> ml_Protocol m"

definition hostname_clash :: "'sel MergedListener \<Rightarrow> 'sel MergedListener \<Rightarrow> bool" where
  "hostname_clash a m \<longleftrightarrow> slot a = slot m"

definition proto_blocked :: "(int \<Rightarrow> string option) \<Rightarrow> 'sel MergedListener \<Rightarrow> bool" where
  "proto_blocked P m \<longleftrightarrow> (case P (ml_Port m) of None \<Rightarrow> False | Some p \<Rightarrow> p \<noteq> ml_Protocol m)"

lemma annotate_Cons_cases:
  "annotate P H (e # rest) =
     (if proto_blocked P e then e \<lparr> ml_Conflict := ProtocolConflict \<rparr> # annotate P H rest
      else if slot e \<in> H then e \<lparr> ml_Conflict := HostnameConflict \<rparr> # annotate P H rest
      else e # annotate (P (ml_Port e \<mapsto> ml_Protocol e)) (insert (slot e) H) rest)"
proof -
  have "(case P (ml_Port e) of None \<Rightarrow> P (ml_Port e \<mapsto> ml_Protocol e) | Some _ \<Rightarrow> P) = P (ml_Port e \<mapsto> ml_Protocol e)"
    if "\<not> proto_blocked P e"
    using that by (auto simp: proto_blocked_def split: option.splits)
  then show ?thesis by (simp add: Let_def proto_blocked_def)
qed

declare annotate.simps(2) [simp del]

lemma proto_blocked_claim:
  "\<not> proto_blocked P e \<Longrightarrow>
     proto_blocked (P (ml_Port e \<mapsto> ml_Protocol e)) m \<longleftrightarrow> proto_blocked P m \<or> protocol_clash e m"
  by (auto simp: proto_blocked_def protocol_clash_def split: option.splits)

definition blocked_by :: "bool \<Rightarrow> bool \<Rightarrow> ConflictReason" where
  "blocked_by proto host = (if proto then ProtocolConflict else if host then HostnameConflict else NoConflict)"

lemma blocked_by_NoConflict: "blocked_by a b = NoConflict \<longleftrightarrow> \<not> a \<and> \<not> b"
  by (simp add: blocked_by_def)

lemma ex_less_Suc_shift: "(\<exists>j < Suc k. Q j) \<longleftrightarrow> Q 0 \<or> (\<exists>j < k. Q (Suc j))"
  by (auto simp: less_Suc_eq_0_disj)

lemma annotate_reason:
  assumes "\<forall>m \<in> set ms. unconflicted m" and "i < length ms"
  shows "ml_Conflict (annotate P H ms ! i) =
     blocked_by
       (proto_blocked P (ms ! i) \<or>
          (\<exists>j < i. unconflicted (annotate P H ms ! j) \<and> protocol_clash (ms ! j) (ms ! i)))
       (slot (ms ! i) \<in> H \<or>
          (\<exists>j < i. unconflicted (annotate P H ms ! j) \<and> hostname_clash (ms ! j) (ms ! i)))"
  using assms
proof (induction ms arbitrary: i P H)
  case (Cons e rest)
  have e: "unconflicted e" and rest: "\<forall>m \<in> set rest. unconflicted m" using Cons.prems(1) by simp_all
  show ?case
  proof (cases i)
    case 0
    with e show ?thesis by (simp add: annotate_Cons_cases blocked_by_def unconflicted_def)
  next
    case (Suc k)
    with Cons.prems(2) have k: "k < length rest" by simp
    show ?thesis
    proof (cases "proto_blocked P e \<or> slot e \<in> H")
      case True
      then have a: "annotate P H (e # rest) ! Suc j = annotate P H rest ! j"
          "\<not> unconflicted (annotate P H (e # rest) ! 0)" for j
        by (auto simp: annotate_Cons_cases unconflicted_def)
      show ?thesis unfolding Suc ex_less_Suc_shift a(1) nth_Cons_Suc Cons.IH [OF rest k] by (simp add: a(2))
    next
      case False
      let ?A = "annotate (P (ml_Port e \<mapsto> ml_Protocol e)) (insert (slot e) H) rest"
      have a: "annotate P H (e # rest) ! Suc j = ?A ! j" "unconflicted (annotate P H (e # rest) ! 0)" for j
        using False e by (auto simp: annotate_Cons_cases)
      have h: "slot m \<in> insert (slot e) H \<longleftrightarrow> slot m \<in> H \<or> hostname_clash e m" for m
        unfolding hostname_clash_def by (simp only: insert_iff) (metis (no_types))
      from False have p: "\<not> proto_blocked P e" by blast
      show ?thesis
        unfolding Suc ex_less_Suc_shift a(1) nth_Cons_Suc nth_Cons_0 Cons.IH [OF rest k]
          proto_blocked_claim [OF p] h
        by (simp only: a(2) simp_thms disj_assoc)
    qed
  qed
qed simp

text \<open>The view before conflicts are marked: the Gateway's listeners, then those of each ListenerSet.\<close>

definition set_entries :: "'sel ListenerSet \<Rightarrow> 'sel MergedListener list" where
  "set_entries ls = map (\<lambda>(i, l). merged_of ParentKindListenerSet (Some ls) i l) (enumerate 0 (ls_Listeners ls))"

definition raw_view :: "'sel Gateway option \<Rightarrow> 'sel ListenerSet list \<Rightarrow> 'sel MergedListener list" where
  "raw_view g lss = appendGatewayListeners [] g @ concat (map set_entries (sortListenerSets lss))"

lemma foldl_appendListenerSetEntries:
  "foldl appendListenerSetEntries out lss = out @ concat (map set_entries lss)"
  by (induction lss arbitrary: out) (simp_all add: appendListenerSetEntries_def set_entries_def)

lemma Merge_raw: "Merge g lss = annotate Map.empty {} (raw_view g lss)"
  by (simp add: Merge_def annotateConflicts_def raw_view_def foldl_appendListenerSetEntries)

lemma raw_unconflicted: "\<forall>m \<in> set (raw_view g lss). unconflicted m"
  by (auto simp: raw_view_def appendGatewayListeners_def set_entries_def merged_of_def unconflicted_def
      split: option.splits)

lemma clash_conflict_irrelevant [simp]:
  "protocol_clash (a \<lparr> ml_Conflict := x \<rparr>) m = protocol_clash a m"
  "protocol_clash a (m \<lparr> ml_Conflict := y \<rparr>) = protocol_clash a m"
  "hostname_clash (a \<lparr> ml_Conflict := x \<rparr>) m = hostname_clash a m"
  "hostname_clash a (m \<lparr> ml_Conflict := y \<rparr>) = hostname_clash a m"
  by (simp_all add: protocol_clash_def hostname_clash_def)

lemma Merge_reason:
  assumes "i < length (Merge g lss)"
  shows "ml_Conflict (Merge g lss ! i) =
     blocked_by
       (\<exists>j < i. unconflicted (Merge g lss ! j) \<and> protocol_clash (Merge g lss ! j) (Merge g lss ! i))
       (\<exists>j < i. unconflicted (Merge g lss ! j) \<and> hostname_clash (Merge g lss ! j) (Merge g lss ! i))"
proof -
  let ?raw = "raw_view g lss"
  have i: "i < length ?raw" using assms by (simp add: Merge_raw)
  have clash: "protocol_clash (Merge g lss ! j) (Merge g lss ! i) = protocol_clash (?raw ! j) (?raw ! i)"
    "hostname_clash (Merge g lss ! j) (Merge g lss ! i) = hostname_clash (?raw ! j) (?raw ! i)" if "j < i" for j
    unfolding Merge_raw
    by (subst annotate_only_conflict [OF i], subst annotate_only_conflict [OF less_trans [OF that i]], simp)+
  show ?thesis
    using annotate_reason [OF raw_unconflicted i, of Map.empty "{}"] clash
    by (simp add: proto_blocked_def Merge_raw cong: conj_cong)
qed

lemma annotate_append:
  "\<exists>P' H'. annotate P H (xs @ ys) = annotate P H xs @ annotate P' H' ys"
  by (induction xs arbitrary: P H) (auto simp: annotate_Cons_cases)

lemma Merge_prefix:
  assumes "sortListenerSets lss' = sortListenerSets lss @ younger"
  shows "\<exists>rest. Merge g lss' = Merge g lss @ rest"
  using annotate_append [of Map.empty "{}" "raw_view g lss" "concat (map set_entries younger)"] assms
  by (auto simp: Merge_raw raw_view_def)

lemma sortListenerSets_order_independent:
  assumes "mset a = mset b" and "inj_on (\<lambda>ls. (ls_Namespace ls, ls_Name ls)) (set a)"
  shows "sortListenerSets a = sortListenerSets b"
  unfolding sortListenerSets_def
proof (rule listenerSet_order.sort_stable_order_independent [OF assms(1)])
  show "x = y" if "x \<in> set a" "y \<in> set a" "\<not> listenerSet_less x y" "\<not> listenerSet_less y x" for x y
    by (rule inj_onD [OF assms(2) _ that(1,2)])
      (use that(3,4) in \<open>auto simp: listenerSet_less_def split: if_splits\<close>)
qed

lemma sortListenerSets_snoc:
  assumes "\<forall>ls \<in> set lss. listenerSet_less ls new"
  shows "sortListenerSets (lss @ [new]) = sortListenerSets lss @ [new]"
proof -
  have insert: "insert_by listenerSet_less x (ys @ [new]) = insert_by listenerSet_less x ys @ [new]"
    if "listenerSet_less x new" for x and ys :: "'a ListenerSet list"
    using that listenerSet_order.less_asym by (induction ys) auto
  show ?thesis using assms
    by (induction lss) (simp_all add: sortListenerSets_def insert)
qed

text \<open>C16: conflict marking is exact. Walking the merged view, an entry is marked with a protocol conflict
  exactly when an unconflicted entry of higher precedence uses another protocol on its port; otherwise with
  a hostname conflict exactly when one holds its (port, hostname) slot; otherwise it stays accepted. Hence the
  accepted entries use one protocol per port and no two share a slot.\<close>

theorem merge_conflicts_exact:
  assumes "i < length (Merge g lss)"
  shows "(let M = Merge g lss; m = M ! i;
              rivals = {M ! j | j. j < i \<and> ml_Conflict (M ! j) = NoConflict \<and> ml_Port (M ! j) = ml_Port m} in
          ml_Conflict m =
            (if \<exists>r \<in> rivals. ml_Protocol r \<noteq> ml_Protocol m then ProtocolConflict
             else if \<exists>r \<in> rivals. hostnameValue (ml_Hostname r) = hostnameValue (ml_Hostname m)
             then HostnameConflict else NoConflict)
        \<and> (ml_Conflict m = NoConflict \<longrightarrow>
             (\<forall>r \<in> rivals. ml_Protocol r = ml_Protocol m \<and> hostnameValue (ml_Hostname r) \<noteq> hostnameValue (ml_Hostname m))))"
proof -
  have reason: "ml_Conflict (Merge g lss ! i) =
     (if \<exists>j < i. unconflicted (Merge g lss ! j) \<and> protocol_clash (Merge g lss ! j) (Merge g lss ! i) then ProtocolConflict
      else if \<exists>j < i. unconflicted (Merge g lss ! j) \<and> hostname_clash (Merge g lss ! j) (Merge g lss ! i)
      then HostnameConflict else NoConflict)"
    using Merge_reason [OF assms] by (simp add: blocked_by_def)
  show ?thesis
    unfolding Let_def reason unconflicted_def protocol_clash_def hostname_clash_def by auto
qed

text \<open>Precedence. The merged view does not depend on the order the ListenerSets arrive in, and attaching
  one more ListenerSet that comes after all others appends its entries without changing any verdict: neither the
  Gateway's own listeners nor an older ListenerSet can be displaced by a newcomer.\<close>

theorem merge_precedence:
  assumes "mset lss' = mset (new # lss)" and "inj_on (\<lambda>ls. (ls_Namespace ls, ls_Name ls)) (set lss')"
    and "\<forall>ls \<in> set lss. listenerSet_less ls new"
  shows "(\<exists>rest. Merge g lss' = Merge g lss @ rest \<and> length rest = length (ls_Listeners new))
    \<and> take (length (Merge g [])) (Merge g lss') = Merge g []"
proof -
  have sorted: "sortListenerSets lss' = sortListenerSets lss @ [new]"
    using sortListenerSets_order_independent [OF _ assms(2), of "lss @ [new]"] sortListenerSets_snoc [OF assms(3)] assms(1)
    by simp
  then obtain rest where rest: "Merge g lss' = Merge g lss @ rest" using Merge_prefix by blast
  have "length (Merge g lss') = length (Merge g lss) + length (ls_Listeners new)"
    by (simp add: Merge_raw raw_view_def sorted set_entries_def)
  then have "length rest = length (ls_Listeners new)" by (simp add: rest)
  moreover obtain rest' where "Merge g lss' = Merge g [] @ rest'"
    using Merge_prefix [of lss' "[]" "sortListenerSets lss'" g] by (auto simp: sortListenerSets_def)
  then have "take (length (Merge g [])) (Merge g lss') = Merge g []" by simp
  ultimately show ?thesis using rest by blast
qed

text \<open>A younger ListenerSet that claims a hostname of the sample Gateway.\<close>

definition rival_set :: "unit ListenerSet" where
  "rival_set =
     \<lparr> ls_Namespace = ''infra'', ls_Name = ''late'', ls_CreationTimestamp = 7, ls_Generation = 1, ls_ParentNamespace = None,
       ls_ParentName = ''gw'',
       ls_Listeners = [sample_listener ''x'' ''other.org''] \<rparr>"

lemma sample_merge:
  "map (\<lambda>m. (ml_Name m, ml_Conflict m)) (Merge (Some sample_gateway) [rival_set]) =
     [(''a'', NoConflict), (''b'', NoConflict), (''x'', HostnameConflict)]"
  by (simp add: Merge_def annotateConflicts_def sortListenerSets_def appendGatewayListeners_def
      appendListenerSetEntries_def merged_of_def sample_gateway_def sample_listener_def rival_set_def
      annotate_Cons_cases proto_blocked_def hostnameValue_def)

theorem merge_conflicts_exact_witness:
  "ml_Conflict (Merge (Some sample_gateway) [rival_set] ! 2) = HostnameConflict
   \<and> ml_Conflict (Merge (Some sample_gateway) [rival_set] ! 1) = NoConflict"
proof -
  let ?M = "Merge (Some sample_gateway) [rival_set]"
  have len: "length ?M = 3" using arg_cong [OF sample_merge, of length] by simp
  have nth: "ml_Conflict (?M ! i) = snd (map (\<lambda>m. (ml_Name m, ml_Conflict m)) ?M ! i)" if "i < 3" for i
    using that len by simp
  show ?thesis
    using merge_conflicts_exact [of 2 "Some sample_gateway" "[rival_set]"] nth [of 1] nth [of 2] len sample_merge
    by simp
qed

text \<open>The tie-break compares the namespaces first. The package comment describes the comparison of the strings
  \<^verbatim>\<open>{namespace}/{name}\<close>, which orders these two sets the other way round: \<^verbatim>\<open>-\<close> sorts before \<^verbatim>\<open>/\<close>.\<close>

lemma tie_break_is_not_joined_order:
  fixes a b :: "'sel ListenerSet"
  assumes "ls_CreationTimestamp a = ls_CreationTimestamp b"
    and "ls_Namespace a = ''team''" and "ls_Namespace b = ''team-x''"
  shows "listenerSet_less a b
    \<and> ls_Namespace b @ ''/'' @ ls_Name b < ls_Namespace a @ ''/'' @ ls_Name a"
  using assms by (simp add: listenerSet_less_def less_char_def)


end
