(* ===== verification/HostnameOwnership.thy ===== *)
theory HostnameOwnership
  imports RouteBinding
begin

text \<open>
  The per-namespace hostname ownership policy (\<^verbatim>\<open>src/internal/hostnameownership/policy.go\<close>). The label
  selector parser \<^verbatim>\<open>labels.Parse\<close> is the parameter \<open>parse_selector\<close>; a compiled selector is the predicate
  its \<^verbatim>\<open>Matches\<close> method computes. The verdict's message is left out: it is a text for the operator.
\<close>

section \<open>Definitions\<close>

record Policy =
  pol_labelKey :: string
  pol_selector :: "(labels \<Rightarrow> bool) option"

definition New :: "(string \<Rightarrow> gerr + (labels \<Rightarrow> bool)) \<Rightarrow> string \<Rightarrow> string \<Rightarrow> gerr + Policy" where
  "New parse_selector labelKey namespaceSelector =
     (if trim_space labelKey = '''' then Inl (Sentinel errEmptyLabelKey)
      else if trim_space namespaceSelector \<noteq> ''''
      then (case parse_selector namespaceSelector of
              Inl err \<Rightarrow> Inl (Wrapped (InText ''hostname ownership: parse namespace selector'') err)
            | Inr selector \<Rightarrow> Inr \<lparr> pol_labelKey = labelKey, pol_selector = Some selector \<rparr>)
      else Inr \<lparr> pol_labelKey = labelKey, pol_selector = None \<rparr>)"

definition hostnameWithinSuffix :: "string \<Rightarrow> string \<Rightarrow> bool" where
  "hostnameWithinSuffix hostname sfx =
     (let candidate = trim_prefix (to_lower hostname) ''*.''
      in candidate = sfx \<or> has_suffix candidate (''.'' @ sfx))"

definition ownership_suffix :: "Policy \<Rightarrow> labels \<Rightarrow> string" where
  "ownership_suffix p nsLabels =
     to_lower (case nsLabels (pol_labelKey p) of None \<Rightarrow> '''' | Some v \<Rightarrow> v)"

definition Evaluate :: "Policy \<Rightarrow> labels \<Rightarrow> string list \<Rightarrow> bool" where
  "Evaluate p nsLabels hostnames =
     (if (case pol_selector p of None \<Rightarrow> False | Some selector \<Rightarrow> \<not> selector nsLabels) then True
      else let sfx = ownership_suffix p nsLabels
           in if sfx = '''' then False
              else if hostnames = [] then False
              else list_all (\<lambda>hostname. hostnameWithinSuffix hostname sfx) hostnames)"

section \<open>The policy is exact\<close>

text \<open>The hosts a namespace owns: its suffix and everything below it.\<close>

definition owned :: "string \<Rightarrow> string \<Rightarrow> bool" where
  "owned sfx host \<longleftrightarrow> host = sfx \<or> has_suffix host (''.'' @ sfx)"

definition polices :: "Policy \<Rightarrow> labels \<Rightarrow> bool" where
  "polices p nsLabels \<longleftrightarrow> (case pol_selector p of None \<Rightarrow> True | Some selector \<Rightarrow> selector nsLabels)"

lemma owned_below: "owned sfx d \<Longrightarrow> has_suffix host (''.'' @ d) \<Longrightarrow> owned sfx host"
  unfolding owned_def has_suffix_iff by auto

text \<open>Of two hosts one label below a name that is not owned, at most one is the suffix itself.\<close>

lemma not_owned_below:
  assumes "\<not> owned sfx d" and "c \<noteq> CHR ''.''" and "c # ''.'' @ d \<noteq> sfx"
  shows "\<not> owned sfx (c # ''.'' @ d)"
proof
  assume "owned sfx (c # ''.'' @ d)"
  with assms(3) obtain l where l: "c # ''.'' @ d = l @ ''.'' @ sfx"
    unfolding owned_def has_suffix_iff by blast
  show False
  proof (cases l)
    case Nil
    with l assms(2) show ?thesis by simp
  next
    case (Cons a l')
    with l have d: "CHR ''.'' # d = l' @ CHR ''.'' # sfx" by simp
    show ?thesis
    proof (cases l')
      case Nil
      with d assms(1) show ?thesis by (simp add: owned_def)
    next
      case (Cons b l'')
      with d have "d = l'' @ ''.'' @ sfx" by simp
      with assms(1) show ?thesis unfolding owned_def has_suffix_iff by blast
    qed
  qed
qed

lemma within_suffix_exact:
  "hostnameWithinSuffix p sfx \<longleftrightarrow> (\<forall>host. covers p host \<longrightarrow> owned sfx host)"
proof (cases "is_wildcard p")
  case True
  then obtain d where d: "to_lower p = ''*.'' @ d" by (auto simp: has_prefix_iff)
  have wild: "wild_suffix p = ''.'' @ d" using d by simp
  have within: "hostnameWithinSuffix p sfx \<longleftrightarrow> owned sfx d"
    unfolding hostnameWithinSuffix_def owned_def d Let_def trim_prefix_append by blast
  have "owned sfx d" if all: "\<forall>host. covers p host \<longrightarrow> owned sfx host"
  proof (rule ccontr)
    assume no: "\<not> owned sfx d"
    have cov: "covers p (c # ''.'' @ d)" for c
      unfolding covers_wildcard [OF True] wild by (rule matchesWildcard_fresh)
    obtain c where "c \<noteq> CHR ''.''" "c # ''.'' @ d \<noteq> sfx"
    proof (cases "CHR ''a'' # ''.'' @ d = sfx")
      case True
      then have "CHR ''b'' # ''.'' @ d \<noteq> sfx" by auto
      then show ?thesis using that [of "CHR ''b''"] by simp
    next
      case False
      then show ?thesis using that [of "CHR ''a''"] by simp
    qed
    from not_owned_below [OF no this] cov all show False by blast
  qed
  moreover have "owned sfx host" if "owned sfx d" "covers p host" for host
    using owned_below [OF that(1)] that(2) unfolding covers_wildcard [OF True] wild matchesWildcard_def by blast
  ultimately show ?thesis using within by blast
next
  case False
  then have "trim_prefix (to_lower p) ''*.'' = to_lower p" by (simp add: trim_prefix_def)
  then show ?thesis
    unfolding covers_exact [OF False] hostnameWithinSuffix_def owned_def Let_def by simp
qed

lemma not_all_owned: "\<exists>host. \<not> owned sfx host"
proof -
  have "\<not> owned sfx (CHR ''a'' # sfx)" unfolding owned_def has_suffix_def by auto
  then show ?thesis by blast
qed

lemma Evaluate_exact:
  "Evaluate p nsLabels hostnames \<longleftrightarrow>
     (polices p nsLabels \<longrightarrow>
        ownership_suffix p nsLabels \<noteq> '''' \<and>
        (\<forall>host. route_admits hostnames host \<longrightarrow> owned (ownership_suffix p nsLabels) host))"
proof -
  have "hostnames \<noteq> [] \<and> list_all (\<lambda>h. hostnameWithinSuffix h sfx) hostnames \<longleftrightarrow>
      (\<forall>host. route_admits hostnames host \<longrightarrow> owned sfx host)" for sfx
    using not_all_owned [of sfx] by (auto simp: list_all_iff within_suffix_exact route_admits_def)
  then show ?thesis
    by (auto simp: Evaluate_def polices_def Let_def split: option.splits)
qed

text \<open>C17: the ownership policy is exact. A compiled policy lets a route of a policed namespace through exactly
  when the namespace names a suffix and every host the router can serve under the route's hostnames is that suffix
  or lies below it; with an empty selector every namespace is policed. A policy is compiled exactly when its
  label key is not blank and its selector is blank or parses.\<close>

theorem ownership_policy_exact:
  "(case New parse_selector labelKey namespaceSelector of
      Inl _ \<Rightarrow> trim_space labelKey = '''' \<or>
               (trim_space namespaceSelector \<noteq> '''' \<and> isl (parse_selector namespaceSelector))
    | Inr p \<Rightarrow>
        pol_labelKey p = labelKey
        \<and> (polices p nsLabels \<longleftrightarrow>
             trim_space namespaceSelector = ''''
             \<or> (\<exists>selector. parse_selector namespaceSelector = Inr selector \<and> selector nsLabels))
        \<and> (Evaluate p nsLabels hostnames \<longleftrightarrow>
             \<not> polices p nsLabels
             \<or> (ownership_suffix p nsLabels \<noteq> ''''
                \<and> {host. route_admits hostnames host} \<subseteq> {host. owned (ownership_suffix p nsLabels) host})))"
proof -
  have "Evaluate p nsLabels hostnames \<longleftrightarrow>
             \<not> polices p nsLabels
             \<or> (ownership_suffix p nsLabels \<noteq> ''''
                \<and> {host. route_admits hostnames host} \<subseteq> {host. owned (ownership_suffix p nsLabels) host})" for p
    unfolding Evaluate_exact by blast
  then show ?thesis
    by (auto simp: New_def polices_def split: sum.splits)
qed

theorem ownership_policy_exact_witness:
  "\<exists>p. New (\<lambda>_. Inl (Sentinel errParseSelector)) ''owner'' '''' = Inr p
     \<and> Evaluate p [''owner'' \<mapsto> ''Team.example''] [''*.team.example'']
     \<and> {host. route_admits [''*.team.example''] host} \<subseteq> {host. owned ''team.example'' host}"
proof -
  let ?p = "\<lparr> pol_labelKey = ''owner'', pol_selector = None \<rparr>"
  have new: "New (\<lambda>_. Inl (Sentinel errParseSelector)) ''owner'' '''' = Inr ?p"
  proof -
    have "trim_space ''owner'' \<noteq> ''''" "trim_space '''' = ''''" by code_simp+
    then show ?thesis by (simp add: New_def)
  qed
  have sfx: "ownership_suffix ?p [''owner'' \<mapsto> ''Team.example''] = ''team.example''"
    unfolding ownership_suffix_def by (simp, code_simp)
  have within: "hostnameWithinSuffix ''*.team.example'' ''team.example''" by code_simp
  have ev: "Evaluate ?p [''owner'' \<mapsto> ''Team.example''] [''*.team.example'']"
    unfolding Evaluate_def Let_def sfx using within by simp
  have "polices ?p [''owner'' \<mapsto> ''Team.example'']" by (simp add: polices_def)
  with ownership_policy_exact [where parse_selector = "\<lambda>_. Inl (Sentinel errParseSelector)"
      and labelKey = "''owner''" and namespaceSelector = "''''"
      and nsLabels = "[''owner'' \<mapsto> ''Team.example'']" and hostnames = "[''*.team.example'']"] ev
  have "{host. route_admits [''*.team.example''] host} \<subseteq> {host. owned ''team.example'' host}"
    unfolding new sum.case sfx by blast
  with new ev show ?thesis by blast
qed


end
