(* ===== verification/RouteAttach.thy ===== *)
theory RouteAttach
  imports ListenerMerge HostnameOwnership
begin

text \<open>
  Attachment of routes to parents in the controller: the merged listener view of a Gateway
  (\<^verbatim>\<open>listenerset_view.go\<close>, \<^verbatim>\<open>listenerset_collect.go\<close>), the binding of one parent reference
  (\<^verbatim>\<open>route_parent_binding.go\<close>), the folding of all references and the ownership policy into the verdict on a
  route (\<^verbatim>\<open>route_syncer.go\<close>), all under \<^verbatim>\<open>src/internal/controller\<close>. The API objects the code reads through
  its client are the record \<open>Cluster\<close>: a pass works on one snapshot, so the per-pass cache of views is the
  function that builds a view. A binding result for a parent that is not managed is None.
\<close>

section \<open>The cluster\<close>

record 'sel Cluster =
  k_env :: "'sel ClusterEnv"
  k_gateway :: "string \<Rightarrow> string \<Rightarrow> 'sel Gateway option"
  k_listenerSet :: "string \<Rightarrow> string \<Rightarrow> 'sel ListenerSet option"
  k_listListenerSets :: "gerr + 'sel ListenerSet list"
  k_listClasses :: "gerr + (string \<times> string) list"

record ParentReference =
  pr_Group :: "string option"
  pr_Kind :: "string option"
  pr_Namespace :: "string option"
  pr_Name :: string
  pr_SectionName :: "string option"
  pr_Port :: "int option"

text \<open>What the controller reads of an HTTPRoute or GRPCRoute; \<open>rt_Rules\<close> is the rest of its specification.\<close>

record 'r Route =
  rt_Namespace :: string
  rt_Name :: string
  rt_Kind :: string
  rt_Created :: int
  rt_Hostnames :: "string list"
  rt_ParentRefs :: "ParentReference list"
  rt_Rules :: 'r

section \<open>Merged views\<close>

definition listenerSet_parent_namespace :: "'sel ListenerSet \<Rightarrow> string" where
  "listenerSet_parent_namespace ls =
     (case ls_ParentNamespace ls of None \<Rightarrow> ls_Namespace ls | Some n \<Rightarrow> if n \<noteq> '''' then n else ls_Namespace ls)"

definition listenerSetTargetsGateway :: "'sel ListenerSet \<Rightarrow> 'sel Gateway \<Rightarrow> bool" where
  "listenerSetTargetsGateway ls gateway =
     (if ls_ParentName ls \<noteq> gw_Name gateway then False
      else listenerSet_parent_namespace ls = gw_Namespace gateway)"

definition listTargetingListenerSets :: "'sel Cluster \<Rightarrow> 'sel Gateway \<Rightarrow> gerr + 'sel ListenerSet list" where
  "listTargetingListenerSets cl gateway =
     (case k_listListenerSets cl of
        Inl e \<Rightarrow> Inl (Wrapped (InText ''failed to list listenersets'') e)
      | Inr all \<Rightarrow> Inr (filter (\<lambda>ls. listenerSetTargetsGateway ls gateway) all))"

fun acceptedFromCandidates ::
    "'sel ClusterEnv \<Rightarrow> 'sel Gateway \<Rightarrow> 'sel ListenerSet list \<Rightarrow> gerr + 'sel ListenerSet list" where
  "acceptedFromCandidates env gateway [] = Inr []"
| "acceptedFromCandidates env gateway (ls # rest) =
     (case EvaluateListenerSetAcceptance env gateway ls of
        Inl e \<Rightarrow> Inl (Wrapped (InText ''failed to evaluate listenerset acceptance'') e)
      | Inr accepted \<Rightarrow>
          (case acceptedFromCandidates env gateway rest of
             Inl e \<Rightarrow> Inl e
           | Inr out \<Rightarrow> Inr (if accepted then ls # out else out)))"

record 'sel gatewayListenerView =
  gv_acceptedSets :: "'sel ListenerSet list"
  gv_merged :: "'sel MergedListener list"

definition viewFromCandidates ::
    "'sel ClusterEnv \<Rightarrow> 'sel Gateway \<Rightarrow> 'sel ListenerSet list \<Rightarrow> gerr + 'sel gatewayListenerView" where
  "viewFromCandidates env gateway candidates =
     (case acceptedFromCandidates env gateway candidates of
        Inl e \<Rightarrow> Inl e
      | Inr accepted \<Rightarrow> Inr \<lparr> gv_acceptedSets = accepted, gv_merged = Merge (Some gateway) accepted \<rparr>)"

definition buildGatewayListenerView :: "'sel Cluster \<Rightarrow> 'sel Gateway \<Rightarrow> gerr + 'sel gatewayListenerView" where
  "buildGatewayListenerView cl gateway =
     (case listTargetingListenerSets cl gateway of
        Inl e \<Rightarrow> Inl e
      | Inr candidates \<Rightarrow> viewFromCandidates (k_env cl) gateway candidates)"

definition findMergedEntry ::
    "'sel MergedListener list \<Rightarrow> 'sel ListenerSet \<Rightarrow> string \<Rightarrow> 'sel MergedListener option" where
  "findMergedEntry merged ls name =
     find (\<lambda>e. ml_ParentKind e = ParentKindListenerSet
             \<and> (case ml_ListenerSet e of None \<Rightarrow> False
                | Some s \<Rightarrow> ls_Namespace s = ls_Namespace ls \<and> ls_Name s = ls_Name ls)
             \<and> ml_Name e = name) merged"

definition findMergedGatewayEntry :: "'sel MergedListener list \<Rightarrow> string \<Rightarrow> 'sel MergedListener option" where
  "findMergedGatewayEntry merged name =
     find (\<lambda>e. ml_ParentKind e = ParentKindGateway \<and> ml_Name e = name) merged"

definition entry_conflict :: "'sel MergedListener option \<Rightarrow> ConflictReason" where
  "entry_conflict e = (case e of None \<Rightarrow> NoConflict | Some m \<Rightarrow> ml_Conflict m)"

definition conflictReason :: "'sel gatewayListenerView \<Rightarrow> 'sel ListenerSet \<Rightarrow> string \<Rightarrow> ConflictReason" where
  "conflictReason view ls name = entry_conflict (findMergedEntry (gv_merged view) ls name)"

definition gatewayListenerConflictReason :: "'sel gatewayListenerView \<Rightarrow> string \<Rightarrow> ConflictReason" where
  "gatewayListenerConflictReason view name = entry_conflict (findMergedGatewayEntry (gv_merged view) name)"

definition gateway_conflicted_listeners :: "'sel Cluster \<Rightarrow> 'sel Gateway \<Rightarrow> string list" where
  "gateway_conflicted_listeners cl gateway =
     (case buildGatewayListenerView cl gateway of
        Inl _ \<Rightarrow> []
      | Inr view \<Rightarrow>
          map ml_Name (filter (\<lambda>e. ml_ParentKind e = ParentKindGateway \<and> ml_Conflict e \<noteq> NoConflict) (gv_merged view)))"

section \<open>Binding one parent reference\<close>

record parentRefBinding =
  pb_Result :: BindingResult
  pb_GatewayKey :: string

definition object_key :: "string \<Rightarrow> string \<Rightarrow> string" where
  "object_key namespace name = namespace @ ''/'' @ name"

definition gateway_key :: "'sel Gateway \<Rightarrow> string" where
  "gateway_key g = object_key (gw_Namespace g) (gw_Name g)"

definition managedClassNames :: "'sel Cluster \<Rightarrow> string \<Rightarrow> gerr + string list" where
  "managedClassNames cl controllerName =
     (case k_listClasses cl of
        Inl e \<Rightarrow> Inl (Wrapped (InText ''listing GatewayClasses for controller'') e)
      | Inr classes \<Rightarrow> Inr (map fst (filter (\<lambda>(name, ctrl). ctrl = controllerName) classes)))"

definition gatewayIsManaged :: "'sel Cluster \<Rightarrow> string \<Rightarrow> 'sel Gateway \<Rightarrow> gerr + bool" where
  "gatewayIsManaged cl controllerName gateway =
     (case managedClassNames cl controllerName of
        Inl e \<Rightarrow> Inl (Wrapped (InText ''failed to list managed gateway classes'') e)
      | Inr classNames \<Rightarrow> Inr (gw_GatewayClassName gateway \<in> set classNames))"

definition listenerSetParentGateway :: "'sel Cluster \<Rightarrow> 'sel ListenerSet \<Rightarrow> 'sel Gateway option" where
  "listenerSetParentGateway cl ls = k_gateway cl (listenerSet_parent_namespace ls) (ls_ParentName ls)"

text \<open>The matched sections that are not conflicted; the binding is lost when none is left.\<close>

definition keep_unconflicted :: "(string \<Rightarrow> ConflictReason) \<Rightarrow> BindingResult \<Rightarrow> BindingResult" where
  "keep_unconflicted conflict result =
     (let kept = filter (\<lambda>name. conflict name = NoConflict) (br_MatchedListeners result) in
      if kept = []
      then \<lparr> br_Accepted = False, br_Reason = RouteReasonNoMatchingParent, br_MatchedListeners = [] \<rparr>
      else result \<lparr> br_MatchedListeners := kept \<rparr>)"

definition filterMatchedGatewayListenersByConflict ::
    "'sel Cluster \<Rightarrow> 'sel Gateway \<Rightarrow> BindingResult \<Rightarrow> BindingResult" where
  "filterMatchedGatewayListenersByConflict cl gateway result =
     (case buildGatewayListenerView cl gateway of
        Inl _ \<Rightarrow> result
      | Inr view \<Rightarrow> keep_unconflicted (gatewayListenerConflictReason view) result)"

definition filterMatchedListenersByConflict ::
    "'sel Cluster \<Rightarrow> 'sel ListenerSet \<Rightarrow> 'sel Gateway \<Rightarrow> BindingResult \<Rightarrow> BindingResult" where
  "filterMatchedListenersByConflict cl ls parent result =
     (case buildGatewayListenerView cl parent of
        Inl _ \<Rightarrow> result
      | Inr view \<Rightarrow> keep_unconflicted (conflictReason view ls) result)"

definition ref_namespace :: "ParentReference \<Rightarrow> string \<Rightarrow> string" where
  "ref_namespace ref routeNamespace = (case pr_Namespace ref of None \<Rightarrow> routeNamespace | Some n \<Rightarrow> n)"

definition ref_kind :: "ParentReference \<Rightarrow> string" where
  "ref_kind ref = (case pr_Kind ref of None \<Rightarrow> ''Gateway'' | Some k \<Rightarrow> k)"

definition resolveGatewayParentBinding ::
    "'sel Cluster \<Rightarrow> string \<Rightarrow> ParentReference \<Rightarrow> string \<Rightarrow> RouteInfo \<Rightarrow> gerr + parentRefBinding option" where
  "resolveGatewayParentBinding cl controllerName ref routeNamespace info =
     (case k_gateway cl (ref_namespace ref routeNamespace) (pr_Name ref) of
        None \<Rightarrow> Inr None
      | Some gateway \<Rightarrow>
          (case gatewayIsManaged cl controllerName gateway of
             Inl e \<Rightarrow> Inl e
           | Inr managed \<Rightarrow>
               if \<not> managed then Inr None
               else (case ValidateBinding (k_env cl) gateway info of
                       Inl e \<Rightarrow> Inl (Wrapped (InText ''failed to validate route binding against gateway'') e)
                     | Inr res \<Rightarrow>
                         Inr (Some \<lparr> pb_Result = (if br_Accepted res
                                        then filterMatchedGatewayListenersByConflict cl gateway res else res),
                                     pb_GatewayKey = gateway_key gateway \<rparr>))))"

definition resolveListenerSetParentBinding ::
    "'sel Cluster \<Rightarrow> string \<Rightarrow> ParentReference \<Rightarrow> string \<Rightarrow> RouteInfo \<Rightarrow> gerr + parentRefBinding option" where
  "resolveListenerSetParentBinding cl controllerName ref routeNamespace info =
     (case k_listenerSet cl (ref_namespace ref routeNamespace) (pr_Name ref) of
        None \<Rightarrow> Inr None
      | Some ls \<Rightarrow>
          (case listenerSetParentGateway cl ls of
             None \<Rightarrow> Inr None
           | Some parent \<Rightarrow>
               (case gatewayIsManaged cl controllerName parent of
                  Inl e \<Rightarrow> Inl e
                | Inr managed \<Rightarrow>
                    if \<not> managed then Inr None
                    else (case EvaluateListenerSetAcceptance (k_env cl) parent ls of
                            Inl e \<Rightarrow> Inl (Wrapped (InText ''failed to evaluate listenerset acceptance'') e)
                          | Inr allowed \<Rightarrow>
                              if \<not> allowed
                              then Inr (Some \<lparr> pb_Result = \<lparr> br_Accepted = False,
                                                 br_Reason = RouteReasonNoMatchingParent, br_MatchedListeners = [] \<rparr>,
                                               pb_GatewayKey = gateway_key parent \<rparr>)
                              else (case ValidateBindingForListenerSet (k_env cl) ls info of
                                      Inl e \<Rightarrow> Inl (Wrapped (InText ''failed to validate route binding against listenerset'') e)
                                    | Inr res \<Rightarrow>
                                        Inr (Some \<lparr> pb_Result = (if br_Accepted res
                                               then filterMatchedListenersByConflict cl ls parent res else res),
                                               pb_GatewayKey = gateway_key parent \<rparr>))))))"

definition resolveRouteParentBinding ::
    "'sel Cluster \<Rightarrow> string \<Rightarrow> ParentReference \<Rightarrow> string \<Rightarrow> RouteInfo \<Rightarrow> gerr + parentRefBinding option" where
  "resolveRouteParentBinding cl controllerName ref routeNamespace info =
     (if ref_kind ref = ''Gateway'' then resolveGatewayParentBinding cl controllerName ref routeNamespace info
      else if ref_kind ref = ''ListenerSet''
      then resolveListenerSetParentBinding cl controllerName ref routeNamespace info
      else Inr None)"

section \<open>The verdict on a route\<close>

record routeBindingInfo =
  rb_bindingResults :: "nat \<Rightarrow> BindingResult option"
  rb_acceptedGateways :: "string set"
  rb_parentGateways :: "nat \<Rightarrow> string option"
  rb_syncErrByGateway :: "string \<Rightarrow> gerr option"

definition empty_binding_info :: routeBindingInfo where
  "empty_binding_info =
     \<lparr> rb_bindingResults = Map.empty, rb_acceptedGateways = {}, rb_parentGateways = Map.empty,
       rb_syncErrByGateway = Map.empty \<rparr>"

definition route_info :: "'r Route \<Rightarrow> ParentReference \<Rightarrow> RouteInfo" where
  "route_info route ref =
     \<lparr> ri_Name = rt_Name route, ri_Namespace = rt_Namespace route, ri_Hostnames = rt_Hostnames route,
       ri_Kind = rt_Kind route, ri_SectionName = pr_SectionName ref, ri_Port = pr_Port ref \<rparr>"

definition bindOneParent ::
    "'sel Cluster \<Rightarrow> string \<Rightarrow> 'r Route \<Rightarrow> nat \<Rightarrow> ParentReference \<Rightarrow> routeBindingInfo
     \<Rightarrow> routeBindingInfo \<times> bool \<times> bool" where
  "bindOneParent cl controllerName route refIdx ref info =
     (case resolveRouteParentBinding cl controllerName ref (rt_Namespace route) (route_info route ref) of
        Inl _ \<Rightarrow> (info, False, False)
      | Inr None \<Rightarrow> (info, False, False)
      | Inr (Some b) \<Rightarrow>
          (info \<lparr> rb_bindingResults := (rb_bindingResults info)(refIdx \<mapsto> pb_Result b),
                  rb_parentGateways := (if pb_GatewayKey b \<noteq> ''''
                     then (rb_parentGateways info)(refIdx \<mapsto> pb_GatewayKey b) else rb_parentGateways info),
                  rb_acceptedGateways := (if br_Accepted (pb_Result b) \<and> pb_GatewayKey b \<noteq> ''''
                     then insert (pb_GatewayKey b) (rb_acceptedGateways info) else rb_acceptedGateways info) \<rparr>,
           True, br_Accepted (pb_Result b)))"

fun bind_parent_refs ::
    "'sel Cluster \<Rightarrow> string \<Rightarrow> 'r Route \<Rightarrow> nat \<Rightarrow> ParentReference list \<Rightarrow> routeBindingInfo \<times> bool \<times> bool
     \<Rightarrow> routeBindingInfo \<times> bool \<times> bool" where
  "bind_parent_refs cl controllerName route refIdx [] st = st"
| "bind_parent_refs cl controllerName route refIdx (ref # refs) (info, referencesUs, hasAccepted) =
     (case bindOneParent cl controllerName route refIdx ref info of
        (info', referenced, accepted) \<Rightarrow>
          bind_parent_refs cl controllerName route (Suc refIdx) refs
            (info', referencesUs \<or> referenced, hasAccepted \<or> accepted))"

text \<open>The verdict of the policy on a route; an unreadable namespace is a denial.\<close>

definition evaluateHostnameOwnership :: "'sel Cluster \<Rightarrow> Policy \<Rightarrow> string \<Rightarrow> string list \<Rightarrow> bool" where
  "evaluateHostnameOwnership cl policy routeNamespace hostnames =
     (case cl_labels (k_env cl) routeNamespace of
        None \<Rightarrow> False
      | Some nsLabels \<Rightarrow> Evaluate policy nsLabels hostnames)"

definition rejectIfHostnameNotOwned ::
    "'sel Cluster \<Rightarrow> Policy \<Rightarrow> 'r Route \<Rightarrow> routeBindingInfo \<Rightarrow> routeBindingInfo \<times> bool" where
  "rejectIfHostnameNotOwned cl policy route info =
     (if evaluateHostnameOwnership cl policy (rt_Namespace route) (rt_Hostnames route) then (info, False)
      else (info \<lparr> rb_bindingResults := (\<lambda>refIdx.
                     case rb_bindingResults info refIdx of
                       None \<Rightarrow> None
                     | Some result \<Rightarrow>
                         Some (if \<not> br_Accepted result then result
                               else \<lparr> br_Accepted = False, br_Reason = RouteReasonHostnameNotPermitted,
                                      br_MatchedListeners = [] \<rparr>)),
                   rb_acceptedGateways := {} \<rparr>, True))"

definition bindRouteParents ::
    "'sel Cluster \<Rightarrow> string \<Rightarrow> Policy option \<Rightarrow> 'r Route \<Rightarrow> routeBindingInfo \<times> bool \<times> bool" where
  "bindRouteParents cl controllerName policy route =
     (case bind_parent_refs cl controllerName route 0 (rt_ParentRefs route) (empty_binding_info, False, False) of
        (info, referencesUs, hasAccepted) \<Rightarrow>
          (case policy of
             None \<Rightarrow> (info, hasAccepted, referencesUs)
           | Some p \<Rightarrow>
               if hasAccepted
               then (case rejectIfHostnameNotOwned cl p route info of
                       (info', denied) \<Rightarrow> (info', (if denied then False else hasAccepted), referencesUs))
               else (info, hasAccepted, referencesUs)))"

definition hasAcceptedParent :: "routeBindingInfo \<Rightarrow> bool" where
  "hasAcceptedParent info \<longleftrightarrow> (\<exists>result \<in> ran (rb_bindingResults info). br_Accepted result)"

text \<open>The result of a pass over all routes of one kind: the accepted ones, the rejected ones that reference
  a managed Gateway, and the binding of every route by its key.\<close>

record 'r routeResult =
  rs_accepted :: "'r Route list"
  rs_rejected :: "'r Route list"
  rs_bindings :: "string \<Rightarrow> routeBindingInfo option"

definition route_key :: "'r Route \<Rightarrow> string" where
  "route_key route = object_key (rt_Namespace route) (rt_Name route)"

definition add_route :: "'sel Cluster \<Rightarrow> string \<Rightarrow> Policy option \<Rightarrow> 'r routeResult \<Rightarrow> 'r Route \<Rightarrow> 'r routeResult" where
  "add_route cl controllerName policy result route =
     (case bindRouteParents cl controllerName policy route of
        (info, accepted, referencesUs) \<Rightarrow>
          (let result' = result \<lparr> rs_bindings := (rs_bindings result)(route_key route \<mapsto> info) \<rparr> in
           if accepted then result' \<lparr> rs_accepted := rs_accepted result' @ [route] \<rparr>
           else if referencesUs then result' \<lparr> rs_rejected := rs_rejected result' @ [route] \<rparr>
           else result'))"

definition getRelevantRoutes ::
    "'sel Cluster \<Rightarrow> string \<Rightarrow> Policy option \<Rightarrow> 'r Route list \<Rightarrow> 'r routeResult" where
  "getRelevantRoutes cl controllerName policy routes =
     foldl (add_route cl controllerName policy)
       \<lparr> rs_accepted = [], rs_rejected = [], rs_bindings = Map.empty \<rparr> routes"

section \<open>What a route is attached to\<close>

datatype 'sel parent = OnGateway "'sel Gateway" | OnListenerSet "'sel Gateway" "'sel ListenerSet"

fun parent_gateway :: "'sel parent \<Rightarrow> 'sel Gateway" where
  "parent_gateway (OnGateway g) = g"
| "parent_gateway (OnListenerSet g ls) = g"

fun parent_listeners :: "'sel parent \<Rightarrow> 'sel Listener list" where
  "parent_listeners (OnGateway g) = gw_Listeners g"
| "parent_listeners (OnListenerSet g ls) = ls_Listeners ls"

fun parent_namespace :: "'sel parent \<Rightarrow> string" where
  "parent_namespace (OnGateway g) = gw_Namespace g"
| "parent_namespace (OnListenerSet g ls) = ls_Namespace ls"

text \<open>The parent a reference names, if it exists.\<close>

definition parent_of :: "'sel Cluster \<Rightarrow> string \<Rightarrow> ParentReference \<Rightarrow> 'sel parent option" where
  "parent_of cl ns ref =
     (if ref_kind ref = ''Gateway''
      then map_option OnGateway (k_gateway cl (ref_namespace ref ns) (pr_Name ref))
      else if ref_kind ref = ''ListenerSet''
      then Option.bind (k_listenerSet cl (ref_namespace ref ns) (pr_Name ref))
             (\<lambda>ls. map_option (\<lambda>g. OnListenerSet g ls) (listenerSetParentGateway cl ls))
      else None)"

text \<open>Whether the parent belongs to this controller and may carry listeners at all.\<close>

fun parent_allowed :: "'sel Cluster \<Rightarrow> 'sel parent \<Rightarrow> bool" where
  "parent_allowed cl (OnGateway g) = True"
| "parent_allowed cl (OnListenerSet g ls) = (EvaluateListenerSetAcceptance (k_env cl) g ls = Inr True)"

text \<open>Whether a listener of the parent lost a conflict, as far as the view can be built.\<close>

fun parent_conflict :: "'sel Cluster \<Rightarrow> 'sel parent \<Rightarrow> string \<Rightarrow> bool" where
  "parent_conflict cl (OnGateway g) name =
     (case buildGatewayListenerView cl g of Inl _ \<Rightarrow> False
      | Inr view \<Rightarrow> gatewayListenerConflictReason view name \<noteq> NoConflict)"
| "parent_conflict cl (OnListenerSet g ls) name =
     (case buildGatewayListenerView cl g of Inl _ \<Rightarrow> False
      | Inr view \<Rightarrow> conflictReason view ls name \<noteq> NoConflict)"

definition attached ::
    "'sel Cluster \<Rightarrow> string \<Rightarrow> 'r Route \<Rightarrow> ParentReference \<Rightarrow> 'sel parent \<Rightarrow> 'sel Listener \<Rightarrow> bool" where
  "attached cl controllerName route ref p l \<longleftrightarrow>
     parent_of cl (rt_Namespace route) ref = Some p
     \<and> gatewayIsManaged cl controllerName (parent_gateway p) = Inr True \<and> parent_allowed cl p
     \<and> l \<in> set (parent_listeners p)
     \<and> binds (k_env cl) l (parent_namespace p) (route_info route ref)
     \<and> \<not> parent_conflict cl p (li_Name l)"


section \<open>Lemmas\<close>

lemma bound_names:
  assumes "bind_listeners env ls ns route = Inr res"
  shows "br_MatchedListeners res = map li_Name (filter (\<lambda>l. binds env l ns route) ls)"
    and "br_Accepted res \<longleftrightarrow> br_MatchedListeners res \<noteq> []"
  using bind_listeners_Inr [OF assms] by metis+

lemma keep_unconflicted_accepted:
  assumes "br_Accepted res \<longleftrightarrow> br_MatchedListeners res \<noteq> []"
  shows "br_Accepted (keep_unconflicted c res) \<longleftrightarrow> (\<exists>name \<in> set (br_MatchedListeners res). c name = NoConflict)"
  using assms by (auto simp: keep_unconflicted_def Let_def filter_empty_conv)

lemma filtered_binding_accepted:
  assumes "bind_listeners env ls ns route = Inr res"
  shows "br_Accepted (if br_Accepted res then case view of Inl _ \<Rightarrow> res | Inr v \<Rightarrow> keep_unconflicted (c v) res else res)
    \<longleftrightarrow> (\<exists>l \<in> set ls. binds env l ns route \<and>
          \<not> (case view of Inl _ \<Rightarrow> False | Inr v \<Rightarrow> c v (li_Name l) \<noteq> NoConflict))"
  using bound_names [OF assms] keep_unconflicted_accepted [OF bound_names(2) [OF assms]]
  by (cases view) (auto simp: filter_empty_conv)

lemma resolveGateway_Inr:
  assumes "resolveGatewayParentBinding cl cn ref (rt_Namespace route) (route_info route ref) = Inr b"
    and "ref_kind ref = ''Gateway''"
  shows "case b of
      None \<Rightarrow> \<forall>p l. \<not> attached cl cn route ref p l
    | Some pb \<Rightarrow> \<exists>p. parent_of cl (rt_Namespace route) ref = Some p
        \<and> gatewayIsManaged cl cn (parent_gateway p) = Inr True \<and> pb_GatewayKey pb = gateway_key (parent_gateway p)
        \<and> (br_Accepted (pb_Result pb) \<longleftrightarrow> (\<exists>l. attached cl cn route ref p l))"
proof (cases "k_gateway cl (ref_namespace ref (rt_Namespace route)) (pr_Name ref)")
  case None
  with assms show ?thesis by (auto simp: resolveGatewayParentBinding_def attached_def parent_of_def)
next
  case (Some g)
  then have p: "parent_of cl (rt_Namespace route) ref = Some (OnGateway g)" using assms(2) by (simp add: parent_of_def)
  show ?thesis
  proof (cases "gatewayIsManaged cl cn g = Inr True")
    case False
    with assms Some p show ?thesis
      by (auto simp: resolveGatewayParentBinding_def attached_def split: sum.splits if_splits)
  next
    case True
    with assms Some obtain res where res: "bind_listeners (k_env cl) (gw_Listeners g) (gw_Namespace g) (route_info route ref) = Inr res"
      and b: "b = Some \<lparr> pb_Result = (if br_Accepted res then filterMatchedGatewayListenersByConflict cl g res else res),
                pb_GatewayKey = gateway_key g \<rparr>"
      by (auto simp: resolveGatewayParentBinding_def ValidateBinding_def split: sum.splits)
    from filtered_binding_accepted [OF res, where view = "buildGatewayListenerView cl g" and c = gatewayListenerConflictReason]
    show ?thesis
      unfolding b using p True by (simp add: attached_def [abs_def] filterMatchedGatewayListenersByConflict_def Bex_def cong: if_cong)
  qed
qed

lemma resolveListenerSet_Inr:
  assumes "resolveListenerSetParentBinding cl cn ref (rt_Namespace route) (route_info route ref) = Inr b"
    and "ref_kind ref = ''ListenerSet''"
  shows "case b of
      None \<Rightarrow> \<forall>p l. \<not> attached cl cn route ref p l
    | Some pb \<Rightarrow> \<exists>p. parent_of cl (rt_Namespace route) ref = Some p
        \<and> gatewayIsManaged cl cn (parent_gateway p) = Inr True \<and> pb_GatewayKey pb = gateway_key (parent_gateway p)
        \<and> (br_Accepted (pb_Result pb) \<longleftrightarrow> (\<exists>l. attached cl cn route ref p l))"
proof (cases "parent_of cl (rt_Namespace route) ref")
  case None
  with assms show ?thesis
    by (auto simp: resolveListenerSetParentBinding_def attached_def parent_of_def split: option.splits bind_splits)
next
  case (Some p)
  then obtain ls g where ls: "k_listenerSet cl (ref_namespace ref (rt_Namespace route)) (pr_Name ref) = Some ls"
    and g: "listenerSetParentGateway cl ls = Some g" and p: "p = OnListenerSet g ls"
    using assms(2) by (auto simp: parent_of_def split: bind_splits)
  show ?thesis
  proof (cases "gatewayIsManaged cl cn g = Inr True")
    case False
    with assms Some ls g p show ?thesis
      by (auto simp: resolveListenerSetParentBinding_def attached_def split: sum.splits if_splits)
  next
    case True
    show ?thesis
    proof (cases "EvaluateListenerSetAcceptance (k_env cl) g ls = Inr True")
      case False
      with assms Some ls g p True show ?thesis
        by (auto simp: resolveListenerSetParentBinding_def attached_def split: sum.splits if_splits)
    next
      case allowed: True
      with assms ls g True obtain res where
          res: "bind_listeners (k_env cl) (ls_Listeners ls) (ls_Namespace ls) (route_info route ref) = Inr res"
        and b: "b = Some \<lparr> pb_Result = (if br_Accepted res then filterMatchedListenersByConflict cl ls g res else res),
                  pb_GatewayKey = gateway_key g \<rparr>"
        by (auto simp: resolveListenerSetParentBinding_def ValidateBindingForListenerSet_def split: sum.splits)
      from filtered_binding_accepted [OF res, where view = "buildGatewayListenerView cl g"
          and c = "\<lambda>v. conflictReason v ls"]
      show ?thesis
        unfolding b using Some p True allowed
        by (simp add: attached_def [abs_def] filterMatchedListenersByConflict_def Bex_def cong: if_cong)
    qed
  qed
qed

lemma resolveRouteParentBinding_Inr:
  assumes "resolveRouteParentBinding cl cn ref (rt_Namespace route) (route_info route ref) = Inr b"
  shows "case b of
      None \<Rightarrow> \<forall>p l. \<not> attached cl cn route ref p l
    | Some pb \<Rightarrow> \<exists>p. parent_of cl (rt_Namespace route) ref = Some p
        \<and> gatewayIsManaged cl cn (parent_gateway p) = Inr True \<and> pb_GatewayKey pb = gateway_key (parent_gateway p)
        \<and> (br_Accepted (pb_Result pb) \<longleftrightarrow> (\<exists>l. attached cl cn route ref p l))"
proof (cases "ref_kind ref = ''Gateway''")
  case True
  with assms show ?thesis by (intro resolveGateway_Inr) (simp_all add: resolveRouteParentBinding_def)
next
  case not_gateway: False
  show ?thesis
  proof (cases "ref_kind ref = ''ListenerSet''")
    case True
    with not_gateway assms show ?thesis
      by (intro resolveListenerSet_Inr) (simp_all add: resolveRouteParentBinding_def)
  next
    case False
    with not_gateway assms show ?thesis by (auto simp: resolveRouteParentBinding_def attached_def parent_of_def)
  qed
qed


definition parent_resolves :: "'sel Cluster \<Rightarrow> string \<Rightarrow> 'r Route \<Rightarrow> ParentReference \<Rightarrow> bool" where
  "parent_resolves cl cn route ref \<longleftrightarrow>
     \<not> isl (resolveRouteParentBinding cl cn ref (rt_Namespace route) (route_info route ref))"

text \<open>The Gateways a route ends up on, and the effect of one reference on the state of the loop.\<close>

definition attached_gateways :: "'sel Cluster \<Rightarrow> string \<Rightarrow> 'r Route \<Rightarrow> ParentReference list \<Rightarrow> string set" where
  "attached_gateways cl cn route refs =
     {gateway_key (parent_gateway p) | p. \<exists>ref \<in> set refs. \<exists>l. parent_resolves cl cn route ref \<and> attached cl cn route ref p l}"

lemma gateway_key_nonempty [simp]: "gateway_key g \<noteq> ''''"
  by (simp add: gateway_key_def object_key_def)

lemma attached_parent_unique: "attached cl cn route ref p l \<Longrightarrow> attached cl cn route ref q m \<Longrightarrow> p = q"
  by (simp add: attached_def)

lemma bindOneParent_effect:
  assumes "bindOneParent cl cn route i ref info = (info', referenced, accepted)"
  shows "(accepted \<longleftrightarrow> (parent_resolves cl cn route ref \<and> (\<exists>p l. attached cl cn route ref p l)))
    \<and> rb_acceptedGateways info' = rb_acceptedGateways info \<union> attached_gateways cl cn route [ref]
    \<and> (accepted \<longrightarrow> referenced) \<and> rb_syncErrByGateway info' = rb_syncErrByGateway info
    \<and> (\<forall>j. j \<noteq> i \<longrightarrow> rb_bindingResults info' j = rb_bindingResults info j)
    \<and> (rb_bindingResults info i = None \<longrightarrow>
         accepted = (\<exists>r. rb_bindingResults info' i = Some r \<and> br_Accepted r))"
proof (cases "resolveRouteParentBinding cl cn ref (rt_Namespace route) (route_info route ref)")
  case (Inl e)
  with assms show ?thesis by (auto simp: bindOneParent_def parent_resolves_def attached_gateways_def)
next
  case (Inr b)
  then have res: "parent_resolves cl cn route ref" by (simp add: parent_resolves_def)
  note at = resolveRouteParentBinding_Inr [OF Inr]
  show ?thesis
  proof (cases b)
    case None
    with at assms Inr res show ?thesis by (auto simp: bindOneParent_def attached_gateways_def)
  next
    case (Some pb)
    with at obtain p where p: "parent_of cl (rt_Namespace route) ref = Some p"
      "pb_GatewayKey pb = gateway_key (parent_gateway p)"
      "br_Accepted (pb_Result pb) \<longleftrightarrow> (\<exists>l. attached cl cn route ref p l)" by auto
    have ex: "(\<exists>q l. attached cl cn route ref q l) \<longleftrightarrow> (\<exists>l. attached cl cn route ref p l)"
      using p(1) by (auto simp: attached_def)
    have "attached_gateways cl cn route [ref] =
        (if \<exists>l. attached cl cn route ref p l then {gateway_key (parent_gateway p)} else {})"
      using p(1) res by (auto simp: attached_gateways_def attached_def)
    then have gws: "attached_gateways cl cn route [ref] =
        (if br_Accepted (pb_Result pb) then {gateway_key (parent_gateway p)} else {})"
      by (simp only: p(3))
    from Some assms Inr p(2) have info: "accepted = br_Accepted (pb_Result pb)" "referenced"
      "rb_bindingResults info' = (rb_bindingResults info)(i \<mapsto> pb_Result pb)"
      "rb_syncErrByGateway info' = rb_syncErrByGateway info"
      "rb_acceptedGateways info' = (if br_Accepted (pb_Result pb)
         then insert (gateway_key (parent_gateway p)) (rb_acceptedGateways info) else rb_acceptedGateways info)"
      by (auto simp: bindOneParent_def)
    show ?thesis
      unfolding gws info(1,3,4,5) ex p(3) [symmetric] using info(2) res by simp
  qed
qed

lemma attached_gateways_Cons:
  "attached_gateways cl cn route (ref # refs) = attached_gateways cl cn route [ref] \<union> attached_gateways cl cn route refs"
  by (auto simp: attached_gateways_def)

lemma attached_gateways_empty:
  "attached_gateways cl cn route refs = {} \<longleftrightarrow>
     (\<forall>ref \<in> set refs. parent_resolves cl cn route ref \<longrightarrow> (\<forall>p l. \<not> attached cl cn route ref p l))"
  by (auto simp: attached_gateways_def)

text \<open>The loop over the references: a route is accepted on exactly the Gateways it is attached to, and the
  accepted results recorded per reference agree with the summary.\<close>

lemma bind_parent_refs_effect:
  assumes "bind_parent_refs cl cn route i refs (info, u, a) = (info', u', a')"
    and "\<forall>j \<ge> i. rb_bindingResults info j = None"
    and "a \<longleftrightarrow> (\<exists>j r. rb_bindingResults info j = Some r \<and> br_Accepted r)" and "a \<longrightarrow> u"
  shows "rb_acceptedGateways info' = rb_acceptedGateways info \<union> attached_gateways cl cn route refs
    \<and> a' = (a \<or> attached_gateways cl cn route refs \<noteq> {})
    \<and> a' = (\<exists>j r. rb_bindingResults info' j = Some r \<and> br_Accepted r)
    \<and> (a' \<longrightarrow> u')"
  using assms
proof (induction refs arbitrary: i info u a)
  case Nil
  then show ?case by (auto simp: attached_gateways_def)
next
  case (Cons ref refs)
  obtain info1 referenced accepted where one: "bindOneParent cl cn route i ref info = (info1, referenced, accepted)"
    by (cases "bindOneParent cl cn route i ref info")
  note eff = bindOneParent_effect [OF one]
  from Cons.prems(1) one have rec: "bind_parent_refs cl cn route (Suc i) refs (info1, u \<or> referenced, a \<or> accepted) = (info', u', a')"
    by simp
  have none: "\<forall>j \<ge> Suc i. rb_bindingResults info1 j = None" using eff Cons.prems(2) by simp
  from Cons.prems(2) have fresh: "rb_bindingResults info i = None" by simp
  have acc: "a \<or> accepted \<longleftrightarrow> (\<exists>j r. rb_bindingResults info1 j = Some r \<and> br_Accepted r)"
  proof
    assume "a \<or> accepted"
    then show "\<exists>j r. rb_bindingResults info1 j = Some r \<and> br_Accepted r"
    proof
      assume a
      then obtain j r where j: "rb_bindingResults info j = Some r" "br_Accepted r" using Cons.prems(3) by blast
      with fresh have "j \<noteq> i" by auto
      with eff j show ?thesis by metis
    next
      assume accepted
      with eff fresh show ?thesis by blast
    qed
  next
    assume "\<exists>j r. rb_bindingResults info1 j = Some r \<and> br_Accepted r"
    then obtain j r where j: "rb_bindingResults info1 j = Some r" "br_Accepted r" by blast
    show "a \<or> accepted"
    proof (cases "j = i")
      case True
      with eff fresh j show ?thesis by blast
    next
      case False
      with eff j have "rb_bindingResults info j = Some r" by metis
      with j Cons.prems(3) show ?thesis by blast
    qed
  qed
  have "a \<or> accepted \<longrightarrow> u \<or> referenced" using eff Cons.prems(4) by blast
  note IH = Cons.IH [OF rec none acc this]
  have one': "accepted \<longleftrightarrow> attached_gateways cl cn route [ref] \<noteq> {}"
    unfolding attached_gateways_empty using eff by simp
  have gws: "rb_acceptedGateways info1 = rb_acceptedGateways info \<union> attached_gateways cl cn route [ref]" using eff by blast
  from IH one' have "a' = (a \<or> attached_gateways cl cn route [ref] \<union> attached_gateways cl cn route refs \<noteq> {})" by blast
  moreover from IH gws have "rb_acceptedGateways info' =
      rb_acceptedGateways info \<union> (attached_gateways cl cn route [ref] \<union> attached_gateways cl cn route refs)"
    by (simp only: Un_assoc)
  ultimately show ?case
    unfolding attached_gateways_Cons [of _ _ _ ref refs] using IH by blast
qed

definition ownership_denies :: "'sel Cluster \<Rightarrow> Policy option \<Rightarrow> 'r Route \<Rightarrow> bool" where
  "ownership_denies cl policy route \<longleftrightarrow>
     (case policy of None \<Rightarrow> False
      | Some p \<Rightarrow> \<not> evaluateHostnameOwnership cl p (rt_Namespace route) (rt_Hostnames route))"

lemma bindRouteParents_effect:
  assumes "bindRouteParents cl cn policy route = (info, accepted, referencesUs)"
  shows "rb_acceptedGateways info =
           (if ownership_denies cl policy route then {} else attached_gateways cl cn route (rt_ParentRefs route))"
    and "accepted \<longleftrightarrow> rb_acceptedGateways info \<noteq> {}"
    and "accepted \<longleftrightarrow> hasAcceptedParent info"
    and "accepted \<Longrightarrow> referencesUs"
proof -
  obtain info1 u a where loop: "bind_parent_refs cl cn route 0 (rt_ParentRefs route) (empty_binding_info, False, False) = (info1, u, a)"
    by (cases "bind_parent_refs cl cn route 0 (rt_ParentRefs route) (empty_binding_info, False, False)")
  have e: "rb_bindingResults empty_binding_info = Map.empty" "rb_acceptedGateways empty_binding_info = {}"
    by (simp_all add: empty_binding_info_def)
  from bind_parent_refs_effect [OF loop]
  have eff: "rb_acceptedGateways info1 = attached_gateways cl cn route (rt_ParentRefs route)"
    "a \<longleftrightarrow> attached_gateways cl cn route (rt_ParentRefs route) \<noteq> {}"
    "a \<longleftrightarrow> hasAcceptedParent info1" "a \<longrightarrow> u"
    unfolding hasAcceptedParent_def ran_def by (auto simp: e)
  have denied: "\<not> hasAcceptedParent (fst (rejectIfHostnameNotOwned cl p route i))"
      "rb_acceptedGateways (fst (rejectIfHostnameNotOwned cl p route i)) = {}"
    if "\<not> evaluateHostnameOwnership cl p (rt_Namespace route) (rt_Hostnames route)" for p i
    using that by (auto simp: rejectIfHostnameNotOwned_def hasAcceptedParent_def ran_def split: option.splits if_splits)
  have "rb_acceptedGateways info =
           (if ownership_denies cl policy route then {} else attached_gateways cl cn route (rt_ParentRefs route))
    \<and> (accepted \<longleftrightarrow> rb_acceptedGateways info \<noteq> {}) \<and> (accepted \<longleftrightarrow> hasAcceptedParent info) \<and> (accepted \<longrightarrow> referencesUs)"
  proof (cases "a \<and> ownership_denies cl policy route")
    case True
    then obtain p where p: "policy = Some p"
        "\<not> evaluateHostnameOwnership cl p (rt_Namespace route) (rt_Hostnames route)"
      by (auto simp: ownership_denies_def split: option.splits)
    then have "info = fst (rejectIfHostnameNotOwned cl p route info1)" "\<not> accepted"
      using assms loop True by (auto simp: bindRouteParents_def rejectIfHostnameNotOwned_def)
    with denied [OF p(2)] True show ?thesis by simp
  next
    case False
    then have "info = info1" "accepted = a" "referencesUs = u"
      using assms loop by (auto simp: bindRouteParents_def rejectIfHostnameNotOwned_def ownership_denies_def
          split: option.splits if_splits)
    with False eff show ?thesis by auto
  qed
  then show "rb_acceptedGateways info =
           (if ownership_denies cl policy route then {} else attached_gateways cl cn route (rt_ParentRefs route))"
    and "accepted \<longleftrightarrow> rb_acceptedGateways info \<noteq> {}"
    and "accepted \<longleftrightarrow> hasAcceptedParent info"
    and "accepted \<Longrightarrow> referencesUs" by blast+
qed

text \<open>C18: a route is accepted exactly on the Gateways it is attached to: those of a reference that names a
  Gateway of this controller, or a ListenerSet such a Gateway admits, with a listener that binds the route and has not
  lost a conflict. A reference whose lookup fails contributes nothing, and a denial by the ownership policy empties
  the whole set. The summary bit, the recorded Gateways and the per-reference results always agree.\<close>

theorem route_accepted_exactly:
  "case bindRouteParents cl cn policy route of (info, accepted, referencesUs) \<Rightarrow>
     rb_acceptedGateways info =
       (if ownership_denies cl policy route then {}
        else {gateway_key (parent_gateway p) | p. \<exists>ref \<in> set (rt_ParentRefs route). \<exists>l.
                parent_resolves cl cn route ref \<and> attached cl cn route ref p l})
     \<and> (accepted \<longleftrightarrow> rb_acceptedGateways info \<noteq> {})
     \<and> (accepted \<longleftrightarrow> hasAcceptedParent info)
     \<and> \<not> (accepted \<and> \<not> referencesUs)"
  using bindRouteParents_effect [of cl cn policy route]
  unfolding attached_gateways_def by (auto split: prod.splits)


end
