(* ===== verification/EffectiveHosts.thy ===== *)
theory EffectiveHosts
  imports RouteAttach
begin

text \<open>
  Narrowing of a route to the hostnames of the listeners it binds to
  (\<^verbatim>\<open>src/internal/controller/route_effective_hostnames.go\<close>), the step between the accepted routes and the
  proxy configuration. HTTP and gRPC routes go through the same code.
\<close>

section \<open>Definitions\<close>

definition catchAllHostnameSentinel :: string where
  "catchAllHostnameSentinel = ''''"

definition ref_group_ok :: "ParentReference \<Rightarrow> bool" where
  "ref_group_ok ref = (case pr_Group ref of None \<Rightarrow> True | Some g \<Rightarrow> g = '''' \<or> g = GroupName)"

definition resolveParentRefListeners ::
    "'r Route \<Rightarrow> ParentReference \<Rightarrow> (string \<Rightarrow> string \<Rightarrow> RouteInfo \<Rightarrow> 'v list)
     \<Rightarrow> (string \<Rightarrow> string \<Rightarrow> RouteInfo \<Rightarrow> 'v list) \<Rightarrow> 'v list" where
  "resolveParentRefListeners route ref gatewayBranch listenerSetBranch =
     (if \<not> ref_group_ok ref then []
      else let namespace = ref_namespace ref (rt_Namespace route); info = route_info route ref in
        if ref_kind ref = ''Gateway'' then gatewayBranch namespace (pr_Name ref) info
        else if ref_kind ref = ''ListenerSet'' then listenerSetBranch namespace (pr_Name ref) info
        else [])"

text \<open>A Go map filled in a loop over the listeners: the last listener of a name wins.\<close>

definition listeners_by_name :: "('sel Listener \<Rightarrow> 'v) \<Rightarrow> 'sel Listener list \<Rightarrow> string \<Rightarrow> 'v option" where
  "listeners_by_name f ls = map_of (rev (map (\<lambda>l. (li_Name l, f l)) ls))"

definition effectiveHostnamesForSections ::
    "string list \<Rightarrow> (string \<Rightarrow> string option option) \<Rightarrow> string list \<Rightarrow> string list" where
  "effectiveHostnamesForSections sections hostByName routeHostnames =
     concat (map (\<lambda>section.
       case hostByName section of
         None \<Rightarrow> []
       | Some listenerHostname \<Rightarrow>
           if routeHostnames = [] \<and> (listenerHostname = None \<or> listenerHostname = Some '''')
           then [catchAllHostnameSentinel]
           else EffectiveListenerHostnames listenerHostname routeHostnames) sections)"

definition dropConflictedSections ::
    "'sel MergedListener list \<Rightarrow> 'sel ListenerSet \<Rightarrow> string list \<Rightarrow> string list" where
  "dropConflictedSections merged ls sections =
     filter (\<lambda>section. entry_conflict (findMergedEntry merged ls section) = NoConflict) sections"

definition nonConflictedSections :: "'sel Cluster \<Rightarrow> 'sel ListenerSet \<Rightarrow> string list \<Rightarrow> string list" where
  "nonConflictedSections cl ls sections =
     (case listenerSetParentGateway cl ls of
        None \<Rightarrow> sections
      | Some parent \<Rightarrow>
          (case buildGatewayListenerView cl parent of
             Inl _ \<Rightarrow> sections
           | Inr view \<Rightarrow> dropConflictedSections (gv_merged view) ls sections))"

definition gatewayEffectiveHostnames :: "'sel Cluster \<Rightarrow> string \<Rightarrow> string \<Rightarrow> RouteInfo \<Rightarrow> string list" where
  "gatewayEffectiveHostnames cl namespace name info =
     (case k_gateway cl namespace name of
        None \<Rightarrow> []
      | Some gateway \<Rightarrow>
          (case ValidateBinding (k_env cl) gateway info of
             Inl _ \<Rightarrow> []
           | Inr result \<Rightarrow>
               if \<not> br_Accepted result then []
               else effectiveHostnamesForSections (br_MatchedListeners result)
                      (listeners_by_name li_Hostname (gw_Listeners gateway)) (ri_Hostnames info)))"

definition listenerSetEffectiveHostnames :: "'sel Cluster \<Rightarrow> string \<Rightarrow> string \<Rightarrow> RouteInfo \<Rightarrow> string list" where
  "listenerSetEffectiveHostnames cl namespace name info =
     (case k_listenerSet cl namespace name of
        None \<Rightarrow> []
      | Some ls \<Rightarrow>
          (case ValidateBindingForListenerSet (k_env cl) ls info of
             Inl _ \<Rightarrow> []
           | Inr result \<Rightarrow>
               if \<not> br_Accepted result then []
               else effectiveHostnamesForSections (nonConflictedSections cl ls (br_MatchedListeners result))
                      (listeners_by_name li_Hostname (ls_Listeners ls)) (ri_Hostnames info)))"

definition effectiveHostnamesForParentRef :: "'sel Cluster \<Rightarrow> 'r Route \<Rightarrow> ParentReference \<Rightarrow> string list" where
  "effectiveHostnamesForParentRef cl route ref =
     resolveParentRefListeners route ref (gatewayEffectiveHostnames cl) (listenerSetEffectiveHostnames cl)"

definition add_effective :: "string list \<times> bool \<Rightarrow> string \<Rightarrow> string list \<times> bool" where
  "add_effective st hostname =
     (case st of (out, catchAll) \<Rightarrow>
        if hostname = catchAllHostnameSentinel then (out, True)
        else if hostname \<in> set out then (out, catchAll)
        else (out @ [hostname], catchAll))"

definition collectEffectiveListenerHostnames :: "'sel Cluster \<Rightarrow> 'r Route \<Rightarrow> string list \<times> bool" where
  "collectEffectiveListenerHostnames cl route =
     foldl (\<lambda>st ref. foldl add_effective st (effectiveHostnamesForParentRef cl route ref)) ([], False) (rt_ParentRefs route)"

definition effective_route :: "'sel Cluster \<Rightarrow> 'r Route \<Rightarrow> 'r Route" where
  "effective_route cl route =
     (case collectEffectiveListenerHostnames cl route of
        (effective, catchAll) \<Rightarrow>
          if catchAll \<and> rt_Hostnames route = [] then route
          else if effective = [] then route
          else route \<lparr> rt_Hostnames := effective \<rparr>)"

definition withEffectiveHostnames :: "'sel Cluster \<Rightarrow> 'r Route list \<Rightarrow> 'r Route list" where
  "withEffectiveHostnames cl routes = (if routes = [] then routes else map (effective_route cl) routes)"

section \<open>The listeners a route is served through\<close>

text \<open>The listeners of a reference that contribute to the served hostnames. In contrast to \<open>attached\<close>,
  neither the controller of the Gateway nor its rule for ListenerSets is consulted, and the conflicts only for
  the entries of a ListenerSet.\<close>

definition serving_listeners :: "'sel Cluster \<Rightarrow> 'r Route \<Rightarrow> ParentReference \<Rightarrow> 'sel Listener list" where
  "serving_listeners cl route ref =
     (if \<not> ref_group_ok ref then []
      else let namespace = ref_namespace ref (rt_Namespace route); info = route_info route ref in
        if ref_kind ref = ''Gateway''
        then (case k_gateway cl namespace (pr_Name ref) of
                None \<Rightarrow> []
              | Some g \<Rightarrow>
                  if isl (ValidateBinding (k_env cl) g info) then []
                  else filter (\<lambda>l. binds (k_env cl) l (gw_Namespace g) info) (gw_Listeners g))
        else if ref_kind ref = ''ListenerSet''
        then (case k_listenerSet cl namespace (pr_Name ref) of
                None \<Rightarrow> []
              | Some ls \<Rightarrow>
                  if isl (ValidateBindingForListenerSet (k_env cl) ls info) then []
                  else filter (\<lambda>l. binds (k_env cl) l (ls_Namespace ls) info
                          \<and> (\<forall>g. listenerSetParentGateway cl ls = Some g \<longrightarrow>
                                 \<not> parent_conflict cl (OnListenerSet g ls) (li_Name l))) (ls_Listeners ls))
        else [])"

text \<open>What the API guarantees of the objects: section names are unique in their list and hostnames are well
  formed.\<close>

definition wf_listeners :: "'sel Listener list \<Rightarrow> bool" where
  "wf_listeners ls \<longleftrightarrow> distinct (map li_Name ls) \<and> (\<forall>l \<in> set ls. wf_listener_hostname (li_Hostname l))"

definition wf_cluster :: "'sel Cluster \<Rightarrow> bool" where
  "wf_cluster cl \<longleftrightarrow>
     (\<forall>ns name g. k_gateway cl ns name = Some g \<longrightarrow> wf_listeners (gw_Listeners g))
     \<and> (\<forall>ns name ls. k_listenerSet cl ns name = Some ls \<longrightarrow> wf_listeners (ls_Listeners ls))"

lemma listeners_by_name_mem:
  "distinct (map li_Name ls) \<Longrightarrow> l \<in> set ls \<Longrightarrow> listeners_by_name f ls (li_Name l) = Some (f l)"
  unfolding listeners_by_name_def by (auto simp: rev_map [symmetric] comp_def map_of_eq_Some_iff image_iff)

definition section_hosts :: "string option \<Rightarrow> string list \<Rightarrow> string set" where
  "section_hosts lh rs =
     (if rs = [] \<and> (lh = None \<or> lh = Some '''') then {catchAllHostnameSentinel}
      else set (EffectiveListenerHostnames lh rs))"

lemma sections_hosts:
  assumes "wf_listeners ls" and "set xs \<subseteq> set ls"
  shows "set (effectiveHostnamesForSections (map li_Name xs) (listeners_by_name li_Hostname ls) rs) =
           (\<Union>l \<in> set xs. section_hosts (li_Hostname l) rs)"
proof -
  have "set (case listeners_by_name li_Hostname ls (li_Name l) of
         None \<Rightarrow> []
       | Some lh \<Rightarrow> if rs = [] \<and> (lh = None \<or> lh = Some '''') then [catchAllHostnameSentinel]
           else EffectiveListenerHostnames lh rs) = section_hosts (li_Hostname l) rs" if l: "l \<in> set xs" for l
  proof -
    from l assms have "listeners_by_name li_Hostname ls (li_Name l) = Some (li_Hostname l)"
      by (intro listeners_by_name_mem) (auto simp: wf_listeners_def)
    then show ?thesis by (cases "li_Hostname l") (simp_all add: section_hosts_def)
  qed
  then show ?thesis by (simp add: effectiveHostnamesForSections_def)
qed

lemma nonConflictedSections_filter:
  "nonConflictedSections cl ls (map li_Name xs) =
     map li_Name (filter (\<lambda>l. \<forall>g. listenerSetParentGateway cl ls = Some g \<longrightarrow>
                                 \<not> parent_conflict cl (OnListenerSet g ls) (li_Name l)) xs)"
  by (auto simp: nonConflictedSections_def dropConflictedSections_def filter_map comp_def conflictReason_def
      split: option.splits sum.splits)

lemma parent_ref_hosts:
  assumes "wf_cluster cl"
  shows "set (effectiveHostnamesForParentRef cl route ref) =
           (\<Union>l \<in> set (serving_listeners cl route ref). section_hosts (li_Hostname l) (rt_Hostnames route))"
proof -
  let ?info = "route_info route ref"
  have rs: "ri_Hostnames ?info = rt_Hostnames route" by (simp add: route_info_def)
  have gateway: "set (gatewayEffectiveHostnames cl ns name ?info) =
      (\<Union>l \<in> set (case k_gateway cl ns name of None \<Rightarrow> []
         | Some g \<Rightarrow> if isl (ValidateBinding (k_env cl) g ?info) then []
                     else filter (\<lambda>l. binds (k_env cl) l (gw_Namespace g) ?info) (gw_Listeners g)).
        section_hosts (li_Hostname l) (rt_Hostnames route))" for ns name
  proof (cases "k_gateway cl ns name")
    case (Some g)
    then have wf: "wf_listeners (gw_Listeners g)" using assms by (auto simp: wf_cluster_def)
    show ?thesis
    proof (cases "ValidateBinding (k_env cl) g ?info")
      case (Inr res)
      from bound_names [OF this [unfolded ValidateBinding_def]] Some Inr sections_hosts [OF wf]
      show ?thesis by (simp add: gatewayEffectiveHostnames_def rs filter_empty_conv) blast
    qed (use Some in \<open>simp add: gatewayEffectiveHostnames_def\<close>)
  qed (simp add: gatewayEffectiveHostnames_def)
  have listener_set: "set (listenerSetEffectiveHostnames cl ns name ?info) =
      (\<Union>l \<in> set (case k_listenerSet cl ns name of None \<Rightarrow> []
         | Some ls \<Rightarrow> if isl (ValidateBindingForListenerSet (k_env cl) ls ?info) then []
                  else filter (\<lambda>l. binds (k_env cl) l (ls_Namespace ls) ?info
                          \<and> (\<forall>g. listenerSetParentGateway cl ls = Some g \<longrightarrow>
                                 \<not> parent_conflict cl (OnListenerSet g ls) (li_Name l))) (ls_Listeners ls)).
        section_hosts (li_Hostname l) (rt_Hostnames route))" for ns name
  proof (cases "k_listenerSet cl ns name")
    case (Some ls)
    then have wf: "wf_listeners (ls_Listeners ls)" using assms by (auto simp: wf_cluster_def)
    show ?thesis
    proof (cases "ValidateBindingForListenerSet (k_env cl) ls ?info")
      case (Inr res)
      let ?bound = "filter (\<lambda>l. binds (k_env cl) l (ls_Namespace ls) ?info) (ls_Listeners ls)"
      note b = bound_names [OF Inr [unfolded ValidateBindingForListenerSet_def]]
      show ?thesis
      proof (cases "?bound = []")
        case True
        with b Some Inr show ?thesis by (auto simp: listenerSetEffectiveHostnames_def filter_empty_conv)
      next
        case False
        let ?free = "filter (\<lambda>l. \<forall>g. listenerSetParentGateway cl ls = Some g \<longrightarrow>
                                 \<not> parent_conflict cl (OnListenerSet g ls) (li_Name l)) ?bound"
        have "set (effectiveHostnamesForSections (map li_Name ?free)
                (listeners_by_name li_Hostname (ls_Listeners ls)) (rt_Hostnames route)) =
              (\<Union>l \<in> set ?free. section_hosts (li_Hostname l) (rt_Hostnames route))"
          by (rule sections_hosts [OF wf]) auto
        moreover have "listenerSetEffectiveHostnames cl ns name ?info =
            effectiveHostnamesForSections (map li_Name ?free)
              (listeners_by_name li_Hostname (ls_Listeners ls)) (rt_Hostnames route)"
          unfolding listenerSetEffectiveHostnames_def Some Inr option.case sum.case rs b(1) nonConflictedSections_filter
          using False b by simp
        ultimately show ?thesis unfolding Some Inr option.case filter_filter by simp
      qed
    qed (use Some in \<open>simp add: listenerSetEffectiveHostnames_def\<close>)
  qed (simp add: listenerSetEffectiveHostnames_def)
  show ?thesis
    unfolding effectiveHostnamesForParentRef_def resolveParentRefListeners_def serving_listeners_def Let_def
    using gateway [of "ref_namespace ref (rt_Namespace route)" "pr_Name ref"]
      listener_set [of "ref_namespace ref (rt_Namespace route)" "pr_Name ref"]
    by (simp only: if_distrib [of set] if_distrib [of "\<lambda>A. \<Union>l \<in> A. section_hosts (li_Hostname l) (rt_Hostnames route)"]
        list.set UN_empty refl if_cancel split: if_split)
qed

lemma foldl_add_effective:
  "set (fst (foldl add_effective (out, c) xs)) = set out \<union> (set xs - {catchAllHostnameSentinel})
   \<and> (snd (foldl add_effective (out, c) xs) \<longleftrightarrow> c \<or> catchAllHostnameSentinel \<in> set xs)"
proof (induction xs arbitrary: out c)
  case (Cons x xs)
  then show ?case by (auto simp: add_effective_def)
qed simp

lemma foldl_foldl_concat: "foldl (\<lambda>st ref. foldl h st (f ref)) st refs = foldl h st (concat (map f refs))"
  by (induction refs arbitrary: st) simp_all

definition all_serving :: "'sel Cluster \<Rightarrow> 'r Route \<Rightarrow> 'sel Listener set" where
  "all_serving cl route = (\<Union>ref \<in> set (rt_ParentRefs route). set (serving_listeners cl route ref))"

lemma collect_hosts:
  assumes "wf_cluster cl" and "collectEffectiveListenerHostnames cl route = (effective, catchAll)"
  shows "set effective = (\<Union>l \<in> all_serving cl route. section_hosts (li_Hostname l) (rt_Hostnames route)) - {catchAllHostnameSentinel}"
    and "catchAll \<longleftrightarrow> catchAllHostnameSentinel \<in> (\<Union>l \<in> all_serving cl route. section_hosts (li_Hostname l) (rt_Hostnames route))"
  using foldl_add_effective [of "[]" False "concat (map (effectiveHostnamesForParentRef cl route) (rt_ParentRefs route))"] assms(2)
  by (auto simp: collectEffectiveListenerHostnames_def foldl_foldl_concat all_serving_def parent_ref_hosts [OF assms(1)])


lemma effective_nonempty:
  assumes "HostnamesIntersect l rs" and "rs \<noteq> []"
  shows "EffectiveListenerHostnames l rs \<noteq> []"
proof -
  have int: "HostnameIntersection l r \<noteq> None"
    if "case l of None \<Rightarrow> True | Some p \<Rightarrow> p = '''' \<or> hostnameMatches p r" for r
    using that by (cases l) (auto simp: HostnameIntersection_def)
  obtain r where "r \<in> set rs" "case l of None \<Rightarrow> True | Some p \<Rightarrow> p = '''' \<or> hostnameMatches p r"
  proof (cases "l = None \<or> l = Some ''''")
    case True
    with assms(2) that [of "hd rs"] show thesis by auto
  next
    case False
    then obtain p where "l = Some p" "p \<noteq> ''''" by auto
    with assms have "\<exists>r \<in> set rs. hostnameMatches p r" by (simp add: HostnamesIntersect_def list_ex_iff)
    with that \<open>l = Some p\<close> show thesis by auto
  qed
  then have "r \<in> set rs" "HostnameIntersection l r \<noteq> None" using int by blast+
  then show ?thesis using assms(2)
    by (force simp: EffectiveListenerHostnames_def List.map_filter_def filter_empty_conv)
qed

lemma effective_no_sentinel:
  assumes "wf_listener_hostname l" and "\<forall>r \<in> set rs. wf_hostname r" and "rs \<noteq> []"
  shows "'''' \<notin> set (EffectiveListenerHostnames l rs)"
proof -
  have "HostnameIntersection l r \<noteq> Some ''''" if "r \<in> set rs" for r
    using assms(1,2) that
    by (auto simp: HostnameIntersection_def wf_listener_hostname_def wf_hostname_def split: option.splits if_splits)
  then show ?thesis using assms(3)
    by (force simp: EffectiveListenerHostnames_def List.map_filter_def image_iff)
qed

lemma serving_cases:
  assumes "l \<in> set (serving_listeners cl route ref)"
  obtains g where "k_gateway cl (ref_namespace ref (rt_Namespace route)) (pr_Name ref) = Some g"
      "l \<in> set (gw_Listeners g)" "binds (k_env cl) l (gw_Namespace g) (route_info route ref)"
    | ls where "k_listenerSet cl (ref_namespace ref (rt_Namespace route)) (pr_Name ref) = Some ls"
      "l \<in> set (ls_Listeners ls)" "binds (k_env cl) l (ls_Namespace ls) (route_info route ref)"
proof -
  have group: "ref_group_ok ref"
    using assms unfolding serving_listeners_def by (cases "ref_group_ok ref") simp_all
  show thesis
  proof (cases "ref_kind ref = ''Gateway''")
    case True
    with group assms have "l \<in> set (case k_gateway cl (ref_namespace ref (rt_Namespace route)) (pr_Name ref) of
          None \<Rightarrow> []
        | Some g \<Rightarrow> if isl (ValidateBinding (k_env cl) g (route_info route ref)) then []
            else filter (\<lambda>l. binds (k_env cl) l (gw_Namespace g) (route_info route ref)) (gw_Listeners g))"
      unfolding serving_listeners_def Let_def by simp
    with that(1) show thesis
      by (cases "k_gateway cl (ref_namespace ref (rt_Namespace route)) (pr_Name ref)") (auto split: if_split_asm)
  next
    case not_gateway: False
    then have kind: "ref_kind ref = ''ListenerSet''" using group assms unfolding serving_listeners_def Let_def
      by (cases "ref_kind ref = ''ListenerSet''") simp_all
    with group assms have "l \<in> set (case k_listenerSet cl (ref_namespace ref (rt_Namespace route)) (pr_Name ref) of
          None \<Rightarrow> []
        | Some ls \<Rightarrow> if isl (ValidateBindingForListenerSet (k_env cl) ls (route_info route ref)) then []
            else filter (\<lambda>l. binds (k_env cl) l (ls_Namespace ls) (route_info route ref)
                    \<and> (\<forall>g. listenerSetParentGateway cl ls = Some g \<longrightarrow>
                           \<not> parent_conflict cl (OnListenerSet g ls) (li_Name l))) (ls_Listeners ls))"
      unfolding serving_listeners_def Let_def by simp
    with that(2) show thesis
      by (cases "k_listenerSet cl (ref_namespace ref (rt_Namespace route)) (pr_Name ref)") (auto split: if_split_asm)
  qed
qed

lemma serving_binds:
  assumes "l \<in> all_serving cl route"
  shows "HostnamesIntersect (li_Hostname l) (rt_Hostnames route)"
proof -
  from assms obtain ref where "l \<in> set (serving_listeners cl route ref)" by (auto simp: all_serving_def)
  then show ?thesis by (rule serving_cases) (simp_all add: binds_def route_info_def)
qed

lemma serving_wf:
  assumes "wf_cluster cl" and "l \<in> all_serving cl route"
  shows "wf_listener_hostname (li_Hostname l)"
proof -
  from assms(2) obtain ref where "l \<in> set (serving_listeners cl route ref)" by (auto simp: all_serving_def)
  then show ?thesis by (rule serving_cases) (use assms(1) in \<open>auto simp: wf_cluster_def wf_listeners_def\<close>)
qed

lemma effective_route_hosts:
  assumes "wf_cluster cl" and "\<forall>r \<in> set (rt_Hostnames route). wf_hostname r"
  shows "route_admits (rt_Hostnames (effective_route cl route)) host \<longleftrightarrow>
     route_admits (rt_Hostnames route) host
     \<and> (all_serving cl route = {} \<or> (\<exists>l \<in> all_serving cl route. listener_admits (li_Hostname l) host))"
proof -
  let ?rs = "rt_Hostnames route" and ?S = "all_serving cl route"
  obtain effective catchAll where c: "collectEffectiveListenerHostnames cl route = (effective, catchAll)"
    by (cases "collectEffectiveListenerHostnames cl route")
  note hosts = collect_hosts [OF assms(1) c]
  show ?thesis
  proof (cases "?rs = []")
    case True
    have sec: "section_hosts lh ?rs = (if lh = None \<or> lh = Some '''' then {''''} else {the lh})" for lh
      using True by (auto simp: section_hosts_def catchAllHostnameSentinel_def EffectiveListenerHostnames_def)
    show ?thesis
    proof (cases catchAll)
      case catch: True
      then obtain l where "l \<in> ?S" "li_Hostname l = None \<or> li_Hostname l = Some ''''"
        using hosts(2) unfolding sec catchAllHostnameSentinel_def by (auto split: if_splits)
      then have "\<exists>l \<in> ?S. listener_admits (li_Hostname l) host" by (intro bexI [of _ l]) (auto simp: listener_admits_def)
      with catch True c show ?thesis by (auto simp: effective_route_def route_admits_def)
    next
      case no_catch: False
      then have set_hosts: "li_Hostname l \<noteq> None \<and> li_Hostname l \<noteq> Some ''''" if "l \<in> ?S" for l
        using hosts(2) that unfolding sec catchAllHostnameSentinel_def by (auto split: if_splits)
      have eff: "set effective = (\<lambda>l. the (li_Hostname l)) ` ?S"
        using hosts(1) set_hosts unfolding sec catchAllHostnameSentinel_def by (fastforce split: if_splits)
      have adm: "listener_admits (li_Hostname l) host \<longleftrightarrow> covers (the (li_Hostname l)) host" if "l \<in> ?S" for l
        using set_hosts [OF that] by (auto simp: listener_admits_def)
      show ?thesis
      proof (cases "?S = {}")
        case none: True
        with eff no_catch c True show ?thesis by (simp add: effective_route_def route_admits_def)
      next
        case some: False
        with eff have "effective \<noteq> []" by auto
        with no_catch c True some eff adm show ?thesis by (auto simp: effective_route_def route_admits_def)
      qed
    qed
  next
    case False
    have sec: "section_hosts lh ?rs = set (EffectiveListenerHostnames lh ?rs)" for lh
      using False by (simp add: section_hosts_def)
    have admit: "(\<exists>h \<in> set (EffectiveListenerHostnames (li_Hostname l) ?rs). covers h host) \<longleftrightarrow>
        listener_admits (li_Hostname l) host \<and> route_admits ?rs host" if "l \<in> ?S" for l
      by (rule effective_hostnames_admit [OF serving_wf [OF assms(1) that] assms(2)]) (simp add: False)
    have eff: "set effective = (\<Union>l \<in> ?S. set (EffectiveListenerHostnames (li_Hostname l) ?rs))"
      using hosts(1) effective_no_sentinel [OF serving_wf [OF assms(1)] assms(2) False]
      unfolding sec catchAllHostnameSentinel_def by blast
    show ?thesis
    proof (cases "?S = {}")
      case True
      with eff c False show ?thesis by (simp add: effective_route_def)
    next
      case some: False
      then obtain l where "l \<in> ?S" by blast
      with eff effective_nonempty [OF serving_binds False] have ne: "effective \<noteq> []" by fastforce
      with c False have "rt_Hostnames (effective_route cl route) = effective" by (simp add: effective_route_def)
      then have "route_admits (rt_Hostnames (effective_route cl route)) host \<longleftrightarrow> (\<exists>h \<in> set effective. covers h host)"
        using ne by (simp add: route_admits_def)
      also have "\<dots> \<longleftrightarrow> (\<exists>l \<in> ?S. listener_admits (li_Hostname l) host \<and> route_admits ?rs host)"
        unfolding eff using admit by blast
      finally show ?thesis using some by blast
    qed
  qed
qed


text \<open>C19: the hostnames given to the proxy are exact. For every route of a pass, the narrowed hostnames admit
  a host exactly when the route's own hostnames admit it and a listener the route is served through admits it; a route
  without any such listener keeps its hostnames, and nothing but the hostnames changes.\<close>

theorem served_hosts_exact:
  assumes "wf_cluster cl" and "i < length routes" and "\<forall>r \<in> set (rt_Hostnames (routes ! i)). wf_hostname r"
  shows "(let route = routes ! i; narrowed = withEffectiveHostnames cl routes ! i;
              S = (\<Union>ref \<in> set (rt_ParentRefs route). set (serving_listeners cl route ref)) in
          narrowed = route \<lparr> rt_Hostnames := rt_Hostnames narrowed \<rparr>
          \<and> (route_admits (rt_Hostnames narrowed) host \<longleftrightarrow>
               route_admits (rt_Hostnames route) host
               \<and> (S = {} \<or> (\<exists>l \<in> S. listener_admits (li_Hostname l) host))))"
proof -
  have nth: "withEffectiveHostnames cl routes ! i = effective_route cl (routes ! i)"
    using assms(2) by (auto simp: withEffectiveHostnames_def)
  have "effective_route cl r = r \<lparr> rt_Hostnames := rt_Hostnames (effective_route cl r) \<rparr>" for r :: "'b Route"
    by (simp add: effective_route_def split: prod.splits)
  then show ?thesis
    unfolding Let_def nth using effective_route_hosts [OF assms(1,3)] by (simp add: all_serving_def)
qed

section \<open>Listeners that serve a route without accepting it\<close>

text \<open>A Gateway of this controller that admits no ListenerSet, a ListenerSet that names it as its parent, and
  a route without hostnames that references both.\<close>

definition shared_gateway :: "unit Gateway" where
  "shared_gateway =
     \<lparr> gw_Namespace = ''infra'', gw_Name = ''gw'', gw_Generation = 1, gw_GatewayClassName = ''cf'',
       gw_Listeners = [sample_listener ''a'' ''app.example.com''], gw_AllowedListeners = None, gw_Infrastructure = None \<rparr>"

definition refused_set :: "unit ListenerSet" where
  "refused_set =
     \<lparr> ls_Namespace = ''infra'', ls_Name = ''ls'', ls_CreationTimestamp = 0, ls_Generation = 1,
       ls_ParentNamespace = None, ls_ParentName = ''gw'', ls_Listeners = [sample_listener ''v'' ''victim.org''] \<rparr>"

definition two_parent_cluster :: "unit Cluster" where
  "two_parent_cluster =
     \<lparr> k_env = sample_cluster,
       k_gateway = (\<lambda>ns name. if ns = ''infra'' \<and> name = ''gw'' then Some shared_gateway else None),
       k_listenerSet = (\<lambda>ns name. if ns = ''infra'' \<and> name = ''ls'' then Some refused_set else None),
       k_listListenerSets = Inr [refused_set], k_listClasses = Inr [(''cf'', ''ctrl'')] \<rparr>"

definition plain_ref :: "string \<Rightarrow> string \<Rightarrow> ParentReference" where
  "plain_ref kind name =
     \<lparr> pr_Group = None, pr_Kind = Some kind, pr_Namespace = None, pr_Name = name, pr_SectionName = None, pr_Port = None \<rparr>"

definition two_parent_route :: "unit Route" where
  "two_parent_route =
     \<lparr> rt_Namespace = ''infra'', rt_Name = ''r'', rt_Kind = ''HTTPRoute'', rt_Created = 0, rt_Hostnames = [],
       rt_ParentRefs = [plain_ref ''Gateway'' ''gw'', plain_ref ''ListenerSet'' ''ls''], rt_Rules = () \<rparr>"

lemmas two_parent_defs = two_parent_cluster_def two_parent_route_def shared_gateway_def refused_set_def plain_ref_def
  sample_cluster_def

lemma two_parent_binds:
  "binds env (sample_listener n h) ''infra'' (route_info two_parent_route (plain_ref k m))"
  by (simp add: binds_def selects_listener_def route_info_def two_parent_route_def plain_ref_def sample_listener_def
      HostnamesIntersect_def IsNamespaceAllowed_def getNamespaceFrom_def IsRouteKindAllowed_def getAllowedKinds_def
      getDefaultKindsForProtocol_def default_kind_def kindMatches_def kind_group_def)

lemma two_parent_view:
  "buildGatewayListenerView two_parent_cluster shared_gateway =
     Inr \<lparr> gv_acceptedSets = [], gv_merged = [merged_of ParentKindGateway None 0 (sample_listener ''a'' ''app.example.com'')] \<rparr>"
  by (simp add: buildGatewayListenerView_def listTargetingListenerSets_def two_parent_defs viewFromCandidates_def
      listenerSetTargetsGateway_def listenerSet_parent_namespace_def EvaluateListenerSetAcceptance_def
      getListenerNamespaceFrom_def Merge_def sortListenerSets_def appendGatewayListeners_def annotateConflicts_def
      annotate_Cons_cases proto_blocked_def)

lemma two_parent_listeners:
  "gw_Listeners shared_gateway = [sample_listener ''a'' ''app.example.com'']" "gw_Namespace shared_gateway = ''infra''"
  "ls_Listeners refused_set = [sample_listener ''v'' ''victim.org'']" "ls_Namespace refused_set = ''infra''"
  "li_Hostname (sample_listener n h) = Some h" "li_Name (sample_listener n h) = n"
  by (simp_all add: shared_gateway_def refused_set_def sample_listener_def)


lemma two_parent_valid:
  "\<exists>res. bind_listeners env [sample_listener n h] ''infra'' (route_info two_parent_route (plain_ref k m)) = Inr res"
proof -
  have "evaluateListenerBinding env (sample_listener n h) ''infra'' (route_info two_parent_route (plain_ref k m)) = Inr RouteReasonAccepted"
    using two_parent_binds unfolding binds_def evaluate_accepted by blast
  moreover have "selects_listener (ri_SectionName (route_info two_parent_route (plain_ref k m)))
      (ri_Port (route_info two_parent_route (plain_ref k m))) (sample_listener n h)"
    using two_parent_binds unfolding binds_def by blast
  ultimately show ?thesis by (simp add: bind_listeners_def findMatchingEntries_def)
qed

lemma two_parent_lookup:
  "k_gateway two_parent_cluster (ref_namespace (plain_ref k ''gw'') ''infra'') ''gw'' = Some shared_gateway"
  "k_listenerSet two_parent_cluster (ref_namespace (plain_ref k ''ls'') ''infra'') ''ls'' = Some refused_set"
  "listenerSetParentGateway two_parent_cluster refused_set = Some shared_gateway"
  "rt_Namespace two_parent_route = ''infra''" "ref_kind (plain_ref k m) = k" "pr_Name (plain_ref k m) = m"
  "ref_group_ok (plain_ref k m)" "k_env two_parent_cluster = sample_cluster"
  "rt_ParentRefs two_parent_route = [plain_ref ''Gateway'' ''gw'', plain_ref ''ListenerSet'' ''ls'']"
  "rt_Hostnames two_parent_route = []"
  by (simp_all add: two_parent_defs ref_namespace_def ref_kind_def ref_group_ok_def listenerSetParentGateway_def
      listenerSet_parent_namespace_def)

lemma two_parent_serving:
  "serving_listeners two_parent_cluster two_parent_route (plain_ref ''Gateway'' ''gw'') = [sample_listener ''a'' ''app.example.com'']"
  "serving_listeners two_parent_cluster two_parent_route (plain_ref ''ListenerSet'' ''ls'') = [sample_listener ''v'' ''victim.org'']"
proof -
  have valid: "\<not> isl (ValidateBinding env shared_gateway (route_info two_parent_route (plain_ref k m)))"
    "\<not> isl (ValidateBindingForListenerSet env refused_set (route_info two_parent_route (plain_ref k m)))" for env k m
    using two_parent_valid unfolding ValidateBinding_def ValidateBindingForListenerSet_def two_parent_listeners
    by (metis sum.disc(2))+
  have free: "\<not> parent_conflict two_parent_cluster (OnListenerSet shared_gateway refused_set) n" for n
    by (simp add: two_parent_view conflictReason_def findMergedEntry_def merged_of_def entry_conflict_def)
  show "serving_listeners two_parent_cluster two_parent_route (plain_ref ''Gateway'' ''gw'') = [sample_listener ''a'' ''app.example.com'']"
    "serving_listeners two_parent_cluster two_parent_route (plain_ref ''ListenerSet'' ''ls'') = [sample_listener ''v'' ''victim.org'']"
    unfolding serving_listeners_def Let_def
    by (simp_all add: two_parent_lookup two_parent_listeners valid free two_parent_binds del: parent_conflict.simps)
qed

lemma two_parent_wf: "wf_cluster two_parent_cluster"
proof -
  have "wf_hostname ''app.example.com''" "wf_hostname ''victim.org''" by (simp_all add: wf_hostname_def has_prefix_def)
  then show ?thesis
    by (auto simp: wf_cluster_def wf_listeners_def wf_listener_hostname_def two_parent_cluster_def two_parent_listeners
        split: if_splits)
qed

lemma two_parent_covers:
  "covers ''victim.org'' ''victim.org''" "\<not> covers ''app.example.com'' ''victim.org''"
proof -
  have "\<not> is_wildcard ''victim.org''" "to_lower ''victim.org'' = ''victim.org''"
    "\<not> is_wildcard ''app.example.com''" "to_lower ''app.example.com'' \<noteq> ''victim.org''" by code_simp+
  then show "covers ''victim.org'' ''victim.org''" "\<not> covers ''app.example.com'' ''victim.org''"
    by (simp_all add: covers_exact)
qed

theorem served_hosts_exact_witness:
  "route_admits (rt_Hostnames (withEffectiveHostnames two_parent_cluster [two_parent_route] ! 0)) ''victim.org''"
proof -
  have "\<forall>r \<in> set (rt_Hostnames ([two_parent_route] ! 0)). wf_hostname r" by (simp add: two_parent_lookup)
  from served_hosts_exact [OF two_parent_wf _ this, where host = "''victim.org''"]
  show ?thesis
    by (simp add: Let_def two_parent_lookup two_parent_serving two_parent_listeners listener_admits_def route_admits_def
        two_parent_covers)
qed



end
