(* ===== verification/CrossType.thy ===== *)
theory CrossType
  imports RouteAttach
begin

text \<open>
  Conflicts between HTTPRoutes and GRPCRoutes (\<^verbatim>\<open>src/internal/controller/route_crosstype.go\<close>). The sets of losers
  are sets of route keys; the results of the two kinds are updated by the functions below instead of in place.
\<close>

section \<open>Hostnames\<close>

definition wildcardCovers :: "string \<Rightarrow> string \<Rightarrow> bool" where
  "wildcardCovers wildcard host =
     (let suffix = drop 1 wildcard in has_suffix host suffix \<and> length host > length suffix)"

definition crosstype_hostnameMatches :: "string \<Rightarrow> string \<Rightarrow> bool" where
  "crosstype_hostnameMatches left right =
     (let leftWild = has_prefix left ''*.''; rightWild = has_prefix right ''*.'' in
      if \<not> leftWild \<and> \<not> rightWild then left = right
      else if leftWild \<and> \<not> rightWild then wildcardCovers left right
      else if \<not> leftWild \<and> rightWild then wildcardCovers right left
      else has_suffix (drop 1 left) (drop 1 right) \<or> has_suffix (drop 1 right) (drop 1 left))"

definition hostnamesIntersect :: "string list \<Rightarrow> string list \<Rightarrow> bool" where
  "hostnamesIntersect left right =
     (left = [] \<or> right = [] \<or> list_ex (\<lambda>lh. list_ex (crosstype_hostnameMatches lh) right) left)"

definition gatewaysIntersect :: "string set \<Rightarrow> string set \<Rightarrow> bool" where
  "gatewaysIntersect left right = (\<exists>gw \<in> left. gw \<in> right)"

section \<open>Resolution\<close>

record crossTypeRoute =
  ct_key :: string
  ct_created :: int
  ct_gateways :: "string set"
  ct_hostnames :: "string list"

definition crossTypeRoute_of :: "(string \<Rightarrow> routeBindingInfo option) \<Rightarrow> 'r Route \<Rightarrow> crossTypeRoute" where
  "crossTypeRoute_of bindings route =
     \<lparr> ct_key = route_key route, ct_created = rt_Created route,
       ct_gateways = (case bindings (route_key route) of None \<Rightarrow> {} | Some info \<Rightarrow> rb_acceptedGateways info),
       ct_hostnames = rt_Hostnames route \<rparr>"

definition crossTypeRoutes :: "'r routeResult \<Rightarrow> crossTypeRoute list" where
  "crossTypeRoutes result = map (crossTypeRoute_of (rs_bindings result)) (rs_accepted result)"

definition routeWins :: "crossTypeRoute \<Rightarrow> crossTypeRoute \<Rightarrow> bool" where
  "routeWins left right =
     (if ct_created left \<noteq> ct_created right then ct_created left < ct_created right else ct_key left < ct_key right)"

text \<open>The body of the inner loop, on the two sets of losers.\<close>

definition pair_losers :: "crossTypeRoute \<Rightarrow> string set \<times> string set \<Rightarrow> crossTypeRoute \<Rightarrow> string set \<times> string set" where
  "pair_losers httpRoute losers grpcRoute =
     (if \<not> gatewaysIntersect (ct_gateways httpRoute) (ct_gateways grpcRoute) then losers
      else if \<not> hostnamesIntersect (ct_hostnames httpRoute) (ct_hostnames grpcRoute) then losers
      else if routeWins httpRoute grpcRoute then (fst losers, insert (ct_key grpcRoute) (snd losers))
      else (insert (ct_key httpRoute) (fst losers), snd losers))"

definition crossTypeLosers :: "crossTypeRoute list \<Rightarrow> crossTypeRoute list \<Rightarrow> string set \<times> string set" where
  "crossTypeLosers httpRoutes grpcRoutes =
     foldl (\<lambda>losers httpRoute. foldl (pair_losers httpRoute) losers grpcRoutes) ({}, {}) httpRoutes"

definition conflicted_result :: "BindingResult \<Rightarrow> BindingResult" where
  "conflicted_result result =
     (if \<not> br_Accepted result then result else result \<lparr> br_Accepted := False, br_Reason := RouteReasonConflicted \<rparr>)"

definition markBindingConflicted ::
    "(string \<Rightarrow> routeBindingInfo option) \<Rightarrow> string \<Rightarrow> (string \<Rightarrow> routeBindingInfo option)" where
  "markBindingConflicted bindings key =
     (case bindings key of
        None \<Rightarrow> bindings
      | Some info \<Rightarrow>
          bindings(key \<mapsto> info \<lparr> rb_bindingResults := (\<lambda>idx. map_option conflicted_result (rb_bindingResults info idx)) \<rparr>))"

definition reject_loser :: "string set \<Rightarrow> 'r routeResult \<Rightarrow> 'r Route \<Rightarrow> 'r routeResult" where
  "reject_loser losers result route =
     (if route_key route \<in> losers
      then result \<lparr> rs_rejected := rs_rejected result @ [route],
                    rs_bindings := markBindingConflicted (rs_bindings result) (route_key route) \<rparr>
      else result \<lparr> rs_accepted := rs_accepted result @ [route] \<rparr>)"

definition rejectCrossTypeLosers :: "string set \<Rightarrow> 'r routeResult \<Rightarrow> 'r routeResult" where
  "rejectCrossTypeLosers losers result =
     (if losers = {} then result
      else foldl (reject_loser losers) (result \<lparr> rs_accepted := [] \<rparr>) (rs_accepted result))"

definition resolveCrossTypeConflicts :: "'h routeResult \<Rightarrow> 'g routeResult \<Rightarrow> 'h routeResult \<times> 'g routeResult" where
  "resolveCrossTypeConflicts httpResult grpcResult =
     (let losers = crossTypeLosers (crossTypeRoutes httpResult) (crossTypeRoutes grpcResult)
      in (rejectCrossTypeLosers (fst losers) httpResult, rejectCrossTypeLosers (snd losers) grpcResult))"

section \<open>Lemmas\<close>

text \<open>What the API's validation of a route's hostnames adds to \<^const>\<open>wf_hostname\<close>: lower case.\<close>

definition wf_route_hostnames :: "'r Route \<Rightarrow> bool" where
  "wf_route_hostnames route \<longleftrightarrow> (\<forall>h \<in> set (rt_Hostnames route). wf_hostname h \<and> to_lower h = h)"

lemma crosstype_hostnameMatches_same:
  assumes "wf_hostname l" "to_lower l = l" "wf_hostname r" "to_lower r = r"
  shows "crosstype_hostnameMatches l r \<longleftrightarrow> hostnameMatches l r"
  unfolding hostnameMatches_unfold [OF assms(1,3)] crosstype_hostnameMatches_def wildcardCovers_def matchesWildcard_def
    Let_def assms(2,4)
  by auto

text \<open>Two routes share a host.\<close>

definition share_host :: "'a Route \<Rightarrow> 'b Route \<Rightarrow> bool" where
  "share_host a b \<longleftrightarrow> (\<exists>host. route_admits (rt_Hostnames a) host \<and> route_admits (rt_Hostnames b) host)"

lemma covers_some: "\<exists>host. covers h host"
proof (cases "is_wildcard h")
  case True
  then show ?thesis using matchesWildcard_fresh by (auto simp: covers_wildcard)
qed (simp add: covers_exact)

lemma hostnamesIntersect_iff:
  assumes "wf_route_hostnames a" and "wf_route_hostnames b"
  shows "hostnamesIntersect (rt_Hostnames a) (rt_Hostnames b) \<longleftrightarrow> share_host a b"
proof (cases "rt_Hostnames a = [] \<or> rt_Hostnames b = []")
  case True
  then have "share_host a b"
    unfolding share_host_def route_admits_def using covers_some
    by (cases "rt_Hostnames a"; cases "rt_Hostnames b") auto
  with True show ?thesis by (auto simp: hostnamesIntersect_def)
next
  case False
  have "crosstype_hostnameMatches l r \<longleftrightarrow> (\<exists>host. covers l host \<and> covers r host)"
    if "l \<in> set (rt_Hostnames a)" "r \<in> set (rt_Hostnames b)" for l r
    using assms that by (simp add: wf_route_hostnames_def crosstype_hostnameMatches_same hostnameMatches_covers)
  with False show ?thesis
    by (auto simp: hostnamesIntersect_def share_host_def route_admits_def list_ex_iff)
qed

text \<open>The losers are the routes that some accepted route of the other kind, on a common Gateway and with
  intersecting hostnames, precedes.\<close>

definition conflict :: "crossTypeRoute \<Rightarrow> crossTypeRoute \<Rightarrow> bool" where
  "conflict h g \<longleftrightarrow> gatewaysIntersect (ct_gateways h) (ct_gateways g) \<and> hostnamesIntersect (ct_hostnames h) (ct_hostnames g)"

lemma pair_losers_fold:
  "foldl (pair_losers h) losers gs =
     (fst losers \<union> {ct_key h | g. g \<in> set gs \<and> conflict h g \<and> \<not> routeWins h g},
      snd losers \<union> {ct_key g | g. g \<in> set gs \<and> conflict h g \<and> routeWins h g})"
  by (induction gs arbitrary: losers) (auto simp: pair_losers_def conflict_def)

lemma crossTypeLosers_eq:
  "crossTypeLosers hs gs =
     ({ct_key h | h g. h \<in> set hs \<and> g \<in> set gs \<and> conflict h g \<and> \<not> routeWins h g},
      {ct_key g | h g. h \<in> set hs \<and> g \<in> set gs \<and> conflict h g \<and> routeWins h g})"
proof -
  have "foldl (\<lambda>losers h. foldl (pair_losers h) losers gs) losers hs =
     (fst losers \<union> {ct_key h | h g. h \<in> set hs \<and> g \<in> set gs \<and> conflict h g \<and> \<not> routeWins h g},
      snd losers \<union> {ct_key g | h g. h \<in> set hs \<and> g \<in> set gs \<and> conflict h g \<and> routeWins h g})" for losers
    by (induction hs arbitrary: losers) (auto simp: pair_losers_fold)
  then show ?thesis by (simp add: crossTypeLosers_def)
qed

lemma markBindingConflicted_at:
  "markBindingConflicted bs k k' = map_option
     (\<lambda>info. if k' = k then info \<lparr> rb_bindingResults := (\<lambda>idx. map_option conflicted_result (rb_bindingResults info idx)) \<rparr>
             else info) (bs k')"
  by (cases "bs k"; cases "bs k'") (auto simp: markBindingConflicted_def)

lemma conflicted_result_idem [simp]: "conflicted_result (conflicted_result r) = conflicted_result r"
  by (simp add: conflicted_result_def)

lemma reject_loser_bindings:
  "rs_bindings (reject_loser losers res r) k = map_option
     (\<lambda>info. if k \<in> losers \<and> k = route_key r
        then info \<lparr> rb_bindingResults := (\<lambda>idx. map_option conflicted_result (rb_bindingResults info idx)) \<rparr>
        else info) (rs_bindings res k)"
  by (cases "rs_bindings res k") (auto simp: reject_loser_def markBindingConflicted_at)

lemma reject_losers_fold:
  "rs_accepted (foldl (reject_loser losers) res routes) = rs_accepted res @ filter (\<lambda>r. route_key r \<notin> losers) routes"
  "rs_rejected (foldl (reject_loser losers) res routes) = rs_rejected res @ filter (\<lambda>r. route_key r \<in> losers) routes"
  "rs_bindings (foldl (reject_loser losers) res routes) k = map_option
     (\<lambda>info. if k \<in> losers \<and> k \<in> route_key ` set routes
        then info \<lparr> rb_bindingResults := (\<lambda>idx. map_option conflicted_result (rb_bindingResults info idx)) \<rparr>
        else info) (rs_bindings res k)"
proof (induction routes arbitrary: res)
  case (Cons r routes)
  { case 1 show ?case using Cons.IH(1) by (simp add: reject_loser_def) }
  { case 2 show ?case using Cons.IH(2) by (simp add: reject_loser_def) }
  { case 3 show ?case
      by (cases "rs_bindings res k")
        (auto simp: Cons.IH(3) reject_loser_bindings option.map_comp comp_def) }
qed (simp_all add: option.map_ident)

lemma rejectCrossTypeLosers_eq:
  "rs_accepted (rejectCrossTypeLosers losers res) = filter (\<lambda>r. route_key r \<notin> losers) (rs_accepted res)"
  "rs_rejected (rejectCrossTypeLosers losers res) = rs_rejected res @ filter (\<lambda>r. route_key r \<in> losers) (rs_accepted res)"
  "rs_bindings (rejectCrossTypeLosers losers res) k = map_option
     (\<lambda>info. if k \<in> losers \<and> k \<in> route_key ` set (rs_accepted res)
        then info \<lparr> rb_bindingResults := (\<lambda>idx. map_option conflicted_result (rb_bindingResults info idx)) \<rparr>
        else info) (rs_bindings res k)"
  by (simp_all add: rejectCrossTypeLosers_def reject_losers_fold option.map_ident)


text \<open>The resolution changes the results of the losers, and no route's set of Gateways.\<close>

lemma cross_type_gateways:
  "map_option rb_acceptedGateways (rs_bindings (rejectCrossTypeLosers losers res) k) = map_option rb_acceptedGateways (rs_bindings res k)"
  by (cases "rs_bindings res k") (simp_all add: rejectCrossTypeLosers_eq)

text \<open>Two bound routes of different kinds compete; the older one, then the one with the smaller name, comes first.\<close>

definition rival :: "'h routeResult \<Rightarrow> 'g routeResult \<Rightarrow> 'h Route \<Rightarrow> 'g Route \<Rightarrow> bool" where
  "rival http grpc h g \<longleftrightarrow>
     (\<exists>gw. gw \<in> ct_gateways (crossTypeRoute_of (rs_bindings http) h) \<and> gw \<in> ct_gateways (crossTypeRoute_of (rs_bindings grpc) g))
     \<and> share_host h g"

definition precedes :: "'h Route \<Rightarrow> 'g Route \<Rightarrow> bool" where
  "precedes h g \<longleftrightarrow> rt_Created h < rt_Created g \<or> rt_Created h = rt_Created g \<and> route_key h < route_key g"

lemma conflict_rival:
  assumes "wf_route_hostnames h" and "wf_route_hostnames g"
  shows "conflict (crossTypeRoute_of (rs_bindings http) h) (crossTypeRoute_of (rs_bindings grpc) g) \<longleftrightarrow> rival http grpc h g"
  using hostnamesIntersect_iff [OF assms]
  by (auto simp: conflict_def rival_def gatewaysIntersect_def crossTypeRoute_of_def)

lemma routeWins_precedes: "routeWins (crossTypeRoute_of bs h) (crossTypeRoute_of bs' g) \<longleftrightarrow> precedes h g"
  by (auto simp: routeWins_def precedes_def crossTypeRoute_of_def)

lemma image_pairs:
  "{k x y | x y. x \<in> F ` A \<and> y \<in> G ` B \<and> P x y} = {k (F x) (G y) | x y. x \<in> A \<and> y \<in> B \<and> P (F x) (G y)}"
  by blast

lemma losers_keys:
  fixes h :: "'h Route" and g :: "'g Route"
  assumes "\<forall>r \<in> set (rs_accepted http). wf_route_hostnames r" and "\<forall>r \<in> set (rs_accepted grpc). wf_route_hostnames r"
    and "distinct (map route_key (rs_accepted http))" and "distinct (map route_key (rs_accepted grpc))"
  defines "losers \<equiv> crossTypeLosers (crossTypeRoutes http) (crossTypeRoutes grpc)"
  shows "h \<in> set (rs_accepted http) \<Longrightarrow>
      route_key h \<in> fst losers \<longleftrightarrow> (\<exists>g \<in> set (rs_accepted grpc). rival http grpc h g \<and> \<not> precedes h g)"
    and "g \<in> set (rs_accepted grpc) \<Longrightarrow>
      route_key g \<in> snd losers \<longleftrightarrow> (\<exists>h \<in> set (rs_accepted http). rival http grpc h g \<and> precedes h g)"
proof -
  have key: "ct_key (crossTypeRoute_of bs r) = route_key r" for bs and r :: "'x Route" by (simp add: crossTypeRoute_of_def)
  have con: "conflict (crossTypeRoute_of (rs_bindings http) h) (crossTypeRoute_of (rs_bindings grpc) g) \<longleftrightarrow> rival http grpc h g"
    if "h \<in> set (rs_accepted http)" "g \<in> set (rs_accepted grpc)" for h g
    using conflict_rival assms(1,2) that by blast
  have inj: "inj_on route_key (set (rs_accepted http))" "inj_on route_key (set (rs_accepted grpc))"
    using assms(3,4) by (simp_all add: distinct_map)
  have f: "fst losers = {route_key h | h g. h \<in> set (rs_accepted http) \<and> g \<in> set (rs_accepted grpc)
      \<and> rival http grpc h g \<and> \<not> precedes h g}"
    unfolding losers_def crossTypeLosers_eq fst_conv crossTypeRoutes_def set_map image_pairs routeWins_precedes key
    using con by (intro Collect_cong) metis
  have s: "snd losers = {route_key g | h g. h \<in> set (rs_accepted http) \<and> g \<in> set (rs_accepted grpc)
      \<and> rival http grpc h g \<and> precedes h g}"
    unfolding losers_def crossTypeLosers_eq snd_conv crossTypeRoutes_def set_map image_pairs routeWins_precedes key
    using con by (intro Collect_cong) metis
  show "h \<in> set (rs_accepted http) \<Longrightarrow>
      route_key h \<in> fst losers \<longleftrightarrow> (\<exists>g \<in> set (rs_accepted grpc). rival http grpc h g \<and> \<not> precedes h g)"
    unfolding f using inj(1) by (auto dest: inj_onD)
  show "g \<in> set (rs_accepted grpc) \<Longrightarrow>
      route_key g \<in> snd losers \<longleftrightarrow> (\<exists>h \<in> set (rs_accepted http). rival http grpc h g \<and> precedes h g)"
    unfolding s using inj(2) by (auto dest: inj_onD)
qed

lemma conflicted_unaccepted:
  "\<not> hasAcceptedParent (info \<lparr> rb_bindingResults := (\<lambda>idx. map_option conflicted_result (rb_bindingResults info idx)) \<rparr>)"
  by (auto simp: hasAcceptedParent_def ran_def conflicted_result_def)

lemma rejected_loser:
  assumes "r \<in> set (rs_accepted res) - set (rs_accepted (rejectCrossTypeLosers losers res))"
  shows "r \<in> set (rs_rejected (rejectCrossTypeLosers losers res))"
    and "rs_bindings (rejectCrossTypeLosers losers res) (route_key r) = Some info \<Longrightarrow> \<not> hasAcceptedParent info"
  using assms conflicted_unaccepted by (auto simp: rejectCrossTypeLosers_eq)

text \<open>C24: HTTP and gRPC never compete for a host. Of the routes bound by a pass, the resolution keeps exactly those that
  no bound route of the other kind, with a common Gateway and a common host, precedes by age and then by name. So no two
  routes of different kinds that are kept are rivals; a route that is not kept is rejected and reports no accepted
  parent.\<close>

theorem cross_type_conflicts_resolved:
  assumes "\<forall>r \<in> set (rs_accepted http). wf_route_hostnames r" and "\<forall>r \<in> set (rs_accepted grpc). wf_route_hostnames r"
    and "distinct (map route_key (rs_accepted http))" and "distinct (map route_key (rs_accepted grpc))"
  shows "case resolveCrossTypeConflicts http grpc of (http', grpc') \<Rightarrow>
      rs_accepted http' = filter (\<lambda>h. \<forall>g \<in> set (rs_accepted grpc). rival http grpc h g \<longrightarrow> precedes h g) (rs_accepted http)
    \<and> rs_accepted grpc' = filter (\<lambda>g. \<forall>h \<in> set (rs_accepted http). rival http grpc h g \<longrightarrow> \<not> precedes h g) (rs_accepted grpc)
    \<and> (\<forall>h \<in> set (rs_accepted http'). \<forall>g \<in> set (rs_accepted grpc'). \<not> rival http grpc h g)
    \<and> (\<forall>h \<in> set (rs_accepted http) - set (rs_accepted http'). h \<in> set (rs_rejected http')
          \<and> (\<forall>info. rs_bindings http' (route_key h) = Some info \<longrightarrow> \<not> hasAcceptedParent info))
    \<and> (\<forall>g \<in> set (rs_accepted grpc) - set (rs_accepted grpc'). g \<in> set (rs_rejected grpc')
          \<and> (\<forall>info. rs_bindings grpc' (route_key g) = Some info \<longrightarrow> \<not> hasAcceptedParent info))"
proof -
  let ?l = "crossTypeLosers (crossTypeRoutes http) (crossTypeRoutes grpc)"
  note keys = losers_keys [OF assms]
  have h: "rs_accepted (rejectCrossTypeLosers (fst ?l) http) =
      filter (\<lambda>h. \<forall>g \<in> set (rs_accepted grpc). rival http grpc h g \<longrightarrow> precedes h g) (rs_accepted http)"
    unfolding rejectCrossTypeLosers_eq using keys(1) by (intro filter_cong) auto
  have g: "rs_accepted (rejectCrossTypeLosers (snd ?l) grpc) =
      filter (\<lambda>g. \<forall>h \<in> set (rs_accepted http). rival http grpc h g \<longrightarrow> \<not> precedes h g) (rs_accepted grpc)"
    unfolding rejectCrossTypeLosers_eq using keys(2) by (intro filter_cong) auto
  have none: "\<not> rival http grpc x y" if "x \<in> set (rs_accepted (rejectCrossTypeLosers (fst ?l) http))"
    "y \<in> set (rs_accepted (rejectCrossTypeLosers (snd ?l) grpc))" for x y
    using that unfolding h g by auto
  show ?thesis
    unfolding resolveCrossTypeConflicts_def Let_def prod.case
    by (intro conjI ballI allI impI h g; rule none rejected_loser; assumption)
qed


section \<open>Witness\<close>

definition bound_route :: "string \<Rightarrow> int \<Rightarrow> string \<Rightarrow> unit Route" where
  "bound_route kind created host =
     \<lparr> rt_Namespace = ''shop'', rt_Name = ''web'', rt_Kind = kind, rt_Created = created, rt_Hostnames = [host],
       rt_ParentRefs = [], rt_Rules = () \<rparr>"

definition bound_result :: "unit Route \<Rightarrow> unit routeResult" where
  "bound_result route =
     \<lparr> rs_accepted = [route], rs_rejected = [],
       rs_bindings = [''shop/web'' \<mapsto> empty_binding_info \<lparr> rb_acceptedGateways := {''infra/gw''},
         rb_bindingResults := [0 \<mapsto> \<lparr> br_Accepted = True, br_Reason = RouteReasonAccepted, br_MatchedListeners = [''a''] \<rparr>] \<rparr>] \<rparr>"

text \<open>A newer gRPC route with a wildcard over the host of an HTTP route is rejected.\<close>

theorem cross_type_conflicts_resolved_witness:
  "rs_accepted (fst (resolveCrossTypeConflicts (bound_result (bound_route ''HTTPRoute'' 1 ''app.example.com''))
        (bound_result (bound_route ''GRPCRoute'' 2 ''*.example.com'')))) = [bound_route ''HTTPRoute'' 1 ''app.example.com'']
   \<and> rs_accepted (snd (resolveCrossTypeConflicts (bound_result (bound_route ''HTTPRoute'' 1 ''app.example.com''))
        (bound_result (bound_route ''GRPCRoute'' 2 ''*.example.com'')))) = []"
proof -
  let ?h = "bound_route ''HTTPRoute'' 1 ''app.example.com''" and ?g = "bound_route ''GRPCRoute'' 2 ''*.example.com''"
  have lower: "to_lower ''app.example.com'' = ''app.example.com''" "to_lower ''*.example.com'' = ''*.example.com''"
    by code_simp+
  have wf: "wf_route_hostnames ?h" "wf_route_hostnames ?g"
    using lower by (simp_all add: wf_route_hostnames_def bound_route_def wf_hostname_def has_prefix_def)
  have acc: "rs_accepted (bound_result r) = [r]" for r by (simp add: bound_result_def)
  have key: "route_key ?h = ''shop/web''" "route_key ?g = ''shop/web''"
    by (simp_all add: route_key_def object_key_def bound_route_def)
  have "hostnamesIntersect (rt_Hostnames ?h) (rt_Hostnames ?g)"
    unfolding bound_route_def Route.simps by code_simp
  then have "share_host ?h ?g" using hostnamesIntersect_iff [OF wf] by simp
  then have r: "rival (bound_result ?h) (bound_result ?g) ?h ?g"
    by (simp add: rival_def crossTypeRoute_of_def key) (simp add: bound_result_def)
  have p: "precedes ?h ?g" by (simp add: precedes_def) (simp add: bound_route_def)
  obtain h' g' where eq: "resolveCrossTypeConflicts (bound_result ?h) (bound_result ?g) = (h', g')"
    by (cases "resolveCrossTypeConflicts (bound_result ?h) (bound_result ?g)")
  show ?thesis
    using cross_type_conflicts_resolved [of "bound_result ?h" "bound_result ?g"] wf r p unfolding acc eq by simp
qed

end
