(* ===== verification/RenderNames.thy ===== *)
theory RenderNames
  imports GoStrings
begin

text \<open>
  Names of the objects rendered for a Gateway with a data plane of its own
  (\<^verbatim>\<open>src/internal/render/render.go\<close>). SHA-256 in hexadecimal is the parameter \<open>sha\<close>; what the code relies on is that
  it yields at least eight lower-case hexadecimal digits.
\<close>

section \<open>Definitions\<close>

definition is_lower_alnum :: "char \<Rightarrow> bool" where
  "is_lower_alnum c \<longleftrightarrow> (CHR ''a'' \<le> c \<and> c \<le> CHR ''z'') \<or> (CHR ''0'' \<le> c \<and> c \<le> CHR ''9'')"

definition is_lower_hex :: "char \<Rightarrow> bool" where
  "is_lower_hex c \<longleftrightarrow> (CHR ''0'' \<le> c \<and> c \<le> CHR ''9'') \<or> (CHR ''a'' \<le> c \<and> c \<le> CHR ''f'')"

definition MaxDNSLabelLength :: nat where
  "MaxDNSLabelLength = 63"

definition nameHashLength :: nat where
  "nameHashLength = 8"

definition sanitizeDNSLabel :: "string \<Rightarrow> string" where
  "sanitizeDNSLabel name = map (\<lambda>r. if is_lower_alnum r \<or> r = CHR ''-'' then r else CHR ''-'') (to_lower name)"

definition isAlphanumericEdged :: "string \<Rightarrow> bool" where
  "isAlphanumericEdged name = (if name = '''' then False else is_lower_alnum (hd name) \<and> is_lower_alnum (last name))"

definition hasHashSuffixShape :: "string \<Rightarrow> bool" where
  "hasHashSuffixShape name =
     (if length name < nameHashLength + 1 \<or> name ! (length name - nameHashLength - 1) \<noteq> CHR ''-'' then False
      else list_all is_lower_hex (drop (length name - nameHashLength) name))"

text \<open>\<^verbatim>\<open>strings.Trim(s, "-")\<close>.\<close>

definition trim_dashes :: "string \<Rightarrow> string" where
  "trim_dashes s = rev (dropWhile (\<lambda>c. c = CHR ''-'') (rev (dropWhile (\<lambda>c. c = CHR ''-'') s)))"

definition truncateName :: "(string \<Rightarrow> string) \<Rightarrow> string \<Rightarrow> string" where
  "truncateName sha name =
     (let sanitized = sanitizeDNSLabel name in
      if sanitized = name \<and> length name \<le> MaxDNSLabelLength \<and> isAlphanumericEdged name \<and> \<not> hasHashSuffixShape name
      then name
      else let suf = take nameHashLength (sha name);
               keep = min (length sanitized) (MaxDNSLabelLength - nameHashLength - 1);
               body = trim_dashes (take keep sanitized)
           in if body = '''' then suf else body @ ''-'' @ suf)"

definition namePrefix :: string where
  "namePrefix = ''cf-proxy-''"

definition DeploymentName :: "(string \<Rightarrow> string) \<Rightarrow> string \<Rightarrow> string" where
  "DeploymentName sha gatewayName = truncateName sha (namePrefix @ gatewayName)"

definition ConfigServiceName :: "(string \<Rightarrow> string) \<Rightarrow> string \<Rightarrow> string" where
  "ConfigServiceName sha gatewayName = truncateName sha (namePrefix @ gatewayName @ ''-config'')"

definition NetworkPolicyName :: "(string \<Rightarrow> string) \<Rightarrow> string \<Rightarrow> string" where
  "NetworkPolicyName sha gatewayName = truncateName sha (namePrefix @ gatewayName @ ''-netpol'')"

definition GeneratedAuthSecretName :: "(string \<Rightarrow> string) \<Rightarrow> string \<Rightarrow> string" where
  "GeneratedAuthSecretName sha gatewayName = truncateName sha (namePrefix @ gatewayName @ ''-auth'')"

definition GatewayLabelValue :: "(string \<Rightarrow> string) \<Rightarrow> string \<Rightarrow> string" where
  "GatewayLabelValue sha gatewayName = truncateName sha gatewayName"

definition ConfigEndpointURL :: "(string \<Rightarrow> string) \<Rightarrow> string \<Rightarrow> string \<Rightarrow> string \<Rightarrow> string" where
  "ConfigEndpointURL sha gatewayNamespace gatewayName clusterDomain =
     ''http://'' @ ConfigServiceName sha gatewayName @ ''.'' @ gatewayNamespace @ ''.svc.'' @ clusterDomain @ '':8081/config''"

section \<open>Valid and distinct names\<close>

text \<open>A DNS-1123 label.\<close>

definition dns_label :: "string \<Rightarrow> bool" where
  "dns_label s \<longleftrightarrow> s \<noteq> '''' \<and> length s \<le> 63 \<and> (\<forall>c \<in> set s. is_lower_alnum c \<or> c = CHR ''-'')
     \<and> is_lower_alnum (hd s) \<and> is_lower_alnum (last s)"

definition hex_digest :: "(string \<Rightarrow> string) \<Rightarrow> bool" where
  "hex_digest sha \<longleftrightarrow> (\<forall>s. 8 \<le> length (sha s) \<and> (\<forall>c \<in> set (sha s). is_lower_hex c))"

lemma is_lower_hex_alnum: "is_lower_hex c \<Longrightarrow> is_lower_alnum c"
proof -
  have "CHR ''f'' \<le> CHR ''z''" by code_simp
  then have "c \<le> CHR ''f'' \<Longrightarrow> c \<le> CHR ''z''" by (rule order_trans [rotated])
  then show "is_lower_hex c \<Longrightarrow> is_lower_alnum c" by (auto simp: is_lower_hex_def is_lower_alnum_def)
qed

lemma trim_dashes_props:
  shows "trim_dashes s \<noteq> '''' \<Longrightarrow> hd (trim_dashes s) \<noteq> CHR ''-'' \<and> last (trim_dashes s) \<noteq> CHR ''-''"
    and "set (trim_dashes s) \<subseteq> set s" and "length (trim_dashes s) \<le> length s"
proof -
  let ?d = "\<lambda>c. c = CHR ''-''"
  define t where "t = dropWhile ?d s"
  have trim: "trim_dashes s = rev (dropWhile ?d (rev t))" by (simp add: trim_dashes_def t_def)
  have sub: "set (dropWhile ?d xs) \<subseteq> set xs" for xs by (auto dest: set_dropWhileD)
  show "set (trim_dashes s) \<subseteq> set s" unfolding trim t_def using sub [of "rev (dropWhile ?d s)"] sub [of s] by auto
  show "length (trim_dashes s) \<le> length s"
    unfolding trim t_def by (metis length_dropWhile_le length_rev order_trans)
  show "hd (trim_dashes s) \<noteq> CHR ''-'' \<and> last (trim_dashes s) \<noteq> CHR ''-''" if ne: "trim_dashes s \<noteq> ''''"
  proof -
    have last: "last (trim_dashes s) = hd (dropWhile ?d (rev t))" using ne trim by (simp add: last_rev)
    have "dropWhile ?d (rev t) \<noteq> []" using ne trim by simp
    then have "last (trim_dashes s) \<noteq> CHR ''-''" unfolding last by (rule hd_dropWhile)
    moreover have "t = trim_dashes s @ rev (takeWhile ?d (rev t))"
      unfolding trim by (metis rev_append rev_rev_ident takeWhile_dropWhile_id)
    then have "hd t = hd (trim_dashes s)" using ne by (metis hd_append2)
    moreover have "t \<noteq> []" using ne trim by auto
    then have "hd t \<noteq> CHR ''-''" unfolding t_def by (rule hd_dropWhile)
    ultimately show ?thesis by simp
  qed
qed

lemma sanitize_chars: "c \<in> set (sanitizeDNSLabel name) \<Longrightarrow> is_lower_alnum c \<or> c = CHR ''-''"
  by (auto simp: sanitizeDNSLabel_def split: if_splits)

text \<open>The two outcomes of \<^const>\<open>truncateName\<close>: the name itself, or a body and the digest.\<close>

lemma truncateName_cases:
  obtains (pass) "truncateName sha name = name" "sanitizeDNSLabel name = name" "length name \<le> 63"
      "isAlphanumericEdged name" "\<not> hasHashSuffixShape name"
  | (digest) body where "body = trim_dashes (take (min (length (sanitizeDNSLabel name)) 54) (sanitizeDNSLabel name))"
      "truncateName sha name = (if body = '''' then take 8 (sha name) else body @ ''-'' @ take 8 (sha name))"
proof (cases "sanitizeDNSLabel name = name \<and> length name \<le> 63 \<and> isAlphanumericEdged name \<and> \<not> hasHashSuffixShape name")
  case True
  then show ?thesis by (intro pass) (simp_all add: truncateName_def MaxDNSLabelLength_def)
next
  case False
  show ?thesis
    by (intro digest [OF refl])
      (simp only: truncateName_def MaxDNSLabelLength_def nameHashLength_def Let_def if_not_P [OF False], simp)
qed

lemma sanitize_no_dash: "is_lower_alnum c \<Longrightarrow> c \<noteq> CHR ''-''"
proof -
  have "\<not> is_lower_alnum CHR ''-''" by code_simp
  then show "is_lower_alnum c \<Longrightarrow> c \<noteq> CHR ''-''" by blast
qed

lemma digest_suffix:
  assumes "hex_digest sha"
  shows "length (take 8 (sha name)) = 8" and "\<forall>c \<in> set (take 8 (sha name)). is_lower_hex c"
    and "take 8 (sha name) \<noteq> ''''"
proof -
  have "8 \<le> length (sha name)" using assms by (simp add: hex_digest_def)
  then show "length (take 8 (sha name)) = 8" by simp
  then show "take 8 (sha name) \<noteq> ''''" by auto
  show "\<forall>c \<in> set (take 8 (sha name)). is_lower_hex c" using assms by (auto simp: hex_digest_def dest: in_set_takeD)
qed

lemma hashed_name_shape:
  assumes "hex_digest sha"
  shows "hasHashSuffixShape (body @ ''-'' @ take 8 (sha name))"
  using digest_suffix [OF assms, of name]
  by (simp add: hasHashSuffixShape_def nameHashLength_def list_all_iff nth_append)

lemma truncateName_dns_label:
  assumes "hex_digest sha"
  shows "dns_label (truncateName sha name)"
proof (cases rule: truncateName_cases [of sha name])
  case pass
  have "is_lower_alnum c \<or> c = CHR ''-''" if "c \<in> set name" for c
    using sanitize_chars [of c name] that pass(2) by simp
  with pass show ?thesis by (auto simp: dns_label_def isAlphanumericEdged_def split: if_splits)
next
  case (digest body)
  let ?s = "take 8 (sha name)"
  note suffix = digest_suffix [OF assms, of name]
  have hex: "\<forall>c \<in> set ?s. is_lower_alnum c" using suffix(2) is_lower_hex_alnum by blast
  note trim = trim_dashes_props [of "take (min (length (sanitizeDNSLabel name)) 54) (sanitizeDNSLabel name)", folded digest(1)]
  have chars: "is_lower_alnum c \<or> c = CHR ''-''" if "c \<in> set body" for c
    using trim(2) that sanitize_chars [of c name] by (auto dest: in_set_takeD)
  show ?thesis
  proof (cases "body = ''''")
    case True
    have "hd ?s \<in> set ?s" "last ?s \<in> set ?s" by (rule hd_in_set [OF suffix(3)], rule last_in_set [OF suffix(3)])
    with hex have "is_lower_alnum (hd ?s)" "is_lower_alnum (last ?s)" by blast+
    with True digest(2) suffix hex show ?thesis by (simp add: dns_label_def)
  next
    case False
    have "is_lower_alnum (hd body)" using chars [of "hd body"] trim(1) False by simp
    moreover have "length body \<le> 54" using trim(3) by simp
    moreover have "last ?s \<in> set ?s" by (rule last_in_set [OF suffix(3)])
    with hex have "is_lower_alnum (last ?s)" by blast
    moreover have "truncateName sha name = body @ ''-'' @ ?s" using digest(2) False by simp
    ultimately show ?thesis
      using False suffix(1,3) hex chars by (auto simp: dns_label_def)
  qed
qed

text \<open>A name with an alphanumeric first character keeps a body, so a rendered name of the digest kind has the shape
  that never passes through unchanged.\<close>

lemma digest_body_nonempty:
  assumes "name \<noteq> ''''" and "is_lower_alnum (char_lower (hd name))"
  shows "trim_dashes (take (min (length (sanitizeDNSLabel name)) 54) (sanitizeDNSLabel name)) \<noteq> ''''"
proof -
  obtain a r where name: "name = a # r" using assms(1) by (cases name) auto
  then obtain b t where s: "sanitizeDNSLabel name = b # t" and b: "b = char_lower a"
    using assms(2) by (auto simp: sanitizeDNSLabel_def to_lower_def)
  with assms(2) name have "b \<noteq> CHR ''-''" using sanitize_no_dash by simp
  then have "trim_dashes (b # u) \<noteq> ''''" for u
    unfolding trim_dashes_def by (simp add: dropWhile_eq_Nil_conv)
  then show ?thesis unfolding s by (simp add: min_def)
qed

lemma truncateName_alias:
  assumes "hex_digest sha" and "truncateName sha a = truncateName sha b"
    and "a \<noteq> ''''" "is_lower_alnum (char_lower (hd a))" and "b \<noteq> ''''" "is_lower_alnum (char_lower (hd b))"
  shows "a = b \<or> take 8 (sha a) = take 8 (sha b)"
proof (cases rule: truncateName_cases [of sha a])
  case pass_a: pass
  show ?thesis
  proof (cases rule: truncateName_cases [of sha b])
    case pass
    with pass_a assms(2) show ?thesis by simp
  next
    case (digest body)
    with digest_body_nonempty [OF assms(5,6)] have "truncateName sha b = body @ ''-'' @ take 8 (sha b)" by simp
    with pass_a assms(2) hashed_name_shape [OF assms(1), of body b] show ?thesis by simp
  qed
next
  case (digest body)
  with digest_body_nonempty [OF assms(3,4)] have a: "truncateName sha a = body @ ''-'' @ take 8 (sha a)" by simp
  show ?thesis
  proof (cases rule: truncateName_cases [of sha b])
    case pass
    with a assms(2) hashed_name_shape [OF assms(1), of body a] show ?thesis by simp
  next
    case (digest body')
    with digest_body_nonempty [OF assms(5,6)] have b: "truncateName sha b = body' @ ''-'' @ take 8 (sha b)" by simp
    from a b assms(2) have "(body @ ''-'') @ take 8 (sha a) = (body' @ ''-'') @ take 8 (sha b)" by simp
    moreover have "length (take 8 (sha a)) = length (take 8 (sha b))" using digest_suffix(1) [OF assms(1)] by simp
    ultimately have "take 8 (sha a) = take 8 (sha b)"
      using append_eq_append_conv [of "body @ ''-''" "body' @ ''-''" "take 8 (sha a)" "take 8 (sha b)"] by blast
    then show ?thesis by blast
  qed
qed

text \<open>C21: every rendered name is a DNS-1123 label, whatever the Gateway is called, and two Gateways share the name
  of a Deployment, a Service, a NetworkPolicy or a Secret only if the eight leading digits of two digests coincide.\<close>

theorem rendered_names_valid_and_distinct:
  assumes "hex_digest sha"
  shows "dns_label (DeploymentName sha g) \<and> dns_label (ConfigServiceName sha g)
    \<and> dns_label (NetworkPolicyName sha g) \<and> dns_label (GeneratedAuthSecretName sha g) \<and> dns_label (GatewayLabelValue sha g)
    \<and> (\<forall>ending \<in> {'''', ''-config'', ''-netpol'', ''-auth''}.
         truncateName sha (namePrefix @ g @ ending) = truncateName sha (namePrefix @ g' @ ending) \<longrightarrow>
           g = g' \<or> take 8 (sha (namePrefix @ g @ ending)) = take 8 (sha (namePrefix @ g' @ ending)))"
proof -
  have "g = g' \<or> take 8 (sha (namePrefix @ g @ e)) = take 8 (sha (namePrefix @ g' @ e))"
    if "truncateName sha (namePrefix @ g @ e) = truncateName sha (namePrefix @ g' @ e)" for e
  proof -
    have "is_lower_alnum (char_lower CHR ''c'')" by code_simp
    then have "is_lower_alnum (char_lower (hd (namePrefix @ x)))" "namePrefix @ x \<noteq> ''''" for x
      by (simp_all add: namePrefix_def)
    from truncateName_alias [OF assms that this(2,1) this(2,1)] show ?thesis by auto
  qed
  then show ?thesis
    unfolding DeploymentName_def ConfigServiceName_def NetworkPolicyName_def GeneratedAuthSecretName_def GatewayLabelValue_def
    using truncateName_dns_label [OF assms] by blast
qed

theorem rendered_names_valid_and_distinct_witness:
  "DeploymentName (\<lambda>_. ''0123abcd'') ''My.Edge'' = ''cf-proxy-my-edge-0123abcd''
   \<and> dns_label ''cf-proxy-my-edge-0123abcd''"
proof -
  have "hex_digest (\<lambda>_. ''0123abcd'')"
  proof -
    have "8 \<le> length ''0123abcd''" "\<forall>c \<in> set ''0123abcd''. is_lower_hex c" by (simp, code_simp)
    then show ?thesis by (simp only: hex_digest_def simp_thms)
  qed
  from rendered_names_valid_and_distinct [OF this, of "''My.Edge''"]
  have "dns_label (DeploymentName (\<lambda>_. ''0123abcd'') ''My.Edge'')" by blast
  moreover have "DeploymentName (\<lambda>_. ''0123abcd'') ''My.Edge'' = ''cf-proxy-my-edge-0123abcd''" by code_simp
  ultimately show ?thesis by simp
qed

text \<open>A name whose sanitized form is all dashes is rendered as the bare digest, which a Gateway of that very name
  would get unchanged: the two ways to a name are disjoint only for names with an alphanumeric first character.\<close>

lemma bare_digest_can_alias:
  "truncateName (\<lambda>_. ''deadbeef'') ''...'' = truncateName (\<lambda>_. ''deadbeef'') ''deadbeef''"
  by code_simp


end
