(* ===== verification/ConfigResolve.thy ===== *)
theory ConfigResolve
  imports RouteBinding RenderNames
begin

text \<open>
  Resolution of the configuration of the shared data plane and of a Gateway's own one
  (\<^verbatim>\<open>src/internal/config/resolver.go\<close>, \<^verbatim>\<open>resolver_gateway.go\<close>, the token parser of
  \<^verbatim>\<open>src/internal/tunnel/bootstrap.go\<close>). The objects read through the client are the record \<open>ConfigStore\<close>: a read
  returns the object or an API error. Base64 with JSON decoding of a token is the parameter \<open>decode\<close>.
\<close>

section \<open>Objects\<close>

record LocalSecretReference =
  lsr_Name :: string
  lsr_Key :: string

definition KeyOr :: "LocalSecretReference \<Rightarrow> string \<Rightarrow> string" where
  "KeyOr r fallback = (if lsr_Key r = '''' then fallback else lsr_Key r)"

record GatewayConfig =
  gc_Namespace :: string
  gc_Name :: string
  gc_TunnelTokenSecretRef :: LocalSecretReference
  gc_CloudflareCredentialsSecretRef :: "LocalSecretReference option"
  gc_AuthTokenSecretRef :: "LocalSecretReference option"

record SecretReference =
  sr_Name :: string
  sr_Namespace :: string
  sr_Key :: string

definition GetAPITokenKey :: "SecretReference \<Rightarrow> string" where
  "GetAPITokenKey r = (if sr_Key r = '''' then ''api-token'' else sr_Key r)"

record GatewayClassConfig =
  cc_Name :: string
  cc_CloudflareCredentialsSecretRef :: SecretReference
  cc_AccountID :: string
  cc_TunnelID :: string

type_synonym secret_data = "string \<Rightarrow> string option"

record ConfigStore =
  s_defaultNamespace :: string
  s_secret :: "string \<Rightarrow> string \<Rightarrow> gerr + secret_data"
  s_gatewayConfig :: "string \<Rightarrow> string \<Rightarrow> gerr + GatewayConfig"
  s_class :: "string \<Rightarrow> gerr + LocalParametersReference option"
  s_classConfig :: "string \<Rightarrow> gerr + GatewayClassConfig"

record ResolvedConfig =
  rc_APIToken :: string
  rc_AccountID :: string
  rc_TunnelID :: string
  rc_ConfigName :: string

record PerGatewayConfig =
  pg_Resolved :: ResolvedConfig
  pg_TunnelToken :: string
  pg_AuthToken :: string
  pg_GatewayConfig :: GatewayConfig

section \<open>Tokens\<close>

record Token =
  tk_AccountTag :: string
  tk_TunnelSecret :: string
  tk_TunnelID :: string

definition uuid_Nil :: string where
  "uuid_Nil = ''00000000-0000-0000-0000-000000000000''"

text \<open>\<open>decode\<close> is the outcome of the two decoders: no base64, no JSON, or a token.\<close>

datatype decoded = NotBase64 | NotJSON | Decoded Token

definition ParseTunnelToken :: "(string \<Rightarrow> decoded) \<Rightarrow> string \<Rightarrow> gerr + Token" where
  "ParseTunnelToken decode tokenStr =
     (if tokenStr = '''' then Inl (Sentinel (errCtl EmptyToken))
      else case decode tokenStr of
        NotBase64 \<Rightarrow> Inl (Sentinel (errCtl InvalidBase64))
      | NotJSON \<Rightarrow> Inl (Sentinel (errCtl InvalidTokenJSON))
      | Decoded token \<Rightarrow>
          if tk_AccountTag token = '''' then Inl (Sentinel (errCtl MissingAccountID))
          else if tk_TunnelID token = uuid_Nil then Inl (Sentinel (errCtl MissingTunnelID))
          else if tk_TunnelSecret token = '''' then Inl (Sentinel (errCtl MissingSecret))
          else Inr token)"

section \<open>The shared configuration\<close>

definition ParametersRefGroup :: string where
  "ParametersRefGroup = ''cf.k8s.lex.la''"

definition getSecret :: "ConfigStore \<Rightarrow> string \<Rightarrow> string \<Rightarrow> gerr + secret_data" where
  "getSecret st name namespace =
     (let ns = (if namespace = '''' then s_defaultNamespace st else namespace) in
      case s_secret st ns name of
        Inl e \<Rightarrow> Inl (Wrapped (InText ''failed to get secret'') e)
      | Inr secret \<Rightarrow> Inr secret)"

definition resolveConfig :: "ConfigStore \<Rightarrow> GatewayClassConfig \<Rightarrow> gerr + ResolvedConfig" where
  "resolveConfig st config =
     (if cc_TunnelID config = '''' then Inl (Sentinel (errCtl TunnelIDRequired))
      else let credentialsRef = cc_CloudflareCredentialsSecretRef config in
        case getSecret st (sr_Name credentialsRef) (sr_Namespace credentialsRef) of
          Inl e \<Rightarrow> Inl (Wrapped (InText ''failed to get Cloudflare credentials secret'') e)
        | Inr secret \<Rightarrow>
            (case secret (GetAPITokenKey credentialsRef) of
               None \<Rightarrow> Inl (Sentinel (errCtl SecretKeyMissing))
             | Some apiToken \<Rightarrow>
                 if apiToken = '''' then Inl (Sentinel (errCtl SecretKeyEmpty))
                 else Inr \<lparr> rc_APIToken = apiToken,
                            rc_AccountID = (if cc_AccountID config \<noteq> '''' then cc_AccountID config
                                            else case secret ''account-id'' of None \<Rightarrow> '''' | Some a \<Rightarrow> a),
                            rc_TunnelID = cc_TunnelID config, rc_ConfigName = cc_Name config \<rparr>))"

definition ResolveFromGatewayClass ::
    "ConfigStore \<Rightarrow> LocalParametersReference option \<Rightarrow> gerr + ResolvedConfig" where
  "ResolveFromGatewayClass st parametersRef =
     (case parametersRef of
        None \<Rightarrow> Inl (Sentinel (errCtl NoParametersRef))
      | Some ref \<Rightarrow>
          if lp_Group ref \<noteq> ParametersRefGroup then Inl (Sentinel (errCtl UnsupportedParametersRef))
          else if lp_Kind ref \<noteq> ''GatewayClassConfig'' then Inl (Sentinel (errCtl UnsupportedParametersRef))
          else (case s_classConfig st (lp_Name ref) of
                  Inl e \<Rightarrow> Inl (Wrapped (InText ''failed to get GatewayClassConfig'') e)
                | Inr config \<Rightarrow> resolveConfig st config))"

definition ResolveFromGatewayClassName :: "ConfigStore \<Rightarrow> string \<Rightarrow> gerr + ResolvedConfig" where
  "ResolveFromGatewayClassName st gatewayClassName =
     (case s_class st gatewayClassName of
        Inl e \<Rightarrow> Inl (Wrapped (InText ''failed to get GatewayClass'') e)
      | Inr parametersRef \<Rightarrow> ResolveFromGatewayClass st parametersRef)"

text \<open>The account of a configuration: set, remembered for the configuration's name, or the only one the token
  can list. \<open>accounts\<close> is the answer of the API; the second component is the cache afterwards.\<close>

definition ResolveAccountID ::
    "gerr + string list \<Rightarrow> (string \<Rightarrow> string option) \<Rightarrow> ResolvedConfig
     \<Rightarrow> (gerr + string) \<times> (string \<Rightarrow> string option)" where
  "ResolveAccountID accounts cache resolved =
     (if rc_AccountID resolved \<noteq> '''' then (Inr (rc_AccountID resolved), cache)
      else case cache (rc_ConfigName resolved) of
        Some accountID \<Rightarrow> (Inr accountID, cache)
      | None \<Rightarrow>
          (case accounts of
             Inl e \<Rightarrow> (Inl (Wrapped (InText ''failed to list accounts'') e), cache)
           | Inr accountList \<Rightarrow>
               (case accountList of
                  [] \<Rightarrow> (Inl (Sentinel (errCtl NoAccounts)), cache)
                | [accountID] \<Rightarrow> (Inr accountID, cache(rc_ConfigName resolved \<mapsto> accountID))
                | _ \<Rightarrow> (Inl (Sentinel (errCtl MultipleAccounts)), cache))))"

section \<open>The configuration of a Gateway\<close>

definition HasInfrastructureParametersRef :: "'sel Gateway \<Rightarrow> bool" where
  "HasInfrastructureParametersRef gateway = (case gw_Infrastructure gateway of None \<Rightarrow> False | Some r \<Rightarrow> r \<noteq> None)"

definition invalid_parameters :: gerr where
  "invalid_parameters = Wrapped (InText ''parametersRef'') (Sentinel (errCtl ErrInvalidParameters))"

definition isNotFound :: "gerr \<Rightarrow> bool" where
  "isNotFound e = errors_is e (errK8s NotFound)"

definition isRetryableAPIError :: "gerr \<Rightarrow> bool" where
  "isRetryableAPIError e \<longleftrightarrow>
     errors_is e (errK8s ServerTimeout) \<or> errors_is e (errK8s Timeout) \<or> errors_is e (errK8s TooManyRequests)
     \<or> errors_is e (errK8s InternalError) \<or> errors_is e (errK8s ServiceUnavailable)"

text \<open>Called only for a Gateway with a reference; without one the code dereferences nil.\<close>

definition getGatewayConfig :: "ConfigStore \<Rightarrow> 'sel Gateway \<Rightarrow> gerr + GatewayConfig" where
  "getGatewayConfig st gateway =
     (case gw_Infrastructure gateway of
        Some (Some ref) \<Rightarrow>
          if lp_Group ref \<noteq> ParametersRefGroup \<or> lp_Kind ref \<noteq> ''GatewayConfig'' then Inl invalid_parameters
          else (case s_gatewayConfig st (gw_Namespace gateway) (lp_Name ref) of
                  Inl e \<Rightarrow> if isNotFound e then Inl invalid_parameters
                           else Inl (Wrapped (InText ''reading GatewayConfig'') e)
                | Inr gwConfig \<Rightarrow> Inr gwConfig)
      | _ \<Rightarrow> Inl (Sentinel errNilDereference))"

text \<open>The value of a key of a Secret that has to be there: the common part of the three readers below.\<close>

definition secret_value :: "secret_data \<Rightarrow> string \<Rightarrow> gerr + string" where
  "secret_value secret key =
     (case secret key of None \<Rightarrow> Inl invalid_parameters
      | Some v \<Rightarrow> if v = '''' then Inl invalid_parameters else Inr v)"

definition readTunnelToken :: "ConfigStore \<Rightarrow> string \<Rightarrow> GatewayConfig \<Rightarrow> gerr + string" where
  "readTunnelToken st namespace gwConfig =
     (let ref = gc_TunnelTokenSecretRef gwConfig in
      case getSecret st (lsr_Name ref) namespace of
        Inl e \<Rightarrow> if isNotFound e then Inl invalid_parameters
                 else Inl (Wrapped (InText ''reading tunnel token secret'') e)
      | Inr secret \<Rightarrow> secret_value secret (KeyOr ref ''tunnel-token''))"

definition readCredentialOverride :: "ConfigStore \<Rightarrow> GatewayConfig \<Rightarrow> LocalSecretReference \<Rightarrow> gerr + string" where
  "readCredentialOverride st gwConfig override =
     (case getSecret st (lsr_Name override) (gc_Namespace gwConfig) of
        Inl e \<Rightarrow> if isNotFound e then Inl invalid_parameters
                 else Inl (Wrapped (InText ''reading cloudflare credentials secret'') e)
      | Inr secret \<Rightarrow> secret_value secret (KeyOr override ''api-token''))"

definition resolveGatewayAPIToken :: "ConfigStore \<Rightarrow> 'sel Gateway \<Rightarrow> GatewayConfig \<Rightarrow> gerr + string" where
  "resolveGatewayAPIToken st gateway gwConfig =
     (case gc_CloudflareCredentialsSecretRef gwConfig of
        Some override \<Rightarrow> readCredentialOverride st gwConfig override
      | None \<Rightarrow>
          (case ResolveFromGatewayClassName st (gw_GatewayClassName gateway) of
             Inl e \<Rightarrow> if isRetryableAPIError e
                      then Inl (Wrapped (InText ''resolving class credentials for per-Gateway data plane'') e)
                      else Inl invalid_parameters
           | Inr classResolved \<Rightarrow> Inr (rc_APIToken classResolved)))"

definition readAuthToken :: "(string \<Rightarrow> string) \<Rightarrow> ConfigStore \<Rightarrow> 'sel Gateway \<Rightarrow> GatewayConfig \<Rightarrow> gerr + string" where
  "readAuthToken sha st gateway gwConfig =
     (let (name, key, generated) =
            (case gc_AuthTokenSecretRef gwConfig of
               None \<Rightarrow> (GeneratedAuthSecretName sha (gw_Name gateway), ''auth-token'', True)
             | Some ref \<Rightarrow> (lsr_Name ref, KeyOr ref ''auth-token'', False))
      in case getSecret st name (gw_Namespace gateway) of
           Inl e \<Rightarrow> if isNotFound e \<and> generated
                    then Inl (Wrapped (InText ''generated auth token secret not yet created'') e)
                    else if isNotFound e then Inl invalid_parameters
                    else Inl (Wrapped (InText ''reading auth token secret'') e)
         | Inr secret \<Rightarrow> secret_value secret key)"

definition resolveStatusConfig ::
    "(string \<Rightarrow> decoded) \<Rightarrow> ConfigStore \<Rightarrow> 'sel Gateway \<Rightarrow> gerr + PerGatewayConfig option" where
  "resolveStatusConfig decode st gateway =
     (if \<not> HasInfrastructureParametersRef gateway then Inr None
      else case getGatewayConfig st gateway of
        Inl e \<Rightarrow> Inl e
      | Inr gwConfig \<Rightarrow>
          (case readTunnelToken st (gw_Namespace gateway) gwConfig of
             Inl e \<Rightarrow> Inl e
           | Inr token \<Rightarrow>
               (case ParseTunnelToken decode token of
                  Inl _ \<Rightarrow> Inl invalid_parameters
                | Inr parsed \<Rightarrow>
                    (case resolveGatewayAPIToken st gateway gwConfig of
                       Inl e \<Rightarrow> Inl e
                     | Inr apiToken \<Rightarrow>
                         Inr (Some
                           \<lparr> pg_Resolved = \<lparr> rc_APIToken = apiToken, rc_AccountID = tk_AccountTag parsed,
                               rc_TunnelID = tk_TunnelID parsed,
                               rc_ConfigName = ''gatewayconfig:'' @ gc_Namespace gwConfig @ ''/'' @ gc_Name gwConfig \<rparr>,
                             pg_TunnelToken = token, pg_AuthToken = '''', pg_GatewayConfig = gwConfig \<rparr>)))))"

definition ResolveForGateway ::
    "(string \<Rightarrow> decoded) \<Rightarrow> (string \<Rightarrow> string) \<Rightarrow> ConfigStore \<Rightarrow> 'sel Gateway \<Rightarrow> gerr + PerGatewayConfig option" where
  "ResolveForGateway decode sha st gateway =
     (case resolveStatusConfig decode st gateway of
        Inl e \<Rightarrow> Inl e
      | Inr None \<Rightarrow> Inr None
      | Inr (Some base) \<Rightarrow>
          (case readAuthToken sha st gateway (pg_GatewayConfig base) of
             Inl e \<Rightarrow> Inl e
           | Inr authToken \<Rightarrow> Inr (Some (base \<lparr> pg_AuthToken := authToken \<rparr>))))"

section \<open>Lemmas\<close>

text \<open>Reads of the API fail with API errors only.\<close>

definition api_errors :: "ConfigStore \<Rightarrow> bool" where
  "api_errors st \<longleftrightarrow>
     (\<forall>ns name e. s_secret st ns name = Inl e \<longrightarrow> (\<exists>k. e = Sentinel (errK8s k)))
     \<and> (\<forall>ns name e. s_gatewayConfig st ns name = Inl e \<longrightarrow> (\<exists>k. e = Sentinel (errK8s k)))
     \<and> (\<forall>name e. s_class st name = Inl e \<longrightarrow> (\<exists>k. e = Sentinel (errK8s k)))
     \<and> (\<forall>name e. s_classConfig st name = Inl e \<longrightarrow> (\<exists>k. e = Sentinel (errK8s k)))"

text \<open>An error of a resolution is either the user's to fix or carries a failed read that may pass.\<close>

definition classified :: "gerr \<Rightarrow> bool" where
  "classified e \<longleftrightarrow> errors_is e (errCtl ErrInvalidParameters) \<or> (\<exists>k. errors_is e (errK8s k))"

lemma classified_simps [simp]:
  "classified invalid_parameters" "classified (Wrapped c e) \<longleftrightarrow> classified e" "classified (Sentinel (errK8s k))"
  by (simp_all add: classified_def invalid_parameters_def)

lemma getSecret_Inl:
  assumes "api_errors st" and "getSecret st name ns = Inl e"
  shows "\<exists>k. e = Wrapped (InText ''failed to get secret'') (Sentinel (errK8s k))"
  using assms unfolding getSecret_def api_errors_def Let_def by (auto split: sum.splits)

lemma secret_value_cases:
  "secret_value secret key = Inl e \<Longrightarrow> e = invalid_parameters"
  "secret_value secret key = Inr v \<Longrightarrow> v \<noteq> ''''"
  by (auto simp: secret_value_def split: option.splits if_splits)

lemma retryable_is_api: "isRetryableAPIError e \<Longrightarrow> classified e"
  by (auto simp: isRetryableAPIError_def classified_def)

lemma read_errors_classified:
  assumes "api_errors st"
  shows "readTunnelToken st ns c = Inl e \<Longrightarrow> classified e"
    and "readCredentialOverride st c r = Inl e \<Longrightarrow> classified e"
    and "readAuthToken sha st g c = Inl e \<Longrightarrow> classified e"
    and "resolveGatewayAPIToken st g c = Inl e \<Longrightarrow> classified e"
    and "getGatewayConfig st g = Inl e \<Longrightarrow> HasInfrastructureParametersRef g \<Longrightarrow> classified e"
proof -
  have sec: "classified e" if "getSecret st n ns = Inl e" for n ns e using getSecret_Inl [OF assms that] by auto
  show "readTunnelToken st ns c = Inl e \<Longrightarrow> classified e"
    by (auto simp: readTunnelToken_def Let_def dest: sec secret_value_cases split: sum.splits if_splits)
  show cred: "readCredentialOverride st c r = Inl e \<Longrightarrow> classified e" for r e
    by (auto simp: readCredentialOverride_def dest: sec secret_value_cases split: sum.splits if_splits)
  show "readAuthToken sha st g c = Inl e \<Longrightarrow> classified e"
    by (auto simp: readAuthToken_def dest: sec secret_value_cases split: sum.splits if_splits prod.splits option.splits)
  show "resolveGatewayAPIToken st g c = Inl e \<Longrightarrow> classified e"
    by (auto simp: resolveGatewayAPIToken_def dest: cred retryable_is_api split: option.splits sum.splits if_splits)
  have cfg: "classified e" if "s_gatewayConfig st ns n = Inl e" for ns n e
  proof -
    from assms that obtain k where "e = Sentinel (errK8s k)" unfolding api_errors_def by blast
    then show ?thesis by simp
  qed
  show "getGatewayConfig st g = Inl e \<Longrightarrow> HasInfrastructureParametersRef g \<Longrightarrow> classified e"
    by (auto simp: getGatewayConfig_def HasInfrastructureParametersRef_def dest: cfg
        split: option.splits sum.splits if_splits)
qed

lemma ParseTunnelToken_Inr:
  "ParseTunnelToken decode t = Inr p \<Longrightarrow>
     t \<noteq> '''' \<and> tk_AccountTag p \<noteq> '''' \<and> tk_TunnelID p \<noteq> uuid_Nil \<and> tk_TunnelSecret p \<noteq> ''''"
  by (auto simp: ParseTunnelToken_def split: if_splits decoded.splits)

lemma api_token_nonempty:
  "resolveGatewayAPIToken st g c = Inr t \<Longrightarrow> t \<noteq> ''''"
  by (auto simp: resolveGatewayAPIToken_def readCredentialOverride_def ResolveFromGatewayClassName_def
      ResolveFromGatewayClass_def resolveConfig_def Let_def
      dest: secret_value_cases split: option.splits sum.splits if_splits)

lemma auth_token_nonempty: "readAuthToken sha st g c = Inr t \<Longrightarrow> t \<noteq> ''''"
  by (auto simp: readAuthToken_def dest: secret_value_cases split: option.splits sum.splits if_splits prod.splits)

text \<open>C22: what a Gateway's own data plane resolves to. A Gateway that does not opt in gets none and no error. One
  that does gets either a configuration with a non-empty push token, API token, account and tunnel, so that no data plane
  is ever pushed to without authentication, or an error: invalid parameters, or a failed read of the API.\<close>

theorem per_gateway_config_complete:
  assumes "api_errors st"
  shows "case ResolveForGateway decode sha st gateway of
      Inl e \<Rightarrow> HasInfrastructureParametersRef gateway
               \<and> (errors_is e (errCtl ErrInvalidParameters) \<or> (\<exists>k. errors_is e (errK8s k)))
    | Inr None \<Rightarrow> \<not> HasInfrastructureParametersRef gateway
    | Inr (Some p) \<Rightarrow> HasInfrastructureParametersRef gateway
        \<and> pg_AuthToken p \<noteq> '''' \<and> pg_TunnelToken p \<noteq> '''' \<and> rc_APIToken (pg_Resolved p) \<noteq> ''''
        \<and> rc_AccountID (pg_Resolved p) \<noteq> '''' \<and> rc_TunnelID (pg_Resolved p) \<noteq> uuid_Nil"
proof -
  note classify = read_errors_classified [OF assms, unfolded classified_def]
  have inv: "errors_is invalid_parameters (errCtl ErrInvalidParameters)" by (simp add: invalid_parameters_def)
  show ?thesis
  proof (cases "ResolveForGateway decode sha st gateway")
    case (Inl e)
    then show ?thesis
      by (auto simp: ResolveForGateway_def resolveStatusConfig_def inv dest: classify
          split: sum.splits option.splits if_splits)
  next
    case (Inr r)
    then show ?thesis
      by (auto simp: ResolveForGateway_def resolveStatusConfig_def
          dest: auth_token_nonempty api_token_nonempty ParseTunnelToken_Inr
          split: sum.splits option.splits if_splits)
  qed
qed


text \<open>A store with one tenant's objects.\<close>

definition sample_opted_in :: "unit Gateway" where
  "sample_opted_in =
     sample_gateway \<lparr> gw_Infrastructure := Some (Some \<lparr> lp_Group = ''cf.k8s.lex.la'', lp_Kind = ''GatewayConfig'', lp_Name = ''cfg'' \<rparr>) \<rparr>"

definition sample_gateway_config :: GatewayConfig where
  "sample_gateway_config =
     \<lparr> gc_Namespace = ''infra'', gc_Name = ''cfg'', gc_TunnelTokenSecretRef = \<lparr> lsr_Name = ''tok'', lsr_Key = '''' \<rparr>,
       gc_CloudflareCredentialsSecretRef = Some \<lparr> lsr_Name = ''api'', lsr_Key = '''' \<rparr>,
       gc_AuthTokenSecretRef = Some \<lparr> lsr_Name = ''auth'', lsr_Key = ''k'' \<rparr> \<rparr>"

definition sample_store :: ConfigStore where
  "sample_store =
     \<lparr> s_defaultNamespace = ''system'',
       s_secret = (\<lambda>ns name. if ns = ''infra''
          then Inr [''tunnel-token'' \<mapsto> ''T'', ''api-token'' \<mapsto> ''A'', ''k'' \<mapsto> ''P''] else Inl (Sentinel (errK8s NotFound))),
       s_gatewayConfig = (\<lambda>ns name. if ns = ''infra'' then Inr sample_gateway_config else Inl (Sentinel (errK8s NotFound))),
       s_class = (\<lambda>_. Inl (Sentinel (errK8s NotFound))), s_classConfig = (\<lambda>_. Inl (Sentinel (errK8s NotFound))) \<rparr>"

definition sample_decode :: "string \<Rightarrow> decoded" where
  "sample_decode s = Decoded \<lparr> tk_AccountTag = ''acc'', tk_TunnelSecret = ''s'', tk_TunnelID = ''t'' \<rparr>"

lemma sample_resolves:
  "\<exists>p. ResolveForGateway sample_decode sha sample_store sample_opted_in = Inr (Some p)"
  by (simp add: ResolveForGateway_def resolveStatusConfig_def sample_opted_in_def sample_store_def sample_gateway_config_def
      sample_gateway_def sample_decode_def HasInfrastructureParametersRef_def getGatewayConfig_def ParametersRefGroup_def
      readTunnelToken_def getSecret_def secret_value_def KeyOr_def ParseTunnelToken_def uuid_Nil_def
      resolveGatewayAPIToken_def readCredentialOverride_def readAuthToken_def Let_def)

lemma sample_store_errors: "api_errors sample_store"
  by (simp add: api_errors_def sample_store_def)

theorem per_gateway_config_complete_witness:
  "\<exists>p. ResolveForGateway sample_decode (\<lambda>_. ''0'') sample_store sample_opted_in = Inr (Some p) \<and> pg_AuthToken p \<noteq> ''''"
  using per_gateway_config_complete [OF sample_store_errors, where decode = sample_decode
      and sha = "\<lambda>_. ''0''" and gateway = sample_opted_in]
    sample_resolves [of "\<lambda>_. ''0''"] by auto

text \<open>The API returns an object under the namespace it was asked for.\<close>

definition namespaced_reads :: "ConfigStore \<Rightarrow> bool" where
  "namespaced_reads st \<longleftrightarrow> (\<forall>ns name c. s_gatewayConfig st ns name = Inr c \<longrightarrow> gc_Namespace c = ns)"

lemma getSecret_same_namespace:
  assumes "s_secret st ns = s_secret st' ns" and "ns \<noteq> ''''"
  shows "getSecret st name ns = getSecret st' name ns"
  using assms by (simp add: getSecret_def)

lemma readers_same_namespace:
  assumes "s_secret st ns = s_secret st' ns" and "ns \<noteq> ''''"
  shows "readTunnelToken st ns c = readTunnelToken st' ns c"
    and "gc_Namespace c = ns \<Longrightarrow> readCredentialOverride st c r = readCredentialOverride st' c r"
    and "gw_Namespace g = ns \<Longrightarrow> readAuthToken sha st g c = readAuthToken sha st' g c"
  unfolding readTunnelToken_def readCredentialOverride_def readAuthToken_def Let_def
  using getSecret_same_namespace [OF assms] by simp_all

text \<open>C23: tenants are separate. Whatever the other namespaces hold, the configuration of a Gateway is a function of the
  GatewayConfigs and Secrets of its own namespace and of what its class resolves to: two stores that agree there resolve
  it alike.\<close>

theorem per_gateway_config_isolated:
  assumes "gw_Namespace gateway \<noteq> ''''" and "namespaced_reads st"
    and "s_gatewayConfig st (gw_Namespace gateway) = s_gatewayConfig st' (gw_Namespace gateway)"
    and "s_secret st (gw_Namespace gateway) = s_secret st' (gw_Namespace gateway)"
    and "ResolveFromGatewayClassName st (gw_GatewayClassName gateway) =
         ResolveFromGatewayClassName st' (gw_GatewayClassName gateway)"
  shows "ResolveForGateway decode sha st gateway = ResolveForGateway decode sha st' gateway"
proof -
  note same = readers_same_namespace [OF assms(4,1)]
  have config: "getGatewayConfig st gateway = getGatewayConfig st' gateway"
    unfolding getGatewayConfig_def assms(3) by (rule refl)
  have ns: "gc_Namespace c = gw_Namespace gateway" if "getGatewayConfig st gateway = Inr c" for c
    using that assms(2)
    by (auto simp: getGatewayConfig_def namespaced_reads_def split: option.splits if_splits sum.splits)
  have api: "resolveGatewayAPIToken st gateway c = resolveGatewayAPIToken st' gateway c"
    if "getGatewayConfig st gateway = Inr c" for c
    unfolding resolveGatewayAPIToken_def using same(2) [OF ns [OF that]] assms(5) by (simp split: option.splits)
  have status: "resolveStatusConfig decode st gateway = resolveStatusConfig decode st' gateway"
    unfolding resolveStatusConfig_def config [symmetric] same(1) [symmetric]
    by (cases "getGatewayConfig st gateway") (simp_all add: api cong: sum.case_cong)
  show ?thesis unfolding ResolveForGateway_def status same(3) [OF refl] by (rule refl)
qed

text \<open>A Secret of another tenant, however it is named, makes no difference.\<close>

theorem per_gateway_config_isolated_witness:
  "ResolveForGateway sample_decode (\<lambda>_. ''0'') sample_store sample_opted_in =
   ResolveForGateway sample_decode (\<lambda>_. ''0'')
     (sample_store \<lparr> s_secret := (\<lambda>ns name. if ns = ''other'' then Inr [''tunnel-token'' \<mapsto> ''X''] else s_secret sample_store ns name) \<rparr>)
     sample_opted_in"
  by (rule per_gateway_config_isolated)
    (simp_all add: sample_opted_in_def sample_gateway_def namespaced_reads_def sample_store_def sample_gateway_config_def
      ResolveFromGatewayClassName_def)

text \<open>The remembered account of a configuration is never looked up again, whatever its credentials become.\<close>

lemma account_cache_is_final:
  assumes "cache (rc_ConfigName resolved) = Some accountID" and "rc_AccountID resolved = ''''"
  shows "ResolveAccountID accounts cache (resolved \<lparr> rc_APIToken := token \<rparr>) = (Inr accountID, cache)"
  using assms by (simp add: ResolveAccountID_def)

text \<open>A failed read of the class that is none of the five retryable kinds counts as the user's mistake.\<close>

lemma class_read_failure_is_invalid:
  assumes "gc_CloudflareCredentialsSecretRef c = None" and "s_class st (gw_GatewayClassName g) = Inl (Sentinel (errK8s OtherAPIError))"
  shows "resolveGatewayAPIToken st g c = Inl invalid_parameters"
  using assms by (simp add: resolveGatewayAPIToken_def ResolveFromGatewayClassName_def isRetryableAPIError_def)


end
