(* ===== verification/RoutePartition.thy ===== *)
theory RoutePartition
  imports CrossType ConfigResolve "HOL-Library.AList"
begin

text \<open>
  Distribution of the accepted routes over data planes (\<^verbatim>\<open>src/internal/controller/route_partition.go\<close> and the
  grouping by tunnel in \<^verbatim>\<open>route_syncer.go\<close>). A Go map that is filled once per key is an association list or a
  HOL map; where the code ranges over a map and sorts what it collected, the model sorts the set.
\<close>

section \<open>Data planes\<close>

definition sharedPartitionKey :: string where
  "sharedPartitionKey = ''shared''"

record ('sel, 'h, 'g) routePartition =
  pt_Key :: string
  pt_Gateway :: "'sel Gateway option"
  pt_PerGateway :: "PerGatewayConfig option"
  pt_HTTPRoutes :: "'h Route list"
  pt_GRPCRoutes :: "'g Route list"

record 'sel infraGateways =
  in_resolved :: "(string \<times> ('sel Gateway \<times> PerGatewayConfig)) list"
  in_broken :: "string set"
  in_transient :: "string set"

definition isBroken :: "'sel infraGateways option \<Rightarrow> string \<Rightarrow> bool" where
  "isBroken g key = (case g of None \<Rightarrow> False | Some i \<Rightarrow> key \<in> in_broken i)"

definition isResolved :: "'sel infraGateways option \<Rightarrow> string \<Rightarrow> bool" where
  "isResolved g key = (case g of None \<Rightarrow> False | Some i \<Rightarrow> map_of (in_resolved i) key \<noteq> None)"

definition transientKeys :: "'sel infraGateways option \<Rightarrow> string list" where
  "transientKeys g = (case g of None \<Rightarrow> [] | Some i \<Rightarrow> sorted_list_of_set (in_transient i))"

text \<open>One iteration of the loop over the Gateways; \<open>resolve\<close> is \<^const>\<open>ResolveForGateway\<close> on the API's objects.\<close>

definition add_infra_gateway ::
    "string list \<Rightarrow> ('sel Gateway \<Rightarrow> gerr + PerGatewayConfig option) \<Rightarrow> 'sel infraGateways \<Rightarrow> 'sel Gateway
     \<Rightarrow> 'sel infraGateways" where
  "add_infra_gateway classNames resolve out gateway =
     (if gw_GatewayClassName gateway \<notin> set classNames \<or> \<not> HasInfrastructureParametersRef gateway then out
      else let key = gateway_key gateway in
        case resolve gateway of
          Inl e \<Rightarrow>
            out \<lparr> in_broken := insert key (in_broken out),
                  in_transient := (if \<not> errors_is e (errCtl ErrInvalidParameters)
                                   then insert key (in_transient out) else in_transient out) \<rparr>
        | Inr None \<Rightarrow> out \<lparr> in_broken := insert key (in_broken out) \<rparr>
        | Inr (Some perGateway) \<Rightarrow> out \<lparr> in_resolved := AList.update key (gateway, perGateway) (in_resolved out) \<rparr>)"

definition resolveInfraGateways ::
    "(string \<Rightarrow> decoded) \<Rightarrow> (string \<Rightarrow> string) \<Rightarrow> ConfigStore \<Rightarrow> 'sel Cluster \<Rightarrow> string
     \<Rightarrow> gerr + 'sel Gateway list \<Rightarrow> gerr + 'sel infraGateways" where
  "resolveInfraGateways decode sha st cl controllerName gateways =
     (case managedClassNames cl controllerName of
        Inl e \<Rightarrow> Inl (Wrapped (InText ''listing managed gateway classes'') e)
      | Inr classNames \<Rightarrow>
          (case gateways of
             Inl e \<Rightarrow> Inl (Wrapped (InText ''listing gateways'') e)
           | Inr items \<Rightarrow>
               Inr (foldl (add_infra_gateway classNames (ResolveForGateway decode sha st))
                      \<lparr> in_resolved = [], in_broken = {}, in_transient = {} \<rparr> items)))"

section \<open>Partitions\<close>

text \<open>The plane a Gateway's routes go to: its own, none if it is broken, else the shared one.\<close>

definition gateway_partition :: "'sel infraGateways option \<Rightarrow> string \<Rightarrow> string option" where
  "gateway_partition infra gatewayKey =
     (if isResolved infra gatewayKey then Some gatewayKey
      else if isBroken infra gatewayKey then None
      else Some sharedPartitionKey)"

definition partitionKeysFor :: "string set \<Rightarrow> 'sel infraGateways option \<Rightarrow> string list" where
  "partitionKeysFor acceptedGateways infra =
     sorted_list_of_set (Option.these (gateway_partition infra ` acceptedGateways))"

definition accepted_gateways_of :: "(string \<Rightarrow> routeBindingInfo option) \<Rightarrow> 'r Route \<Rightarrow> string set" where
  "accepted_gateways_of bindings route =
     (case bindings (route_key route) of None \<Rightarrow> {} | Some info \<Rightarrow> rb_acceptedGateways info)"

type_synonym ('sel, 'h, 'g) partition_map = "string \<Rightarrow> ('sel, 'h, 'g) routePartition option"

definition append_http :: "'h Route \<Rightarrow> ('sel, 'h, 'g) partition_map \<Rightarrow> string \<Rightarrow> ('sel, 'h, 'g) partition_map" where
  "append_http route byKey key =
     byKey (key := map_option (\<lambda>p. p \<lparr> pt_HTTPRoutes := pt_HTTPRoutes p @ [route] \<rparr>) (byKey key))"

definition append_grpc :: "'g Route \<Rightarrow> ('sel, 'h, 'g) partition_map \<Rightarrow> string \<Rightarrow> ('sel, 'h, 'g) partition_map" where
  "append_grpc route byKey key =
     byKey (key := map_option (\<lambda>p. p \<lparr> pt_GRPCRoutes := pt_GRPCRoutes p @ [route] \<rparr>) (byKey key))"

definition initial_partitions :: "'sel infraGateways option \<Rightarrow> ('sel, 'h, 'g) partition_map" where
  "initial_partitions infra =
     (\<lambda>key. case (case infra of None \<Rightarrow> None | Some i \<Rightarrow> map_of (in_resolved i) key) of
        Some (gateway, perGateway) \<Rightarrow>
          Some \<lparr> pt_Key = key, pt_Gateway = Some gateway, pt_PerGateway = Some perGateway,
                 pt_HTTPRoutes = [], pt_GRPCRoutes = [] \<rparr>
      | None \<Rightarrow>
          if key = sharedPartitionKey
          then Some \<lparr> pt_Key = key, pt_Gateway = None, pt_PerGateway = None, pt_HTTPRoutes = [], pt_GRPCRoutes = [] \<rparr>
          else None)"

definition partition_keys :: "'sel infraGateways option \<Rightarrow> string list" where
  "partition_keys infra =
     sort (filter (\<lambda>key. key \<noteq> sharedPartitionKey)
             (case infra of None \<Rightarrow> [] | Some i \<Rightarrow> map fst (in_resolved i)))"

definition partitionRoutes ::
    "'h routeResult \<Rightarrow> 'g routeResult \<Rightarrow> 'sel infraGateways option \<Rightarrow> ('sel, 'h, 'g) routePartition list" where
  "partitionRoutes httpResult grpcResult infra =
     (let byKey1 = foldl (\<lambda>m route. foldl (append_http route) m
                     (partitionKeysFor (accepted_gateways_of (rs_bindings httpResult) route) infra))
                     (initial_partitions infra) (rs_accepted httpResult);
          byKey2 = foldl (\<lambda>m route. foldl (append_grpc route) m
                     (partitionKeysFor (accepted_gateways_of (rs_bindings grpcResult) route) infra))
                     byKey1 (rs_accepted grpcResult)
      in map (\<lambda>key. the (byKey2 key)) (sharedPartitionKey # partition_keys infra))"

section \<open>Tunnels\<close>

text \<open>The tunnel a partition is served through.\<close>

definition tunnel_of :: "string \<Rightarrow> ('sel, 'h, 'g) routePartition \<Rightarrow> string" where
  "tunnel_of sharedTunnelID p =
     (case pt_PerGateway p of None \<Rightarrow> sharedTunnelID | Some pg \<Rightarrow> rc_TunnelID (pg_Resolved pg))"

text \<open>The loop that keeps the first route of every key.\<close>

fun union_routes :: "string set \<Rightarrow> 'r Route list \<Rightarrow> 'r Route list" where
  "union_routes seen [] = []"
| "union_routes seen (route # rest) =
     (if route_key route \<in> seen then union_routes seen rest
      else route # union_routes (insert (route_key route) seen) rest)"

definition unionPartitionRoutes ::
    "('sel, 'h, 'g) routePartition list \<Rightarrow> string \<Rightarrow> ('sel, 'h, 'g) routePartition list" where
  "unionPartitionRoutes partitions sharedTunnelID =
     map (\<lambda>p. let same = filter (\<lambda>q. tunnel_of sharedTunnelID q = tunnel_of sharedTunnelID p) partitions in
              p \<lparr> pt_HTTPRoutes := union_routes {} (concat (map pt_HTTPRoutes same)),
                  pt_GRPCRoutes := union_routes {} (concat (map pt_GRPCRoutes same)) \<rparr>) partitions"

record ('sel, 'h, 'g) tunnelGroup =
  tg_resolved :: ResolvedConfig
  tg_partitions :: "('sel, 'h, 'g) routePartition list"

definition partition_config :: "ResolvedConfig \<Rightarrow> ('sel, 'h, 'g) routePartition \<Rightarrow> ResolvedConfig" where
  "partition_config shared p = (case pt_PerGateway p of None \<Rightarrow> shared | Some pg \<Rightarrow> pg_Resolved pg)"

text \<open>\<open>byTunnel\<close> in the order in which the tunnels were first seen, as the code keeps it in \<open>order\<close>.\<close>

fun add_to_group ::
    "ResolvedConfig \<Rightarrow> (string \<times> ('sel, 'h, 'g) tunnelGroup) list \<Rightarrow> ('sel, 'h, 'g) routePartition
     \<Rightarrow> (string \<times> ('sel, 'h, 'g) tunnelGroup) list" where
  "add_to_group shared [] p =
     [(rc_TunnelID (partition_config shared p), \<lparr> tg_resolved = partition_config shared p, tg_partitions = [p] \<rparr>)]"
| "add_to_group shared ((tunnelID, grp) # rest) p =
     (if tunnelID = rc_TunnelID (partition_config shared p)
      then (tunnelID, grp \<lparr> tg_partitions := tg_partitions grp @ [p] \<rparr>) # rest
      else (tunnelID, grp) # add_to_group shared rest p)"

definition buildTunnelGroups ::
    "ResolvedConfig \<Rightarrow> ('sel, 'h, 'g) routePartition list \<Rightarrow> ('sel, 'h, 'g) tunnelGroup list" where
  "buildTunnelGroups shared partitions =
     (let byTunnel = foldl (add_to_group shared) [] partitions;
          order = map fst byTunnel;
          order' = (case order of [] \<Rightarrow> [] | first # rest \<Rightarrow> first # sort rest)
      in map (\<lambda>tunnelID. the (map_of byTunnel tunnelID)) order')"

definition groupRoutes :: "('sel, 'h, 'g) tunnelGroup \<Rightarrow> 'h Route list \<times> 'g Route list" where
  "groupRoutes grp =
     (union_routes {} (concat (map pt_HTTPRoutes (tg_partitions grp))),
      union_routes {} (concat (map pt_GRPCRoutes (tg_partitions grp))))"

definition sharedInfraTunnelCollisions :: "('sel, 'h, 'g) tunnelGroup list \<Rightarrow> (string \<times> string list) list" where
  "sharedInfraTunnelCollisions groups =
     map (\<lambda>g. (rc_TunnelID (tg_resolved g), sort (map pt_Key (filter (\<lambda>p. pt_PerGateway p \<noteq> None) (tg_partitions g)))))
       (filter (\<lambda>g. 2 \<le> length (filter (\<lambda>p. pt_PerGateway p \<noteq> None) (tg_partitions g))) groups)"

definition credential_differs :: "ResolvedConfig \<Rightarrow> ('sel, 'h, 'g) routePartition \<Rightarrow> bool" where
  "credential_differs owner p =
     (case pt_PerGateway p of None \<Rightarrow> False
      | Some pg \<Rightarrow> rc_APIToken (pg_Resolved pg) \<noteq> rc_APIToken owner \<or> rc_AccountID (pg_Resolved pg) \<noteq> rc_AccountID owner)"

definition sharedTunnelCredentialDrops :: "('sel, 'h, 'g) tunnelGroup list \<Rightarrow> (string \<times> string) list" where
  "sharedTunnelCredentialDrops groups =
     concat (map (\<lambda>g. map (\<lambda>p. (rc_TunnelID (tg_resolved g), pt_Key p))
                        (filter (credential_differs (tg_resolved g)) (tg_partitions g)))
               (filter (\<lambda>g. list_ex (\<lambda>p. pt_PerGateway p = None) (tg_partitions g)) groups))"

section \<open>Attribution of failures\<close>

definition gatewaySyncError ::
    "string \<Rightarrow> (string \<Rightarrow> gerr option) \<Rightarrow> 'sel infraGateways option \<Rightarrow> gerr option" where
  "gatewaySyncError gatewayKey failedPartitions infra =
     (if isBroken infra gatewayKey then Some (Sentinel (errCtl BrokenDataPlane))
      else failedPartitions (if isResolved infra gatewayKey then gatewayKey else sharedPartitionKey))"

definition inject_binding ::
    "(string \<Rightarrow> gerr option) \<Rightarrow> 'sel infraGateways option \<Rightarrow> routeBindingInfo \<Rightarrow> routeBindingInfo" where
  "inject_binding failedPartitions infra binding =
     (let errs = (\<lambda>gw. if gw \<in> rb_acceptedGateways binding then gatewaySyncError gw failedPartitions infra else None) in
      if \<exists>gw \<in> rb_acceptedGateways binding. gatewaySyncError gw failedPartitions infra \<noteq> None
      then binding \<lparr> rb_syncErrByGateway := errs \<rparr> else binding)"

definition injectPartitionSyncErrors ::
    "(string \<Rightarrow> routeBindingInfo option) \<Rightarrow> (string \<Rightarrow> gerr option) \<Rightarrow> 'sel infraGateways option
     \<Rightarrow> (string \<Rightarrow> routeBindingInfo option)" where
  "injectPartitionSyncErrors bindings failedPartitions infra =
     (\<lambda>key. map_option (inject_binding failedPartitions infra) (bindings key))"

section \<open>Lemmas on tunnels\<close>

abbreviation tunnel :: "ResolvedConfig \<Rightarrow> ('sel, 'h, 'g) routePartition \<Rightarrow> string" where
  "tunnel shared p \<equiv> rc_TunnelID (partition_config shared p)"

lemma tunnel_of_config: "tunnel_of (rc_TunnelID shared) p = tunnel shared p"
  by (simp add: tunnel_of_def partition_config_def split: option.splits)

lemma add_to_group_keys:
  "map fst (add_to_group shared gs p) =
     (if tunnel shared p \<in> set (map fst gs) then map fst gs else map fst gs @ [tunnel shared p])"
  by (induction shared gs p rule: add_to_group.induct) auto

lemma add_to_group_lookup:
  "map_of (add_to_group shared gs p) t =
     (if t = tunnel shared p
      then Some (case map_of gs t of
             None \<Rightarrow> \<lparr> tg_resolved = partition_config shared p, tg_partitions = [p] \<rparr>
           | Some g \<Rightarrow> g \<lparr> tg_partitions := tg_partitions g @ [p] \<rparr>)
      else map_of gs t)"
  by (induction shared gs p rule: add_to_group.induct) auto

text \<open>After the loop, a tunnel's group holds exactly its partitions, in order, under the configuration of the first.\<close>

lemma groups_by_tunnel:
  "distinct (map fst (foldl (add_to_group shared) [] ps))
   \<and> set (map fst (foldl (add_to_group shared) [] ps)) = tunnel shared ` set ps
   \<and> map_of (foldl (add_to_group shared) [] ps) t =
       (case filter (\<lambda>p. tunnel shared p = t) ps of [] \<Rightarrow> None
        | p # qs \<Rightarrow> Some \<lparr> tg_resolved = partition_config shared p, tg_partitions = p # qs \<rparr>)"
proof (induction ps arbitrary: t rule: rev_induct)
  case (snoc p ps)
  have keys: "distinct (map fst (foldl (add_to_group shared) [] ps))"
    "set (map fst (foldl (add_to_group shared) [] ps)) = tunnel shared ` set ps" using snoc.IH by blast+
  have "map_of (foldl (add_to_group shared) [] (ps @ [p])) t =
       (case filter (\<lambda>p. tunnel shared p = t) (ps @ [p]) of [] \<Rightarrow> None
        | p # qs \<Rightarrow> Some \<lparr> tg_resolved = partition_config shared p, tg_partitions = p # qs \<rparr>)"
    using snoc.IH [of t] by (auto simp: add_to_group_lookup split: list.splits)
  moreover have "distinct (map fst (foldl (add_to_group shared) [] (ps @ [p])))"
    using keys(1) by (simp only: foldl_append foldl_Cons foldl_Nil add_to_group_keys distinct_append split: if_split) auto
  moreover have "set (map fst (foldl (add_to_group shared) [] (ps @ [p]))) = tunnel shared ` set (ps @ [p])"
    using keys(2) by (simp only: foldl_append foldl_Cons foldl_Nil add_to_group_keys split: if_split) auto
  ultimately show ?case by blast
qed simp

lemma sort_tail_perm: "mset (case xs of [] \<Rightarrow> [] | x # ys \<Rightarrow> x # sort ys) = mset xs"
  by (cases xs) simp_all

lemma buildTunnelGroups_groups:
  assumes "grp \<in> set (buildTunnelGroups shared ps)"
  obtains t p qs where "filter (\<lambda>q. tunnel shared q = t) ps = p # qs"
    "grp = \<lparr> tg_resolved = partition_config shared p, tg_partitions = p # qs \<rparr>" "tunnel shared p = t"
proof -
  let ?by = "foldl (add_to_group shared) [] ps"
  from assms obtain t where t: "t \<in> set (map fst ?by)" and g: "grp = the (map_of ?by t)"
    using mset_eq_setD [OF sort_tail_perm [of "map fst ?by"]] by (auto simp: buildTunnelGroups_def Let_def)
  from t groups_by_tunnel [of shared ps t] obtain q where "q \<in> set ps" "tunnel shared q = t" by auto
  then have "filter (\<lambda>q. tunnel shared q = t) ps \<noteq> []" by (auto simp: filter_empty_conv)
  then obtain p qs where f: "filter (\<lambda>q. tunnel shared q = t) ps = p # qs" by (meson neq_Nil_conv)
  moreover from this g groups_by_tunnel [of shared ps t]
  have "grp = \<lparr> tg_resolved = partition_config shared p, tg_partitions = p # qs \<rparr>" by simp
  moreover have "p \<in> set (filter (\<lambda>q. tunnel shared q = t) ps)" by (simp only: f) simp
  then have "tunnel shared p = t" by simp
  ultimately show thesis by (rule that)
qed

lemma buildTunnelGroups_tunnels:
  "distinct (map (\<lambda>g. rc_TunnelID (tg_resolved g)) (buildTunnelGroups shared ps))
   \<and> (\<lambda>g. rc_TunnelID (tg_resolved g)) ` set (buildTunnelGroups shared ps) = tunnel shared ` set ps"
proof -
  let ?by = "foldl (add_to_group shared) [] ps"
  note grouped = groups_by_tunnel [of shared ps]
  have id: "rc_TunnelID (tg_resolved (the (map_of ?by t))) = t" if "t \<in> set (map fst ?by)" for t
  proof -
    from that grouped obtain q where "q \<in> set (filter (\<lambda>p. tunnel shared p = t) ps)" by auto
    then obtain p qs where f: "filter (\<lambda>q. tunnel shared q = t) ps = p # qs" by (cases "filter (\<lambda>q. tunnel shared q = t) ps") auto
    have "p \<in> set (filter (\<lambda>q. tunnel shared q = t) ps)" by (simp only: f) simp
    then have "tunnel shared p = t" by simp
    with f grouped show ?thesis by simp
  qed
  define order where "order = (case map fst ?by of [] \<Rightarrow> [] | x # ys \<Rightarrow> x # sort ys)"
  have order: "mset order = mset (map fst ?by)" unfolding order_def by (rule sort_tail_perm)
  then have "set order = set (map fst ?by)" by (rule mset_eq_setD)
  with id have "map (\<lambda>t. rc_TunnelID (tg_resolved (the (map_of ?by t)))) order = order"
    by (intro map_idI) simp
  then have "map (\<lambda>g. rc_TunnelID (tg_resolved g)) (buildTunnelGroups shared ps) = order"
    by (simp add: buildTunnelGroups_def Let_def order_def comp_def)
  moreover have "distinct order" using grouped order mset_eq_imp_distinct_iff by blast
  moreover have "set order = tunnel shared ` set ps" using grouped mset_eq_setD [OF order] by simp
  ultimately show ?thesis by (metis list.set_map)
qed


lemma union_routes_key_set: "route_key ` set (union_routes seen rs) = route_key ` set rs - seen"
  by (induction seen rs rule: union_routes.induct) auto

lemma union_routes_distinct: "distinct (map route_key (union_routes seen rs))"
proof (induction seen rs rule: union_routes.induct)
  case (2 seen r rest)
  have "route_key r \<notin> route_key ` set (union_routes (insert (route_key r) seen) rest)"
    by (simp add: union_routes_key_set)
  with 2 show ?case by simp
qed simp

lemma union_routes_subset: "set (union_routes seen rs) \<subseteq> set rs"
  by (induction seen rs rule: union_routes.induct) auto

lemma set_union_routes:
  assumes "inj_on route_key (set rs)"
  shows "set (union_routes {} rs) = set rs"
proof
  show "set (union_routes {} rs) \<subseteq> set rs" by (rule union_routes_subset)
  show "set rs \<subseteq> set (union_routes {} rs)"
  proof
    fix r assume r: "r \<in> set rs"
    then have "route_key r \<in> route_key ` set (union_routes {} rs)" by (simp add: union_routes_key_set)
    then obtain q where "q \<in> set (union_routes {} rs)" "route_key q = route_key r" by auto
    moreover from this union_routes_subset [of "{}" rs] have "q \<in> set rs" by blast
    ultimately show "r \<in> set (union_routes {} rs)" using assms r by (metis inj_onD)
  qed
qed



section \<open>Lemmas on partitions\<close>

lemma gateway_key_not_shared: "gateway_key g \<noteq> sharedPartitionKey"
proof -
  have "CHR ''/'' \<in> set (gateway_key g)" by (simp add: gateway_key_def object_key_def)
  moreover have "CHR ''/'' \<notin> set sharedPartitionKey" by (simp add: sharedPartitionKey_def)
  ultimately show ?thesis by metis
qed

definition wf_infra :: "'sel infraGateways \<Rightarrow> bool" where
  "wf_infra i \<longleftrightarrow> distinct (map fst (in_resolved i)) \<and> sharedPartitionKey \<notin> set (map fst (in_resolved i))"

lemma wf_add_infra_gateway: "wf_infra i \<Longrightarrow> wf_infra (add_infra_gateway classNames resolve i g)"
  using gateway_key_not_shared [of g]
  by (auto simp: wf_infra_def add_infra_gateway_def Let_def distinct_update dom_update split: sum.splits option.splits)

lemma wf_resolveInfraGateways:
  assumes "resolveInfraGateways decode sha st cl cn gws = Inr infra"
  shows "wf_infra infra"
proof -
  have "wf_infra (foldl (add_infra_gateway cs resolve) i items)" if "wf_infra i" for cs resolve i items
    using that by (induction items arbitrary: i) (simp_all add: wf_add_infra_gateway)
  moreover have "wf_infra \<lparr> in_resolved = [], in_broken = {}, in_transient = {} \<rparr>" by (simp add: wf_infra_def)
  ultimately show ?thesis using assms by (auto simp: resolveInfraGateways_def split: sum.splits)
qed

lemma append_http_keys:
  "distinct keys \<Longrightarrow> foldl (append_http r) m keys k =
     (if k \<in> set keys then map_option (\<lambda>p. p \<lparr> pt_HTTPRoutes := pt_HTTPRoutes p @ [r] \<rparr>) (m k) else m k)"
  by (induction keys arbitrary: m) (auto simp: append_http_def)

lemma append_grpc_keys:
  "distinct keys \<Longrightarrow> foldl (append_grpc r) m keys k =
     (if k \<in> set keys then map_option (\<lambda>p. p \<lparr> pt_GRPCRoutes := pt_GRPCRoutes p @ [r] \<rparr>) (m k) else m k)"
  by (induction keys arbitrary: m) (auto simp: append_grpc_def)

lemma partitionKeysFor_distinct: "distinct (partitionKeysFor gws infra)"
  by (simp add: partitionKeysFor_def)

lemma append_http_routes:
  "foldl (\<lambda>m r. foldl (append_http r) m (partitionKeysFor (f r) infra)) m routes k =
     map_option (\<lambda>p. p \<lparr> pt_HTTPRoutes := pt_HTTPRoutes p @ filter (\<lambda>r. k \<in> set (partitionKeysFor (f r) infra)) routes \<rparr>) (m k)"
proof (induction routes arbitrary: m)
  case (Cons r routes)
  show ?case
    by (simp only: foldl_Cons Cons.IH) (cases "m k"; simp add: append_http_keys [OF partitionKeysFor_distinct, where k = k])
qed (simp add: option.map_ident)

lemma append_grpc_routes:
  "foldl (\<lambda>m r. foldl (append_grpc r) m (partitionKeysFor (f r) infra)) m routes k =
     map_option (\<lambda>p. p \<lparr> pt_GRPCRoutes := pt_GRPCRoutes p @ filter (\<lambda>r. k \<in> set (partitionKeysFor (f r) infra)) routes \<rparr>) (m k)"
proof (induction routes arbitrary: m)
  case (Cons r routes)
  show ?case
    by (simp only: foldl_Cons Cons.IH) (cases "m k"; simp add: append_grpc_keys [OF partitionKeysFor_distinct, where k = k])
qed (simp add: option.map_ident)

lemma set_partitionKeysFor:
  "finite gws \<Longrightarrow> k \<in> set (partitionKeysFor gws infra) \<longleftrightarrow> (\<exists>g \<in> gws. gateway_partition infra g = Some k)"
  by (force simp: partitionKeysFor_def Option.these_def finite_image_iff image_iff)

lemma partitionRoutes_member:
  fixes p :: "('sel, 'h, 'g) routePartition"
  assumes "p \<in> set (partitionRoutes http grpc (Some infra))" and "wf_infra infra"
  shows "pt_Key p \<in> set (sharedPartitionKey # partition_keys (Some infra))"
    and "pt_HTTPRoutes p = filter (\<lambda>r. pt_Key p \<in> set (partitionKeysFor (accepted_gateways_of (rs_bindings http) r) (Some infra))) (rs_accepted http)"
    and "pt_GRPCRoutes p = filter (\<lambda>r. pt_Key p \<in> set (partitionKeysFor (accepted_gateways_of (rs_bindings grpc) r) (Some infra))) (rs_accepted grpc)"
    and "pt_Key p \<noteq> sharedPartitionKey \<Longrightarrow>
      \<exists>g pg. (pt_Key p, g, pg) \<in> set (in_resolved infra) \<and> pt_Gateway p = Some g \<and> pt_PerGateway p = Some pg"
proof -
  from assms(1) obtain k where k: "k \<in> set (sharedPartitionKey # partition_keys (Some infra))"
    and p: "p = the (map_option (\<lambda>p. p \<lparr> pt_GRPCRoutes := pt_GRPCRoutes p @ filter (\<lambda>r. k \<in> set (partitionKeysFor (accepted_gateways_of (rs_bindings grpc) r) (Some infra))) (rs_accepted grpc) \<rparr>)
      (map_option (\<lambda>p. p \<lparr> pt_HTTPRoutes := pt_HTTPRoutes p @ filter (\<lambda>r. k \<in> set (partitionKeysFor (accepted_gateways_of (rs_bindings http) r) (Some infra))) (rs_accepted http) \<rparr>)
        (initial_partitions (Some infra) k)))"
    unfolding partitionRoutes_def Let_def append_grpc_routes append_http_routes by auto
  have "\<exists>q :: ('sel, 'h, 'g) routePartition. initial_partitions (Some infra) k = Some q \<and> pt_Key q = k \<and> pt_HTTPRoutes q = [] \<and> pt_GRPCRoutes q = []
      \<and> (k \<noteq> sharedPartitionKey \<longrightarrow>
           (\<exists>g pg. (k, g, pg) \<in> set (in_resolved infra) \<and> pt_Gateway q = Some g \<and> pt_PerGateway q = Some pg))"
  proof (cases "k = sharedPartitionKey")
    case True
    then have "map_of (in_resolved infra) k = None" using assms(2) by (auto simp: wf_infra_def map_of_eq_None_iff)
    with True show ?thesis by (simp add: initial_partitions_def)
  next
    case False
    with k have "k \<in> fst ` set (in_resolved infra)" by (auto simp: partition_keys_def)
    then obtain g pg where "map_of (in_resolved infra) k = Some (g, pg)"
      by (metis map_of_eq_None_iff not_None_eq surj_pair)
    moreover from this have "(k, g, pg) \<in> set (in_resolved infra)" by (rule map_of_SomeD)
    ultimately show ?thesis by (simp add: initial_partitions_def)
  qed
  then show "pt_Key p \<in> set (sharedPartitionKey # partition_keys (Some infra))"
    and "pt_HTTPRoutes p = filter (\<lambda>r. pt_Key p \<in> set (partitionKeysFor (accepted_gateways_of (rs_bindings http) r) (Some infra))) (rs_accepted http)"
    and "pt_GRPCRoutes p = filter (\<lambda>r. pt_Key p \<in> set (partitionKeysFor (accepted_gateways_of (rs_bindings grpc) r) (Some infra))) (rs_accepted grpc)"
    and "pt_Key p \<noteq> sharedPartitionKey \<Longrightarrow>
      \<exists>g pg. (pt_Key p, g, pg) \<in> set (in_resolved infra) \<and> pt_Gateway p = Some g \<and> pt_PerGateway p = Some pg"
    using k p by auto
qed


lemma getRelevantRoutes_fold:
  "rs_accepted (foldl (add_route cl cn pol) res routes) =
     rs_accepted res @ filter (\<lambda>r. fst (snd (bindRouteParents cl cn pol r))) routes"
  "k \<notin> route_key ` set routes \<Longrightarrow> rs_bindings (foldl (add_route cl cn pol) res routes) k = rs_bindings res k"
  by (induction routes arbitrary: res) (auto simp: add_route_def Let_def split: prod.splits)

lemma getRelevantRoutes_bindings:
  assumes "distinct (map route_key routes)" and "r \<in> set routes"
  shows "rs_bindings (getRelevantRoutes cl cn pol routes) (route_key r) = Some (fst (bindRouteParents cl cn pol r))"
proof -
  from assms(2) obtain xs ys where rs: "routes = xs @ r # ys" by (auto dest: split_list)
  with assms(1) have "route_key r \<notin> route_key ` set ys" by auto
  then show ?thesis
    by (simp add: getRelevantRoutes_def rs getRelevantRoutes_fold(2)) (simp add: add_route_def Let_def split: prod.splits)
qed

lemma finite_attached_gateways: "finite (attached_gateways cl cn route refs)"
proof (rule finite_subset)
  show "attached_gateways cl cn route refs \<subseteq>
      (\<lambda>ref. gateway_key (parent_gateway (the (parent_of cl (rt_Namespace route) ref)))) ` set refs"
    by (force simp: attached_gateways_def attached_def)
qed simp

text \<open>The routes of a plane, as a condition on a route alone.\<close>

definition belongs_to ::
    "'sel Cluster \<Rightarrow> string \<Rightarrow> Policy option \<Rightarrow> 'sel infraGateways \<Rightarrow> string \<Rightarrow> 'r Route \<Rightarrow> bool" where
  "belongs_to cl cn pol infra key route \<longleftrightarrow>
     \<not> ownership_denies cl pol route
     \<and> (\<exists>ref \<in> set (rt_ParentRefs route). \<exists>p l. parent_resolves cl cn route ref \<and> attached cl cn route ref p l
          \<and> gateway_partition (Some infra) (gateway_key (parent_gateway p)) = Some key)"

lemma partition_routes_belong:
  assumes "distinct (map route_key routes)"
  shows "filter (\<lambda>r. key \<in> set (partitionKeysFor
             (accepted_gateways_of (rs_bindings (getRelevantRoutes cl cn pol routes)) r) (Some infra)))
           (rs_accepted (getRelevantRoutes cl cn pol routes))
         = filter (belongs_to cl cn pol infra key) routes"
proof -
  have acc: "rs_accepted (getRelevantRoutes cl cn pol routes) = filter (\<lambda>r. fst (snd (bindRouteParents cl cn pol r))) routes"
    by (simp add: getRelevantRoutes_def getRelevantRoutes_fold(1))
  have "fst (snd (bindRouteParents cl cn pol r))
      \<and> key \<in> set (partitionKeysFor (accepted_gateways_of (rs_bindings (getRelevantRoutes cl cn pol routes)) r) (Some infra))
      \<longleftrightarrow> belongs_to cl cn pol infra key r" if r: "r \<in> set routes" for r
  proof -
    obtain info a u where b: "bindRouteParents cl cn pol r = (info, a, u)" by (cases "bindRouteParents cl cn pol r")
    note eff = bindRouteParents_effect(1,2) [OF b]
    have gws: "accepted_gateways_of (rs_bindings (getRelevantRoutes cl cn pol routes)) r = rb_acceptedGateways info"
      unfolding accepted_gateways_of_def using getRelevantRoutes_bindings [OF assms r, of cl cn pol] b by simp
    have "finite (rb_acceptedGateways info)" unfolding eff(1) by (simp add: finite_attached_gateways)
    from set_partitionKeysFor [OF this, of key "Some infra"] show ?thesis
      unfolding gws b using eff by (auto simp: belongs_to_def attached_gateways_def)
  qed
  then show ?thesis unfolding acc filter_filter by (intro filter_cong) auto
qed

lemma set_alist_update: "e \<in> set (AList.update k v xs) \<Longrightarrow> e \<in> set xs \<or> e = (k, v)"
  by (induction xs) (auto split: if_splits)

text \<open>What the resolution promises: a plane is the resolved configuration of a Gateway of a managed class that asks for
  it, and no such Gateway is left without a verdict.\<close>

lemma infra_verdicts:
  assumes "wants = (\<lambda>g. gw_GatewayClassName g \<in> set classNames \<and> HasInfrastructureParametersRef g)"
  shows "(\<forall>(key, g, pg) \<in> set (in_resolved (foldl (add_infra_gateway classNames resolve) i items)).
            (key, g, pg) \<in> set (in_resolved i)
            \<or> g \<in> set items \<and> wants g \<and> key = gateway_key g \<and> resolve g = Inr (Some pg))
       \<and> (\<forall>g \<in> set items. wants g \<longrightarrow>
            isResolved (Some (foldl (add_infra_gateway classNames resolve) i items)) (gateway_key g)
            \<or> isBroken (Some (foldl (add_infra_gateway classNames resolve) i items)) (gateway_key g))"
proof (induction items rule: rev_induct)
  case (snoc g items)
  let ?i = "foldl (add_infra_gateway classNames resolve) i items"
  have keep: "isResolved (Some ?i) key \<Longrightarrow> isResolved (Some (add_infra_gateway classNames resolve ?i g)) key"
    "isBroken (Some ?i) key \<Longrightarrow> isBroken (Some (add_infra_gateway classNames resolve ?i g)) key" for key
    by (auto simp: isResolved_def isBroken_def add_infra_gateway_def Let_def update_conv split: sum.splits option.splits)
  have new: "wants g \<Longrightarrow> isResolved (Some (add_infra_gateway classNames resolve ?i g)) (gateway_key g)
      \<or> isBroken (Some (add_infra_gateway classNames resolve ?i g)) (gateway_key g)"
    by (auto simp: assms isResolved_def isBroken_def add_infra_gateway_def Let_def update_conv split: sum.splits option.splits)
  have in_res: "e \<in> set (in_resolved ?i) \<or> wants g \<and> (\<exists>pg. e = (gateway_key g, g, pg) \<and> resolve g = Inr (Some pg))"
    if "e \<in> set (in_resolved (add_infra_gateway classNames resolve ?i g))" for e
    using that set_alist_update [of _ "gateway_key g" _ "in_resolved ?i"]
    by (auto simp: assms add_infra_gateway_def Let_def split: if_splits sum.splits option.splits)
  show ?case
  proof
    show "\<forall>(key, h, pg) \<in> set (in_resolved (foldl (add_infra_gateway classNames resolve) i (items @ [g]))).
        (key, h, pg) \<in> set (in_resolved i)
        \<or> h \<in> set (items @ [g]) \<and> wants h \<and> key = gateway_key h \<and> resolve h = Inr (Some pg)"
      using snoc.IH in_res by fastforce
    show "\<forall>h \<in> set (items @ [g]). wants h \<longrightarrow>
        isResolved (Some (foldl (add_infra_gateway classNames resolve) i (items @ [g]))) (gateway_key h)
        \<or> isBroken (Some (foldl (add_infra_gateway classNames resolve) i (items @ [g]))) (gateway_key h)"
      using snoc.IH keep new by auto
  qed
qed simp

text \<open>The collection of one pass: the routes of both kinds are bound, then conflicts between the kinds are resolved.\<close>

definition collect_routes ::
    "'sel Cluster \<Rightarrow> string \<Rightarrow> Policy option \<Rightarrow> 'h Route list \<Rightarrow> 'g Route list \<Rightarrow> 'h routeResult \<times> 'g routeResult" where
  "collect_routes cl controllerName policy httpRoutes grpcRoutes =
     resolveCrossTypeConflicts (getRelevantRoutes cl controllerName policy httpRoutes)
       (getRelevantRoutes cl controllerName policy grpcRoutes)"

lemma kept_routes_belong:
  fixes routes :: "'r Route list"
  assumes "distinct (map route_key routes)"
    and res_def: "res = rejectCrossTypeLosers losers (getRelevantRoutes cl cn pol routes)"
  shows "filter (\<lambda>r. key \<in> set (partitionKeysFor (accepted_gateways_of (rs_bindings res) r) (Some infra))) (rs_accepted res)
         = filter (\<lambda>r. r \<in> set (rs_accepted res) \<and> belongs_to cl cn pol infra key r) routes"
proof -
  let ?res = "getRelevantRoutes cl cn pol routes"
  have same: "accepted_gateways_of (rs_bindings res) r = accepted_gateways_of (rs_bindings ?res) r" for r :: "'r Route"
    using cross_type_gateways [of losers ?res "route_key r"]
    by (auto simp: accepted_gateways_of_def res_def split: option.splits)
  have "filter (\<lambda>r. key \<in> set (partitionKeysFor (accepted_gateways_of (rs_bindings res) r) (Some infra))) (rs_accepted res)
      = filter (\<lambda>r. route_key r \<notin> losers) (filter (belongs_to cl cn pol infra key) routes)"
    unfolding same unfolding res_def rejectCrossTypeLosers_eq(1) partition_routes_belong [OF assms(1), symmetric]
    by (simp add: conj_commute)
  also have "\<dots> = filter (\<lambda>r. r \<in> set (rs_accepted res) \<and> belongs_to cl cn pol infra key r) routes"
    unfolding filter_filter
  proof (rule filter_cong [OF refl])
    fix r assume r: "r \<in> set routes"
    have "r \<in> set (rs_accepted ?res)" if "belongs_to cl cn pol infra key r"
      using arg_cong [OF partition_routes_belong [OF assms(1), of key cl cn pol infra], of set] r that by auto
    then show "belongs_to cl cn pol infra key r \<and> route_key r \<notin> losers \<longleftrightarrow>
        r \<in> set (rs_accepted res) \<and> belongs_to cl cn pol infra key r"
      by (auto simp: res_def rejectCrossTypeLosers_eq(1))
  qed
  finally show ?thesis .
qed

text \<open>C25: the planes are isolated. Whatever routes exist, the routes of a partition are exactly the surviving routes
  attached to a Gateway that it serves. A partition other than the shared one is the resolved plane of a Gateway of a
  managed class that asks for its own, and serves that Gateway's key alone; the shared plane serves no Gateway that asks
  for its own plane, also when that plane does not resolve.\<close>

theorem partitions_are_isolated:
  fixes gateways :: "'sel Gateway list"
  assumes "resolveInfraGateways decode sha st cl cn (Inr gateways) = Inr infra"
    and "managedClassNames cl cn = Inr classNames"
    and "distinct (map route_key httpRoutes)" and "distinct (map route_key grpcRoutes)"
    and "collect_routes cl cn pol httpRoutes grpcRoutes = (httpResult, grpcResult)"
    and "p \<in> set (partitionRoutes httpResult grpcResult (Some infra))"
  shows "pt_HTTPRoutes p = filter (\<lambda>r. r \<in> set (rs_accepted httpResult) \<and> belongs_to cl cn pol infra (pt_Key p) r) httpRoutes
    \<and> pt_GRPCRoutes p = filter (\<lambda>r. r \<in> set (rs_accepted grpcResult) \<and> belongs_to cl cn pol infra (pt_Key p) r) grpcRoutes
    \<and> (if pt_Key p = sharedPartitionKey
       then \<forall>g \<in> set gateways. gw_GatewayClassName g \<in> set classNames \<and> HasInfrastructureParametersRef g \<longrightarrow>
              gateway_partition (Some infra) (gateway_key g) \<noteq> Some (pt_Key p)
       else (\<exists>g \<in> set gateways. gw_GatewayClassName g \<in> set classNames \<and> HasInfrastructureParametersRef g
              \<and> pt_Gateway p = Some g \<and> pt_Key p = gateway_key g
              \<and> ResolveForGateway decode sha st g = Inr (pt_PerGateway p) \<and> pt_PerGateway p \<noteq> None)
          \<and> (\<forall>key. gateway_partition (Some infra) key = Some (pt_Key p) \<longrightarrow> key = pt_Key p))"
proof -
  define wants :: "'sel Gateway \<Rightarrow> bool" where "wants = (\<lambda>g. gw_GatewayClassName g \<in> set classNames \<and> HasInfrastructureParametersRef g)"
  have infra: "infra = foldl (add_infra_gateway classNames (ResolveForGateway decode sha st))
      \<lparr> in_resolved = [], in_broken = {}, in_transient = {} \<rparr> gateways"
    using assms(1,2) by (simp add: resolveInfraGateways_def)
  note verdicts = infra_verdicts [OF wants_def, of "ResolveForGateway decode sha st"
      "\<lparr> in_resolved = [], in_broken = {}, in_transient = {} \<rparr>" gateways, folded infra, simplified]
  note member = partitionRoutes_member [OF assms(6) wf_resolveInfraGateways [OF assms(1)]]
  obtain hl gl where results: "httpResult = rejectCrossTypeLosers hl (getRelevantRoutes cl cn pol httpRoutes)"
    "grpcResult = rejectCrossTypeLosers gl (getRelevantRoutes cl cn pol grpcRoutes)"
    using assms(5) by (auto simp: collect_routes_def resolveCrossTypeConflicts_def Let_def)
  have "gateway_partition (Some infra) (gateway_key g) \<noteq> Some sharedPartitionKey" if "g \<in> set gateways" "wants g" for g
    using verdicts that gateway_key_not_shared [of g] by (auto simp: gateway_partition_def)
  moreover have "\<exists>g \<in> set gateways. wants g \<and> pt_Gateway p = Some g \<and> pt_Key p = gateway_key g
      \<and> ResolveForGateway decode sha st g = Inr (pt_PerGateway p) \<and> pt_PerGateway p \<noteq> None"
    if "pt_Key p \<noteq> sharedPartitionKey" using member(4) [OF that] verdicts by fastforce
  moreover have "key = pt_Key p" if "gateway_partition (Some infra) key = Some (pt_Key p)" "pt_Key p \<noteq> sharedPartitionKey" for key
    using that by (simp add: gateway_partition_def split: if_splits)
  moreover have "pt_HTTPRoutes p = filter (\<lambda>r. r \<in> set (rs_accepted httpResult) \<and> belongs_to cl cn pol infra (pt_Key p) r) httpRoutes"
    unfolding member(2) by (rule kept_routes_belong [OF assms(3) results(1)])
  moreover have "pt_GRPCRoutes p = filter (\<lambda>r. r \<in> set (rs_accepted grpcResult) \<and> belongs_to cl cn pol infra (pt_Key p) r) grpcRoutes"
    unfolding member(3) by (rule kept_routes_belong [OF assms(4) results(2)])
  ultimately show ?thesis by (simp add: wants_def)
qed


section \<open>Witnesses\<close>

text \<open>Two planes on one tunnel and a third on its own: the first two serve the union.\<close>

definition plane :: "string \<Rightarrow> string \<Rightarrow> unit Route list \<Rightarrow> (unit, unit, unit) routePartition" where
  "plane key tunnelID routes =
     \<lparr> pt_Key = key, pt_Gateway = None,
       pt_PerGateway = (if tunnelID = '''' then None else Some \<lparr>
         pg_Resolved = \<lparr> rc_APIToken = ''A'', rc_AccountID = ''acc'', rc_TunnelID = tunnelID, rc_ConfigName = '''' \<rparr>,
         pg_TunnelToken = ''T'', pg_AuthToken = ''P'', pg_GatewayConfig = sample_gateway_config \<rparr>),
       pt_HTTPRoutes = routes, pt_GRPCRoutes = [] \<rparr>"


definition class_config :: ResolvedConfig where
  "class_config = \<lparr> rc_APIToken = ''C'', rc_AccountID = ''acc'', rc_TunnelID = ''t'', rc_ConfigName = ''cls'' \<rparr>"

abbreviation old_web :: "unit Route" where "old_web \<equiv> bound_route ''HTTPRoute'' 1 ''a.org''"

abbreviation new_web :: "unit Route" where "new_web \<equiv> old_web \<lparr> rt_Name := ''new'' \<rparr>"

definition sample_planes :: "(unit, unit, unit) routePartition list" where
  "sample_planes =
     [plane sharedPartitionKey '''' [old_web], plane ''infra/gw'' ''t'' [new_web, old_web], plane ''infra/own'' ''u'' [new_web]]"

lemma sample_groups:
  "buildTunnelGroups class_config sample_planes =
     [\<lparr> tg_resolved = class_config, tg_partitions = [sample_planes ! 0, sample_planes ! 1] \<rparr>,
      \<lparr> tg_resolved = pg_Resolved (the (pt_PerGateway (sample_planes ! 2))), tg_partitions = [sample_planes ! 2] \<rparr>]"
  by (simp add: buildTunnelGroups_def sample_planes_def plane_def partition_config_def class_config_def Let_def)


text \<open>A Gateway that asks for its own plane is not served by the shared one.\<close>

definition opted_in_cluster :: "unit Cluster" where
  "opted_in_cluster =
     \<lparr> k_env = sample_cluster, k_gateway = (\<lambda>_ _. Some sample_opted_in), k_listenerSet = (\<lambda>_ _. None),
       k_listListenerSets = Inr [], k_listClasses = Inr [(''cf'', ''ctrl'')] \<rparr>"

theorem partitions_are_isolated_witness:
  "\<exists>infra. resolveInfraGateways sample_decode (\<lambda>_. ''0'') sample_store opted_in_cluster ''ctrl'' (Inr [sample_opted_in]) = Inr infra
     \<and> gateway_partition (Some infra) (gateway_key sample_opted_in) \<noteq> Some sharedPartitionKey"
proof -
  let ?collected = "collect_routes opted_in_cluster ''ctrl'' None [old_web, new_web] ([] :: unit Route list)"
  have cls: "managedClassNames opted_in_cluster ''ctrl'' = Inr [''cf'']"
    by (simp add: managedClassNames_def opted_in_cluster_def)
  then obtain infra where infra: "resolveInfraGateways sample_decode (\<lambda>_. ''0'') sample_store opted_in_cluster ''ctrl'' (Inr [sample_opted_in]) = Inr infra"
    by (simp add: resolveInfraGateways_def)
  obtain h g where hg: "?collected = (h, g)" by (cases ?collected)
  have keys: "distinct (map route_key [old_web, new_web])" by (simp add: route_key_def object_key_def bound_route_def)
  let ?p = "hd (partitionRoutes h g (Some infra))"
  have p: "?p \<in> set (partitionRoutes h g (Some infra))" by (simp add: partitionRoutes_def Let_def)
  have "pt_Key ?p = sharedPartitionKey"
    using wf_resolveInfraGateways [OF infra]
    by (auto simp: partitionRoutes_def Let_def append_grpc_routes append_http_routes initial_partitions_def wf_infra_def
        map_of_eq_None_iff split: option.splits dest: map_of_SomeD)
  moreover have "gw_GatewayClassName sample_opted_in \<in> set [''cf'']" "HasInfrastructureParametersRef sample_opted_in"
    by (simp_all add: sample_opted_in_def sample_gateway_def HasInfrastructureParametersRef_def)
  ultimately show ?thesis
    using partitions_are_isolated [OF infra cls keys _ hg p] infra by simp
qed

end
