(* ===== verification/RouteSpec.thy ===== *)
theory RouteSpec
  imports RouteAttach
begin

text \<open>
  The rules of HTTPRoutes and GRPCRoutes as the Gateway API declares them, restricted to the fields the program reads
  (the Go types come from a package the program imports). Enumerations stay strings, an unset pointer is None.
\<close>

section \<open>HTTPRoute\<close>

record HTTPPathMatch =
  hpm_Type :: "string option"
  hpm_Value :: "string option"

record HTTPHeaderMatch =
  hhm_Type :: "string option"
  hhm_Name :: string
  hhm_Value :: string

record HTTPQueryParamMatch =
  hqm_Type :: "string option"
  hqm_Name :: string
  hqm_Value :: string

record HTTPRouteMatch =
  hrm_Path :: "HTTPPathMatch option"
  hrm_Headers :: "HTTPHeaderMatch list"
  hrm_QueryParams :: "HTTPQueryParamMatch list"
  hrm_Method :: "string option"

record HTTPHeader =
  hh_Name :: string
  hh_Value :: string

record HTTPHeaderFilter =
  hhf_Set :: "HTTPHeader list"
  hhf_Add :: "HTTPHeader list"
  hhf_Remove :: "string list"

record HTTPPathModifier =
  hpo_Type :: string
  hpo_ReplaceFullPath :: "string option"
  hpo_ReplacePrefixMatch :: "string option"

record HTTPRequestRedirectFilter =
  hrr_Scheme :: "string option"
  hrr_Hostname :: "string option"
  hrr_Port :: "int option"
  hrr_Path :: "HTTPPathModifier option"
  hrr_StatusCode :: "int option"

record HTTPURLRewriteFilter =
  hur_Hostname :: "string option"
  hur_Path :: "HTTPPathModifier option"

record BackendObjectReference =
  bo_Group :: "string option"
  bo_Kind :: "string option"
  bo_Name :: string
  bo_Namespace :: "string option"
  bo_Port :: "int option"

record Fraction =
  fr_Numerator :: int
  fr_Denominator :: "int option"

record HTTPRequestMirrorFilter =
  hmf_BackendRef :: BackendObjectReference
  hmf_Percent :: "int option"
  hmf_Fraction :: "Fraction option"

record HTTPCORSFilter =
  hcf_AllowOrigins :: "string list"
  hcf_AllowCredentials :: "bool option"
  hcf_AllowMethods :: "string list"
  hcf_AllowHeaders :: "string list"
  hcf_ExposeHeaders :: "string list"
  hcf_MaxAge :: int

record HTTPRouteFilter =
  hf_Type :: string
  hf_RequestHeaderModifier :: "HTTPHeaderFilter option"
  hf_ResponseHeaderModifier :: "HTTPHeaderFilter option"
  hf_RequestMirror :: "HTTPRequestMirrorFilter option"
  hf_RequestRedirect :: "HTTPRequestRedirectFilter option"
  hf_URLRewrite :: "HTTPURLRewriteFilter option"
  hf_CORS :: "HTTPCORSFilter option"

text \<open>The \<^verbatim>\<open>BackendRef\<close> of the API; the proxy's configuration has a type of the same name.\<close>

record APIBackendRef =
  ab_Ref :: BackendObjectReference
  ab_Weight :: "int option"

record HTTPBackendRef =
  hb_BackendRef :: APIBackendRef
  hb_Filters :: "HTTPRouteFilter list"

record HTTPRouteTimeouts =
  hrt_Request :: "string option"
  hrt_BackendRequest :: "string option"

record HTTPRouteRule =
  hrl_Matches :: "HTTPRouteMatch list"
  hrl_Filters :: "HTTPRouteFilter list"
  hrl_BackendRefs :: "HTTPBackendRef list"
  hrl_Timeouts :: "HTTPRouteTimeouts option"

type_synonym HTTPRoute = "HTTPRouteRule list Route"

section \<open>GRPCRoute\<close>

record GRPCMethodMatch =
  gmm_Type :: "string option"
  gmm_Service :: "string option"
  gmm_Method :: "string option"

record GRPCHeaderMatch =
  ghm_Type :: "string option"
  ghm_Name :: string
  ghm_Value :: string

record GRPCRouteMatch =
  grm_Method :: "GRPCMethodMatch option"
  grm_Headers :: "GRPCHeaderMatch list"

record GRPCRouteFilter =
  gfl_Type :: string
  gfl_RequestHeaderModifier :: "HTTPHeaderFilter option"
  gfl_ResponseHeaderModifier :: "HTTPHeaderFilter option"

record GRPCBackendRef =
  gb_BackendRef :: APIBackendRef
  gb_Filters :: "GRPCRouteFilter list"

record GRPCRouteRule =
  grl_Matches :: "GRPCRouteMatch list"
  grl_Filters :: "GRPCRouteFilter list"
  grl_BackendRefs :: "GRPCBackendRef list"

type_synonym GRPCRoute = "GRPCRouteRule list Route"

end
