(* ===== verification/Converter.thy ===== *)
theory Converter
  imports RouteSpec ProxyConfig GoUrl
begin

text \<open>
  Translation of HTTPRoutes into the proxy's configuration (\<^verbatim>\<open>src/internal/proxy/converter.go\<close>,
  \<^verbatim>\<open>backendref_common.go\<close>, \<^verbatim>\<open>external_backend.go\<close> and the sink of \<^verbatim>\<open>diagnostics.go\<close>). The functions the
  converter is handed (grant validator, protocol, TLS and client-certificate resolvers) are arguments, None where they
  may be nil; \<^verbatim>\<open>time.ParseDuration\<close> is an argument too, and the version is the value the counter returned. Log output
  and message texts are left out.
\<close>

section \<open>Diagnostics\<close>

record diagSink =
  sink_namespace :: string
  sink_name :: string
  sink_rule :: nat
  sink_items :: "RouteDiagnostic list"

definition diagSink_route :: "string \<Rightarrow> string \<Rightarrow> diagSink \<Rightarrow> diagSink" where
  "diagSink_route namespace name s = s \<lparr> sink_namespace := namespace, sink_name := name \<rparr>"

definition diagSink_at :: "nat \<Rightarrow> diagSink \<Rightarrow> diagSink" where
  "diagSink_at rule s = s \<lparr> sink_rule := rule \<rparr>"

definition diagSink_add :: "DiagnosticTarget \<Rightarrow> string \<Rightarrow> bool \<Rightarrow> diagSink \<Rightarrow> diagSink" where
  "diagSink_add target reason wholeRule s =
     s \<lparr> sink_items := sink_items s @ [\<lparr> dg_Namespace = sink_namespace s, dg_Name = sink_name s, dg_RuleIndex = sink_rule s,
           dg_Target = target, dg_Reason = reason, dg_WholeRule = wholeRule, dg_EventType = '''' \<rparr>] \<rparr>"

definition diagSink_event :: "string \<Rightarrow> diagSink \<Rightarrow> diagSink" where
  "diagSink_event eventType s =
     s \<lparr> sink_items := sink_items s @ [\<lparr> dg_Namespace = sink_namespace s, dg_Name = sink_name s, dg_RuleIndex = sink_rule s,
           dg_Target = DiagnosticEvent, dg_Reason = '''', dg_WholeRule = False, dg_EventType = eventType \<rparr>] \<rparr>"

section \<open>Matches\<close>

definition convertPathMatch :: "HTTPPathMatch \<Rightarrow> PathMatch" where
  "convertPathMatch pathMatch =
     \<lparr> pm_Type = (case hpm_Type pathMatch of
          None \<Rightarrow> PathMatchPathPrefix
        | Some t \<Rightarrow> if t = ''Exact'' then PathMatchExact
                    else if t = ''PathPrefix'' then PathMatchPathPrefix
                    else if t = ''RegularExpression'' then PathMatchRegularExpression
                    else PathMatchPathPrefix),
       pm_Value = (case hpm_Value pathMatch of None \<Rightarrow> '''' | Some v \<Rightarrow> v) \<rparr>"

definition convertHeaderMatch :: "HTTPHeaderMatch \<Rightarrow> HeaderMatch" where
  "convertHeaderMatch header =
     \<lparr> hm_Type = (if hhm_Type header = Some ''RegularExpression'' then HeaderMatchRegularExpression else HeaderMatchExact),
       hm_Name = hhm_Name header, hm_Value = hhm_Value header \<rparr>"

definition convertQueryMatch :: "HTTPQueryParamMatch \<Rightarrow> QueryParamMatch" where
  "convertQueryMatch query =
     \<lparr> qm_Type = (if hqm_Type query = Some ''RegularExpression'' then QueryParamMatchRegularExpression else QueryParamMatchExact),
       qm_Name = hqm_Name query, qm_Value = hqm_Value query \<rparr>"

definition convertMatch :: "HTTPRouteMatch \<Rightarrow> RouteMatch" where
  "convertMatch match =
     \<lparr> rm_Path = map_option convertPathMatch (hrm_Path match),
       rm_Headers = map convertHeaderMatch (hrm_Headers match),
       rm_QueryParams = map convertQueryMatch (hrm_QueryParams match),
       rm_Method = (case hrm_Method match of None \<Rightarrow> '''' | Some m \<Rightarrow> m) \<rparr>"

section \<open>Filters\<close>

definition empty_filter :: "RouteFilterType \<Rightarrow> RouteFilter" where
  "empty_filter t =
     \<lparr> rf_Type = t, rf_RequestHeaderModifier = None, rf_ResponseHeaderModifier = None, rf_RequestRedirect = None,
       rf_URLRewrite = None, rf_RequestMirror = None, rf_CORS = None \<rparr>"

definition convertHeaderModifier :: "HTTPHeaderFilter \<Rightarrow> HeaderModifier" where
  "convertHeaderModifier modifier =
     \<lparr> mod_Set = map (\<lambda>h. \<lparr> hv_Name = hh_Name h, hv_Value = hh_Value h \<rparr>) (hhf_Set modifier),
       mod_Add = map (\<lambda>h. \<lparr> hv_Name = hh_Name h, hv_Value = hh_Value h \<rparr>) (hhf_Add modifier),
       mod_Remove = hhf_Remove modifier \<rparr>"

definition convertRequestHeaderFilter :: "HTTPHeaderFilter option \<Rightarrow> RouteFilter option" where
  "convertRequestHeaderFilter modifier =
     map_option (\<lambda>m. empty_filter FilterRequestHeaderModifier \<lparr> rf_RequestHeaderModifier := Some (convertHeaderModifier m) \<rparr>)
       modifier"

definition convertResponseHeaderFilter :: "HTTPHeaderFilter option \<Rightarrow> RouteFilter option" where
  "convertResponseHeaderFilter modifier =
     map_option (\<lambda>m. empty_filter FilterResponseHeaderModifier \<lparr> rf_ResponseHeaderModifier := Some (convertHeaderModifier m) \<rparr>)
       modifier"

definition convertRedirectPath :: "HTTPPathModifier \<Rightarrow> RedirectPath option" where
  "convertRedirectPath pathModifier =
     (if hpo_Type pathModifier = ''ReplaceFullPath''
      then map_option (\<lambda>v. \<lparr> rp_Type = RedirectPathFullReplace, rp_Value = v \<rparr>) (hpo_ReplaceFullPath pathModifier)
      else if hpo_Type pathModifier = ''ReplacePrefixMatch''
      then map_option (\<lambda>v. \<lparr> rp_Type = RedirectPathPrefixReplace, rp_Value = v \<rparr>) (hpo_ReplacePrefixMatch pathModifier)
      else None)"

definition convertRedirectConfig :: "HTTPRequestRedirectFilter \<Rightarrow> RedirectConfig" where
  "convertRedirectConfig redirect =
     \<lparr> rd_Scheme = hrr_Scheme redirect, rd_Hostname = hrr_Hostname redirect, rd_Port = hrr_Port redirect,
       rd_Path = Option.bind (hrr_Path redirect) convertRedirectPath, rd_StatusCode = hrr_StatusCode redirect \<rparr>"

definition convertRedirectFilter :: "HTTPRequestRedirectFilter option \<Rightarrow> RouteFilter option" where
  "convertRedirectFilter redirect =
     map_option (\<lambda>r. empty_filter FilterRequestRedirect \<lparr> rf_RequestRedirect := Some (convertRedirectConfig r) \<rparr>) redirect"

definition convertURLRewritePath :: "HTTPPathModifier \<Rightarrow> URLRewritePath option" where
  "convertURLRewritePath pathModifier =
     (if hpo_Type pathModifier = ''ReplaceFullPath''
      then Some \<lparr> up_Type = URLRewriteFullPath, up_ReplaceFullPath = hpo_ReplaceFullPath pathModifier,
                  up_ReplacePrefixMatch = None \<rparr>
      else if hpo_Type pathModifier = ''ReplacePrefixMatch''
      then Some \<lparr> up_Type = URLRewritePrefixMatch, up_ReplaceFullPath = None,
                  up_ReplacePrefixMatch = hpo_ReplacePrefixMatch pathModifier \<rparr>
      else None)"

definition convertURLRewrite :: "HTTPURLRewriteFilter \<Rightarrow> URLRewriteConfig" where
  "convertURLRewrite rewrite =
     \<lparr> rw_Hostname = hur_Hostname rewrite, rw_Path = Option.bind (hur_Path rewrite) convertURLRewritePath \<rparr>"

definition convertURLRewriteFilter :: "HTTPURLRewriteFilter option \<Rightarrow> RouteFilter option" where
  "convertURLRewriteFilter rewrite =
     map_option (\<lambda>r. empty_filter FilterURLRewrite \<lparr> rf_URLRewrite := Some (convertURLRewrite r) \<rparr>) rewrite"

definition convertCORSFilter :: "HTTPCORSFilter option \<Rightarrow> RouteFilter option" where
  "convertCORSFilter cors =
     map_option (\<lambda>c. empty_filter FilterCORS \<lparr> rf_CORS := Some
       \<lparr> cors_AllowOrigins = hcf_AllowOrigins c,
         cors_AllowCredentials = (case hcf_AllowCredentials c of None \<Rightarrow> False | Some b \<Rightarrow> b),
         cors_AllowMethods = hcf_AllowMethods c, cors_AllowHeaders = hcf_AllowHeaders c,
         cors_ExposeHeaders = hcf_ExposeHeaders c, cors_MaxAge = hcf_MaxAge c \<rparr> \<rparr>) cors"

definition clampPercent :: "int \<Rightarrow> int" where
  "clampPercent value = (if value < 0 then 0 else if value > 100 then 100 else value)"

text \<open>The quotient of \<^verbatim>\<open>int64\<close> values truncates towards zero.\<close>

definition int64_quot :: "int \<Rightarrow> int \<Rightarrow> int" where
  "int64_quot a b = (if a < 0 then - ((- a) div b) else a div b)"

definition mirrorPercent :: "HTTPRequestMirrorFilter \<Rightarrow> int option" where
  "mirrorPercent mirror =
     (case hmf_Percent mirror of
        Some p \<Rightarrow> Some (clampPercent p)
      | None \<Rightarrow>
          (case hmf_Fraction mirror of
             None \<Rightarrow> None
           | Some f \<Rightarrow>
               (let denominator = (case fr_Denominator f of None \<Rightarrow> 100 | Some d \<Rightarrow> d) in
                if denominator \<le> 0 then None
                else Some (clampPercent (int64_quot (fr_Numerator f * 100) denominator)))))"

section \<open>Backend references\<close>

definition defaultServicePort :: int where "defaultServicePort = 80"

definition validatePort :: "int \<Rightarrow> bool" where
  "validatePort port \<longleftrightarrow> 1 \<le> port \<and> port \<le> 65535"

definition buildServiceURL :: "string \<Rightarrow> string \<Rightarrow> int \<Rightarrow> string \<Rightarrow> string" where
  "buildServiceURL name namespace port clusterDomain =
     (let clusterDomain = trim_suffix clusterDomain ''.'';
          scheme = (if port = 443 then ''https'' else ''http'')
      in scheme @ ''://'' @ name @ ''.'' @ namespace @ ''.svc.'' @ clusterDomain @ '':'' @ itoa port)"

definition IsServiceBackendRef :: "BackendObjectReference \<Rightarrow> bool" where
  "IsServiceBackendRef ref =
     (if bo_Group ref \<noteq> None \<and> bo_Group ref \<noteq> Some '''' \<and> bo_Group ref \<noteq> Some ''core'' then False
      else if bo_Kind ref \<noteq> None \<and> bo_Kind ref \<noteq> Some ''Service'' then False
      else True)"

definition IsServiceImportBackendRef :: "BackendObjectReference \<Rightarrow> bool" where
  "IsServiceImportBackendRef ref \<longleftrightarrow>
     bo_Group ref = Some ''multicluster.x-k8s.io'' \<and> bo_Kind ref = Some ''ServiceImport''"

definition IsExternalBackendRef :: "BackendObjectReference \<Rightarrow> bool" where
  "IsExternalBackendRef ref \<longleftrightarrow> bo_Group ref = Some ''cf.k8s.lex.la'' \<and> bo_Kind ref = Some ''ExternalBackend''"

definition IsSupportedBackendRef :: "BackendObjectReference \<Rightarrow> bool" where
  "IsSupportedBackendRef ref \<longleftrightarrow> IsServiceBackendRef ref \<or> IsServiceImportBackendRef ref \<or> IsExternalBackendRef ref"

definition isMirrorableBackendRef :: "BackendObjectReference \<Rightarrow> bool" where
  "isMirrorableBackendRef ref \<longleftrightarrow> IsServiceBackendRef ref \<or> IsServiceImportBackendRef ref"

definition backendDomain :: "BackendObjectReference \<Rightarrow> string \<Rightarrow> string" where
  "backendDomain ref clusterDomain = (if IsServiceImportBackendRef ref then ''clusterset.local'' else clusterDomain)"

definition ExternalBackendSentinelURL :: "string \<Rightarrow> string \<Rightarrow> string" where
  "ExternalBackendSentinelURL namespace name =
     ''externalbackend://'' @ name @ ''?ns='' @ url_escape encodeQueryComponent namespace"

type_synonym BackendRefValidator = "(string \<Rightarrow> BackendObjectReference \<Rightarrow> bool) option"

type_synonym BackendProtocolResolver = "(string \<Rightarrow> string \<Rightarrow> int \<Rightarrow> string) option"

type_synonym BackendTLSResolver = "(string \<Rightarrow> string \<Rightarrow> int \<Rightarrow> BackendTLSConfig option) option"

record ClientCertConfig =
  cc_CertPEM :: string
  cc_KeyPEM :: string

type_synonym GatewayClientCertResolver = "(string \<Rightarrow> string \<Rightarrow> ClientCertConfig option) option"

text \<open>What a conversion is handed.\<close>

record ConverterEnv =
  ce_clusterDomain :: string
  ce_validator :: BackendRefValidator
  ce_protocolResolver :: BackendProtocolResolver
  ce_tlsResolver :: BackendTLSResolver
  ce_certResolver :: GatewayClientCertResolver
  ce_parseDuration :: "string \<Rightarrow> gerr + int"

definition validateCrossNamespace :: "string \<Rightarrow> string \<Rightarrow> BackendObjectReference \<Rightarrow> BackendRefValidator \<Rightarrow> bool" where
  "validateCrossNamespace targetNS sourceNS ref validator =
     (if targetNS = sourceNS \<or> validator = None then True else the validator sourceNS ref)"

definition attachGatewayClientCert ::
    "BackendTLSConfig option \<Rightarrow> ClientCertConfig option \<Rightarrow> BackendTLSConfig option" where
  "attachGatewayClientCert tlsCfg clientCert =
     (case (tlsCfg, clientCert) of
        (Some t, Some c) \<Rightarrow> Some (t \<lparr> tls_ClientCertPEM := cc_CertPEM c, tls_ClientKeyPEM := cc_KeyPEM c \<rparr>)
      | _ \<Rightarrow> tlsCfg)"

definition forceHTTPSScheme :: "string \<Rightarrow> string" where
  "forceHTTPSScheme rawURL =
     (case cut_prefix rawURL ''http://'' of Some rest \<Rightarrow> ''https://'' @ rest | None \<Rightarrow> rawURL)"

definition resolveBackendTLS ::
    "BackendTLSResolver \<Rightarrow> string \<Rightarrow> string \<Rightarrow> int \<Rightarrow> string \<Rightarrow> BackendTLSConfig option \<times> string" where
  "resolveBackendTLS resolver namespace serviceName port rawURL =
     (case resolver of
        None \<Rightarrow> (None, rawURL)
      | Some f \<Rightarrow> (case f namespace serviceName port of
                     None \<Rightarrow> (None, rawURL)
                   | Some tls \<Rightarrow> (Some tls, forceHTTPSScheme rawURL)))"

text \<open>\<^verbatim>\<open>strings.Replace(s, old, new, 1)\<close>.\<close>

definition replace_first :: "string \<Rightarrow> string \<Rightarrow> string \<Rightarrow> string" where
  "replace_first s old new = (case str_cut s old of None \<Rightarrow> s | Some (a, b) \<Rightarrow> a @ new @ b)"

definition resolveH2C :: "string \<Rightarrow> bool \<Rightarrow> diagSink \<Rightarrow> (BackendProtocol \<times> string) \<times> diagSink" where
  "resolveH2C rawURL tlsAttached sink =
     (if tlsAttached then ((BackendProtocolHTTP, rawURL), diagSink_event ''Normal'' sink)
      else ((BackendProtocolH2C, replace_first rawURL ''https://'' ''http://''), sink))"

definition unpolicedTLSAppProtocol :: "bool \<Rightarrow> diagSink \<Rightarrow> bool \<times> diagSink" where
  "unpolicedTLSAppProtocol tlsAttached sink =
     (if tlsAttached then (False, sink)
      else (True, diagSink_add DiagnosticResolvedRefs ''UnsupportedProtocol'' False sink))"

definition isTLSAppProtocol :: "string \<Rightarrow> bool" where
  "isTLSAppProtocol appProto \<longleftrightarrow> appProto \<in> {''https'', ''HTTPS'', ''kubernetes.io/wss''}"

definition lookupAppProtocol :: "BackendProtocolResolver \<Rightarrow> string \<Rightarrow> string \<Rightarrow> int \<Rightarrow> string" where
  "lookupAppProtocol resolver namespace serviceName port =
     (case resolver of None \<Rightarrow> '''' | Some f \<Rightarrow> f namespace serviceName port)"

definition resolveBackendProtocol ::
    "BackendProtocolResolver \<Rightarrow> string \<Rightarrow> string \<Rightarrow> int \<Rightarrow> string \<Rightarrow> bool \<Rightarrow> diagSink
     \<Rightarrow> (BackendProtocol \<times> string \<times> bool \<times> bool) \<times> diagSink" where
  "resolveBackendProtocol resolver namespace serviceName port rawURL tlsAttached sink =
     (case resolver of
        None \<Rightarrow> ((BackendProtocolHTTP, rawURL, False, False), sink)
      | Some f \<Rightarrow>
          (let appProto = f namespace serviceName port in
           if appProto = ''kubernetes.io/h2c''
           then (case resolveH2C rawURL tlsAttached sink of ((proto, u), sink) \<Rightarrow> ((proto, u, False, False), sink))
           else if appProto = ''kubernetes.io/ws''
           then ((BackendProtocolHTTP, rawURL, True, False), if tlsAttached then diagSink_event ''Normal'' sink else sink)
           else if appProto = ''kubernetes.io/wss''
           then (case unpolicedTLSAppProtocol tlsAttached sink of (fc, sink) \<Rightarrow> ((BackendProtocolHTTP, rawURL, True, fc), sink))
           else if appProto = ''https'' \<or> appProto = ''HTTPS''
           then (case unpolicedTLSAppProtocol tlsAttached sink of (fc, sink) \<Rightarrow> ((BackendProtocolHTTP, rawURL, False, fc), sink))
           else if appProto = '''' \<or> appProto = ''http'' \<or> appProto = ''HTTP''
           then ((BackendProtocolHTTP, rawURL, False, False), sink)
           else ((BackendProtocolHTTP, rawURL, False, False),
                 diagSink_add DiagnosticResolvedRefs ''UnsupportedProtocol'' False sink)))"

definition empty_backend :: BackendRef where
  "empty_backend =
     \<lparr> be_URL = '''', be_Weight = 0, be_Protocol = BackendProtocolHTTP, be_TLS = None, be_Filters = [], be_WebSocket = False,
       be_UnavailableStatus = 0 \<rparr>"

definition markInvalidBackend :: "int \<Rightarrow> string \<Rightarrow> string \<Rightarrow> int \<Rightarrow> string \<Rightarrow> BackendRef \<times> bool" where
  "markInvalidBackend weight name svcNamespace port clusterDomain =
     (if weight \<le> 0 then (empty_backend, False)
      else (let urlPort = (if \<not> validatePort port then defaultServicePort else port) in
        (empty_backend \<lparr> be_Weight := weight, be_URL := buildServiceURL name svcNamespace urlPort clusterDomain,
           be_UnavailableStatus := 500 \<rparr>, True)))"

datatype backendRefOutcome = backendRefResolved | backendRefFinal | backendRefDropped | backendRefExternal

record resolvedBackendRef =
  rb_outcome :: backendRefOutcome
  rb_backend :: BackendRef
  rb_keep :: bool
  rb_serviceName :: string
  rb_svcNamespace :: string
  rb_port :: int

definition validateCommonBackendRef ::
    "ConverterEnv \<Rightarrow> resolvedBackendRef \<Rightarrow> BackendObjectReference \<Rightarrow> string \<Rightarrow> resolvedBackendRef" where
  "validateCommonBackendRef env resolved objRef routeNamespace =
     (let invalid = (case markInvalidBackend (be_Weight (rb_backend resolved)) (rb_serviceName resolved)
                       (rb_svcNamespace resolved) (rb_port resolved) (ce_clusterDomain env) of
                       (b, keep) \<Rightarrow> resolved \<lparr> rb_outcome := backendRefFinal, rb_backend := b, rb_keep := keep \<rparr>) in
      if \<not> IsSupportedBackendRef objRef then invalid
      else if IsExternalBackendRef objRef then resolved \<lparr> rb_outcome := backendRefExternal \<rparr>
      else if \<not> validatePort (rb_port resolved) then invalid
      else if \<not> validateCrossNamespace (rb_svcNamespace resolved) routeNamespace objRef (ce_validator env) then invalid
      else resolved \<lparr> rb_outcome := backendRefResolved,
             rb_backend := rb_backend resolved \<lparr> be_URL := buildServiceURL (rb_serviceName resolved) (rb_svcNamespace resolved)
               (rb_port resolved) (backendDomain objRef (ce_clusterDomain env)) \<rparr> \<rparr>)"

definition resolveCommonBackendRef :: "ConverterEnv \<Rightarrow> APIBackendRef \<Rightarrow> string \<Rightarrow> resolvedBackendRef" where
  "resolveCommonBackendRef env ref routeNamespace =
     (let weight = (case ab_Weight ref of None \<Rightarrow> 1 | Some w \<Rightarrow> w) in
      if weight < 0
      then \<lparr> rb_outcome = backendRefDropped, rb_backend = empty_backend, rb_keep = False, rb_serviceName = '''',
             rb_svcNamespace = '''', rb_port = 0 \<rparr>
      else validateCommonBackendRef env
             \<lparr> rb_outcome = backendRefResolved, rb_backend = empty_backend \<lparr> be_Weight := weight \<rparr>, rb_keep = False,
               rb_serviceName = bo_Name (ab_Ref ref),
               rb_svcNamespace = (case bo_Namespace (ab_Ref ref) of None \<Rightarrow> routeNamespace | Some ns \<Rightarrow> ns),
               rb_port = (case bo_Port (ab_Ref ref) of None \<Rightarrow> defaultServicePort | Some p \<Rightarrow> p) \<rparr>
             (ab_Ref ref) routeNamespace)"

section \<open>Mirror filters and filter lists\<close>

definition validateMirrorBackendRef ::
    "HTTPRequestMirrorFilter \<Rightarrow> string \<Rightarrow> BackendRefValidator \<Rightarrow> diagSink \<Rightarrow> (string \<times> int) option \<times> diagSink" where
  "validateMirrorBackendRef mirror namespace validator sink =
     (let ref = hmf_BackendRef mirror;
          mirrorPort = (case bo_Port ref of None \<Rightarrow> defaultServicePort | Some p \<Rightarrow> p);
          mirrorNS = (case bo_Namespace ref of None \<Rightarrow> namespace | Some ns \<Rightarrow> ns) in
      if \<not> isMirrorableBackendRef ref then (None, diagSink_add DiagnosticResolvedRefs ''InvalidKind'' False sink)
      else if \<not> validatePort mirrorPort then (None, diagSink_add DiagnosticResolvedRefs ''UnsupportedValue'' False sink)
      else if \<not> validateCrossNamespace mirrorNS namespace ref validator
      then (None, diagSink_add DiagnosticResolvedRefs ''RefNotPermitted'' False sink)
      else (Some (mirrorNS, mirrorPort), sink))"

definition convertMirrorFilter ::
    "ConverterEnv \<Rightarrow> HTTPRequestMirrorFilter option \<Rightarrow> string \<Rightarrow> ClientCertConfig option \<Rightarrow> diagSink
     \<Rightarrow> RouteFilter option \<times> diagSink" where
  "convertMirrorFilter env mirrorOpt namespace clientCert sink =
     (case mirrorOpt of
        None \<Rightarrow> (None, sink)
      | Some mirror \<Rightarrow>
          (case validateMirrorBackendRef mirror namespace (ce_validator env) sink of
             (None, sink) \<Rightarrow> (None, sink)
           | (Some (mirrorNS, mirrorPort), sink) \<Rightarrow>
               (let ref = hmf_BackendRef mirror;
                    mirrorURL = buildServiceURL (bo_Name ref) mirrorNS mirrorPort (backendDomain ref (ce_clusterDomain env));
                    tls = (case ce_tlsResolver env of None \<Rightarrow> None | Some f \<Rightarrow> f mirrorNS (bo_Name ref) mirrorPort) in
                (Some (empty_filter FilterRequestMirror \<lparr> rf_RequestMirror := Some
                   \<lparr> mi_BackendURL = (if tls = None then mirrorURL else forceHTTPSScheme mirrorURL),
                     mi_Percent = mirrorPercent mirror,
                     mi_TLS = (if tls = None then None else attachGatewayClientCert tls clientCert),
                     mi_Protocol = BackendProtocolHTTP \<rparr> \<rparr>), sink))))"

definition convertFilter ::
    "ConverterEnv \<Rightarrow> HTTPRouteFilter \<Rightarrow> string \<Rightarrow> ClientCertConfig option \<Rightarrow> bool \<Rightarrow> diagSink
     \<Rightarrow> (RouteFilter option \<times> bool) \<times> diagSink" where
  "convertFilter env routeFilter namespace clientCert ruleScope sink =
     (if hf_Type routeFilter = ''RequestHeaderModifier''
      then ((convertRequestHeaderFilter (hf_RequestHeaderModifier routeFilter), False), sink)
      else if hf_Type routeFilter = ''ResponseHeaderModifier''
      then ((convertResponseHeaderFilter (hf_ResponseHeaderModifier routeFilter), False), sink)
      else if hf_Type routeFilter = ''RequestRedirect'' then ((convertRedirectFilter (hf_RequestRedirect routeFilter), False), sink)
      else if hf_Type routeFilter = ''URLRewrite'' then ((convertURLRewriteFilter (hf_URLRewrite routeFilter), False), sink)
      else if hf_Type routeFilter = ''RequestMirror''
      then (case convertMirrorFilter env (hf_RequestMirror routeFilter) namespace clientCert sink of (f, sink) \<Rightarrow> ((f, False), sink))
      else if hf_Type routeFilter = ''CORS'' then ((convertCORSFilter (hf_CORS routeFilter), False), sink)
      else ((None, True), diagSink_add DiagnosticAccepted ''UnsupportedValue'' ruleScope sink))"

text \<open>The loop over a list of filters: the converted ones, and whether one of them fails closed.\<close>

fun convert_filters ::
    "ConverterEnv \<Rightarrow> string \<Rightarrow> ClientCertConfig option \<Rightarrow> bool \<Rightarrow> HTTPRouteFilter list \<Rightarrow> diagSink
     \<Rightarrow> (RouteFilter list \<times> bool) \<times> diagSink" where
  "convert_filters env namespace clientCert ruleScope [] sink = (([], False), sink)"
| "convert_filters env namespace clientCert ruleScope (f # fs) sink =
     (case convertFilter env f namespace clientCert ruleScope sink of
        ((converted, failClosed), sink) \<Rightarrow>
          (case convert_filters env namespace clientCert ruleScope fs sink of
             ((rest, restFailClosed), sink) \<Rightarrow>
               (((case converted of None \<Rightarrow> rest | Some c \<Rightarrow> c # rest), failClosed \<or> restFailClosed), sink)))"

definition applyBackendFilters ::
    "ConverterEnv \<Rightarrow> BackendRef \<Rightarrow> HTTPRouteFilter list \<Rightarrow> string \<Rightarrow> ClientCertConfig option \<Rightarrow> diagSink
     \<Rightarrow> BackendRef \<times> diagSink" where
  "applyBackendFilters env result filters namespace clientCert sink =
     (case convert_filters env namespace clientCert False filters sink of
        ((fs, failClosed), sink) \<Rightarrow>
          (let result = result \<lparr> be_Filters := fs \<rparr> in
           (if failClosed then result \<lparr> be_UnavailableStatus := 500 \<rparr> else result, sink)))"

definition convertExternalBackendRef ::
    "ConverterEnv \<Rightarrow> int \<Rightarrow> HTTPBackendRef \<Rightarrow> string \<Rightarrow> string \<Rightarrow> string \<Rightarrow> ClientCertConfig option \<Rightarrow> diagSink
     \<Rightarrow> (BackendRef \<times> bool) \<times> diagSink" where
  "convertExternalBackendRef env weight backend namespace svcNamespace serviceName clientCert sink =
     (if \<not> validateCrossNamespace svcNamespace namespace (ab_Ref (hb_BackendRef backend)) (ce_validator env)
      then (markInvalidBackend weight serviceName svcNamespace defaultServicePort (ce_clusterDomain env), sink)
      else (case applyBackendFilters env
                   (empty_backend \<lparr> be_Weight := weight, be_URL := ExternalBackendSentinelURL svcNamespace serviceName \<rparr>)
                   (hb_Filters backend) namespace clientCert sink of
              (result, sink) \<Rightarrow> ((result, True), sink)))"

definition convertBackendRef ::
    "ConverterEnv \<Rightarrow> HTTPBackendRef \<Rightarrow> string \<Rightarrow> ClientCertConfig option \<Rightarrow> diagSink \<Rightarrow> (BackendRef \<times> bool) \<times> diagSink" where
  "convertBackendRef env backend namespace clientCert sink =
     (let common = resolveCommonBackendRef env (hb_BackendRef backend) namespace in
      case rb_outcome common of
        backendRefDropped \<Rightarrow> ((empty_backend, False), sink)
      | backendRefFinal \<Rightarrow> ((rb_backend common, rb_keep common), sink)
      | backendRefExternal \<Rightarrow>
          convertExternalBackendRef env (be_Weight (rb_backend common)) backend namespace (rb_svcNamespace common)
            (rb_serviceName common) clientCert sink
      | backendRefResolved \<Rightarrow>
          (case resolveBackendTLS (ce_tlsResolver env) (rb_svcNamespace common) (rb_serviceName common) (rb_port common)
                  (be_URL (rb_backend common)) of
             (tls, url) \<Rightarrow>
               (let tls = attachGatewayClientCert tls clientCert in
                case resolveBackendProtocol (ce_protocolResolver env) (rb_svcNamespace common) (rb_serviceName common)
                       (rb_port common) url (tls \<noteq> None) sink of
                  ((proto, url, ws, protoFailClosed), sink) \<Rightarrow>
                    (case applyBackendFilters env
                            (rb_backend common \<lparr> be_TLS := tls, be_URL := url, be_Protocol := proto, be_WebSocket := ws,
                               be_UnavailableStatus := (if protoFailClosed then 502 else 0) \<rparr>)
                            (hb_Filters backend) namespace clientCert sink of
                       (result, sink) \<Rightarrow> ((result, True), sink)))))"

section \<open>Rules and routes\<close>

definition convertTimeouts :: "(string \<Rightarrow> gerr + int) \<Rightarrow> HTTPRouteTimeouts \<Rightarrow> gerr + RouteTimeouts" where
  "convertTimeouts parseDuration timeouts =
     (case (case hrt_Request timeouts of None \<Rightarrow> Inr 0 | Some d \<Rightarrow> parseDuration d) of
        Inl e \<Rightarrow> Inl (Wrapped (InText ''invalid request timeout'') e)
      | Inr request \<Rightarrow>
          (case (case hrt_BackendRequest timeouts of None \<Rightarrow> Inr 0 | Some d \<Rightarrow> parseDuration d) of
             Inl e \<Rightarrow> Inl (Wrapped (InText ''invalid backend timeout'') e)
           | Inr backend \<Rightarrow> Inr \<lparr> to_Request = request, to_Backend = backend \<rparr>))"

definition wsHandshakeRequiredHeaders :: "string set" where
  "wsHandshakeRequiredHeaders = {''Sec-Websocket-Accept'', ''Upgrade'', ''Connection''}"

definition warnIfHandshakeStrip :: "RouteFilter \<Rightarrow> diagSink \<Rightarrow> diagSink" where
  "warnIfHandshakeStrip f sink =
     (case rf_ResponseHeaderModifier f of
        None \<Rightarrow> sink
      | Some m \<Rightarrow>
          if rf_Type f \<noteq> FilterResponseHeaderModifier then sink
          else if filter (\<lambda>name. canonical_key name \<in> wsHandshakeRequiredHeaders) (mod_Remove m) = [] then sink
          else diagSink_event ''Warning'' sink)"

definition warnIfWSResponseFilterStripsHandshake :: "RouteRule \<Rightarrow> diagSink \<Rightarrow> diagSink" where
  "warnIfWSResponseFilterStripsHandshake rule sink =
     (if \<not> list_ex be_WebSocket (rule_Backends rule) then sink
      else fold warnIfHandshakeStrip (rule_Filters rule @ concat (map be_Filters (filter be_WebSocket (rule_Backends rule)))) sink)"

fun convert_backends ::
    "ConverterEnv \<Rightarrow> string \<Rightarrow> ClientCertConfig option \<Rightarrow> HTTPBackendRef list \<Rightarrow> diagSink \<Rightarrow> BackendRef list \<times> diagSink" where
  "convert_backends env namespace clientCert [] sink = ([], sink)"
| "convert_backends env namespace clientCert (b # bs) sink =
     (case convertBackendRef env b namespace clientCert sink of
        ((backend, ok), sink) \<Rightarrow>
          (case convert_backends env namespace clientCert bs sink of
             (rest, sink) \<Rightarrow> (if ok then backend # rest else rest, sink)))"

definition convertHTTPRouteRule ::
    "ConverterEnv \<Rightarrow> HTTPRouteRule \<Rightarrow> string list \<Rightarrow> string \<Rightarrow> ClientCertConfig option \<Rightarrow> diagSink \<Rightarrow> RouteRule \<times> diagSink" where
  "convertHTTPRouteRule env rule hostnames namespace clientCert sink =
     (case convert_filters env namespace clientCert True (hrl_Filters rule) sink of
        ((filters, failClosed), sink) \<Rightarrow>
          (case convert_backends env namespace clientCert (hrl_BackendRefs rule) sink of
             (backends, sink) \<Rightarrow>
               (case (case hrl_Timeouts rule of None \<Rightarrow> (None, sink)
                      | Some t \<Rightarrow>
                          (case convertTimeouts (ce_parseDuration env) t of
                             Inl _ \<Rightarrow> (None, diagSink_add DiagnosticAccepted ''UnsupportedValue'' False sink)
                           | Inr timeouts \<Rightarrow> (Some timeouts, sink))) of
                  (timeouts, sink) \<Rightarrow>
                    (let proxyRule = \<lparr> rule_Hostnames = hostnames, rule_Matches = map convertMatch (hrl_Matches rule),
                           rule_Filters = filters, rule_Backends = backends, rule_Timeouts = timeouts,
                           rule_UnavailableStatus = (if failClosed then 500 else 0) \<rparr>
                     in (proxyRule, warnIfWSResponseFilterStripsHandshake proxyRule sink)))))"

definition resolveFirstParentClientCertFromRefs ::
    "ParentReference list \<Rightarrow> string \<Rightarrow> GatewayClientCertResolver \<Rightarrow> ClientCertConfig option" where
  "resolveFirstParentClientCertFromRefs parentRefs routeNamespace resolver =
     (case resolver of
        None \<Rightarrow> None
      | Some f \<Rightarrow>
          (case List.map_filter (\<lambda>ref.
                  if pr_Group ref \<noteq> None \<and> pr_Group ref \<noteq> Some '''' \<and> pr_Group ref \<noteq> Some GroupName then None
                  else if pr_Kind ref \<noteq> None \<and> pr_Kind ref \<noteq> Some '''' \<and> pr_Kind ref \<noteq> Some ''Gateway'' then None
                  else f (case pr_Namespace ref of None \<Rightarrow> routeNamespace | Some ns \<Rightarrow> ns) (pr_Name ref)) parentRefs of
             [] \<Rightarrow> None
           | cert # _ \<Rightarrow> Some cert))"

definition route_precedes :: "'r Route \<Rightarrow> 'r Route \<Rightarrow> bool" where
  "route_precedes a b \<longleftrightarrow>
     (if rt_Created a \<noteq> rt_Created b then rt_Created a < rt_Created b
      else if rt_Namespace a \<noteq> rt_Namespace b then rt_Namespace a < rt_Namespace b
      else rt_Name a < rt_Name b)"

definition sortRoutesByPrecedence :: "'r Route list \<Rightarrow> 'r Route list" where
  "sortRoutesByPrecedence routes = sort_stable route_precedes routes"

text \<open>The loop over the rules of a route: the rules with their provenance.\<close>

fun convert_rules ::
    "string \<Rightarrow> ('r \<Rightarrow> diagSink \<Rightarrow> RouteRule \<times> diagSink) \<Rightarrow> 'x Route \<Rightarrow> nat \<Rightarrow> 'r list \<Rightarrow> diagSink
     \<Rightarrow> (RouteRule \<times> RuleProvenance) list \<times> diagSink" where
  "convert_rules kind convertRule route ruleIdx [] sink = ([], sink)"
| "convert_rules kind convertRule route ruleIdx (r # rs) sink =
     (case convertRule r (diagSink_at ruleIdx sink) of
        (rule, sink) \<Rightarrow>
          (case convert_rules kind convertRule route (Suc ruleIdx) rs sink of
             (rest, sink) \<Rightarrow>
               ((rule, \<lparr> pv_Kind = kind, pv_Namespace = rt_Namespace route, pv_Name = rt_Name route,
                         pv_CreationTimestamp = rt_Created route, pv_RuleIndex = ruleIdx \<rparr>) # rest, sink)))"

fun convert_routes ::
    "string \<Rightarrow> GatewayClientCertResolver
     \<Rightarrow> ('r \<Rightarrow> string list \<Rightarrow> string \<Rightarrow> ClientCertConfig option \<Rightarrow> diagSink \<Rightarrow> RouteRule \<times> diagSink)
     \<Rightarrow> 'r list Route list \<Rightarrow> diagSink \<Rightarrow> (RouteRule \<times> RuleProvenance) list \<times> diagSink" where
  "convert_routes kind certResolver convertRule [] sink = ([], sink)"
| "convert_routes kind certResolver convertRule (route # routes) sink =
     (let clientCert = resolveFirstParentClientCertFromRefs (rt_ParentRefs route) (rt_Namespace route) certResolver in
      case convert_rules kind (\<lambda>r. convertRule r (rt_Hostnames route) (rt_Namespace route) clientCert) route 0
             (rt_Rules route) (diagSink_route (rt_Namespace route) (rt_Name route) sink) of
        (rules, sink) \<Rightarrow>
          (case convert_routes kind certResolver convertRule routes sink of (rest, sink) \<Rightarrow> (rules @ rest, sink)))"

definition convertRoutesGeneric ::
    "string \<Rightarrow> int \<Rightarrow> GatewayClientCertResolver
     \<Rightarrow> ('r \<Rightarrow> string list \<Rightarrow> string \<Rightarrow> ClientCertConfig option \<Rightarrow> diagSink \<Rightarrow> RouteRule \<times> diagSink)
     \<Rightarrow> 'r list Route list \<Rightarrow> Config" where
  "convertRoutesGeneric kind version certResolver convertRule routes =
     (case convert_routes kind certResolver convertRule (sortRoutesByPrecedence routes)
             \<lparr> sink_namespace = '''', sink_name = '''', sink_rule = 0, sink_items = [] \<rparr> of
        (rules, sink) \<Rightarrow>
          \<lparr> cfg_Version = version, cfg_Rules = map fst rules, cfg_HasGRPCRoute = False, cfg_Diagnostics = sink_items sink,
            cfg_Provenance = map snd rules \<rparr>)"

definition ConvertHTTPRoutes :: "ConverterEnv \<Rightarrow> int \<Rightarrow> HTTPRoute list \<Rightarrow> Config" where
  "ConvertHTTPRoutes env version routes =
     convertRoutesGeneric ''HTTPRoute'' version (ce_certResolver env) (convertHTTPRouteRule env) routes"

section \<open>Results do not depend on the diagnostics\<close>

definition no_sink :: diagSink where
  "no_sink = \<lparr> sink_namespace = '''', sink_name = '''', sink_rule = 0, sink_items = [] \<rparr>"

lemma validateMirrorBackendRef_fst:
  "fst (validateMirrorBackendRef m ns v s) = fst (validateMirrorBackendRef m ns v no_sink)"
  by (simp add: validateMirrorBackendRef_def Let_def)

lemma convertMirrorFilter_fst:
  "fst (convertMirrorFilter env m ns cc s) = fst (convertMirrorFilter env m ns cc no_sink)"
proof (cases m)
  case (Some mirror)
  have same: "fst (validateMirrorBackendRef mirror ns (ce_validator env) s) =
      fst (validateMirrorBackendRef mirror ns (ce_validator env) no_sink)" by (rule validateMirrorBackendRef_fst)
  obtain r t t' where "validateMirrorBackendRef mirror ns (ce_validator env) s = (r, t)"
    "validateMirrorBackendRef mirror ns (ce_validator env) no_sink = (r, t')"
    using same by (metis prod.collapse)
  with Some show ?thesis by (simp add: convertMirrorFilter_def Let_def split: option.splits)
qed (simp add: convertMirrorFilter_def)

text \<open>The outcome of one filter: the converted filter, and whether it fails closed.\<close>

definition filter_outcome ::
    "ConverterEnv \<Rightarrow> string \<Rightarrow> ClientCertConfig option \<Rightarrow> HTTPRouteFilter \<Rightarrow> RouteFilter option \<times> bool" where
  "filter_outcome env ns cc f = fst (convertFilter env f ns cc True no_sink)"

lemma convertFilter_fst: "fst (convertFilter env f ns cc scope s) = filter_outcome env ns cc f"
proof -
  have "fst (convertMirrorFilter env (hf_RequestMirror f) ns cc s) = fst (convertMirrorFilter env (hf_RequestMirror f) ns cc no_sink)"
    by (rule convertMirrorFilter_fst)
  then show ?thesis by (auto simp: filter_outcome_def convertFilter_def split: prod.splits)
qed

lemma convert_filters_fst:
  "fst (convert_filters env ns cc scope fs s) =
     (List.map_filter (\<lambda>f. fst (filter_outcome env ns cc f)) fs, list_ex (\<lambda>f. snd (filter_outcome env ns cc f)) fs)"
proof (induction fs arbitrary: s)
  case (Cons f fs)
  obtain c b t where f: "convertFilter env f ns cc scope s = ((c, b), t)" by (metis surj_pair)
  obtain r b' t' where fs: "convert_filters env ns cc scope fs t = ((r, b'), t')" by (metis surj_pair)
  from f convertFilter_fst [of env f ns cc scope s] have "filter_outcome env ns cc f = (c, b)" by simp
  with Cons [of t] f fs show ?case by (simp add: List.map_filter_simps split: option.splits)
qed (simp add: List.map_filter_simps)

lemma applyBackendFilters_fst:
  "fst (applyBackendFilters env result fs ns cc s) =
     result \<lparr> be_Filters := List.map_filter (\<lambda>f. fst (filter_outcome env ns cc f)) fs,
              be_UnavailableStatus := (if list_ex (\<lambda>f. snd (filter_outcome env ns cc f)) fs then 500
                                       else be_UnavailableStatus result) \<rparr>"
proof -
  obtain r b t where fs: "convert_filters env ns cc False fs s = ((r, b), t)" by (metis surj_pair)
  from convert_filters_fst [of env ns cc False fs s] fs show ?thesis
    by (simp add: applyBackendFilters_def Let_def)
qed

lemma convertExternalBackendRef_fst:
  "fst (convertExternalBackendRef env w b ns sns name cc s) = fst (convertExternalBackendRef env w b ns sns name cc no_sink)"
  by (simp add: convertExternalBackendRef_def case_prod_beta applyBackendFilters_fst)

lemma resolveBackendProtocol_fst:
  "fst (resolveBackendProtocol r ns n p u t s) = fst (resolveBackendProtocol r ns n p u t no_sink)"
  by (simp add: resolveBackendProtocol_def resolveH2C_def unpolicedTLSAppProtocol_def Let_def split: option.splits)

definition backend_outcome ::
    "ConverterEnv \<Rightarrow> string \<Rightarrow> ClientCertConfig option \<Rightarrow> HTTPBackendRef \<Rightarrow> BackendRef \<times> bool" where
  "backend_outcome env ns cc b = fst (convertBackendRef env b ns cc no_sink)"

text \<open>The transport of a resolved Service: TLS, address, protocol, whether it speaks WebSocket and whether it fails
  closed.\<close>

definition transport_of ::
    "ConverterEnv \<Rightarrow> ClientCertConfig option \<Rightarrow> resolvedBackendRef
     \<Rightarrow> BackendTLSConfig option \<times> BackendProtocol \<times> string \<times> bool \<times> bool" where
  "transport_of env cc common =
     (case resolveBackendTLS (ce_tlsResolver env) (rb_svcNamespace common) (rb_serviceName common) (rb_port common)
             (be_URL (rb_backend common)) of
        (tls, url) \<Rightarrow>
          (attachGatewayClientCert tls cc,
           fst (resolveBackendProtocol (ce_protocolResolver env) (rb_svcNamespace common) (rb_serviceName common)
                  (rb_port common) url (attachGatewayClientCert tls cc \<noteq> None) no_sink)))"

lemma convertBackendRef_fst:
  "fst (convertBackendRef env b ns cc s) =
     (let common = resolveCommonBackendRef env (hb_BackendRef b) ns in
      case rb_outcome common of
        backendRefDropped \<Rightarrow> (empty_backend, False)
      | backendRefFinal \<Rightarrow> (rb_backend common, rb_keep common)
      | backendRefExternal \<Rightarrow>
          fst (convertExternalBackendRef env (be_Weight (rb_backend common)) b ns (rb_svcNamespace common)
            (rb_serviceName common) cc no_sink)
      | backendRefResolved \<Rightarrow>
          (case transport_of env cc common of (tls, proto, url, ws, fc) \<Rightarrow>
             (rb_backend common \<lparr> be_TLS := tls, be_URL := url, be_Protocol := proto, be_WebSocket := ws,
                be_Filters := List.map_filter (\<lambda>f. fst (filter_outcome env ns cc f)) (hb_Filters b),
                be_UnavailableStatus := (if list_ex (\<lambda>f. snd (filter_outcome env ns cc f)) (hb_Filters b) then 500
                                         else if fc then 502 else 0) \<rparr>, True)))"
proof -
  let ?c = "resolveCommonBackendRef env (hb_BackendRef b) ns"
  show ?thesis
  proof (cases "rb_outcome ?c")
    case backendRefResolved
    obtain tls url where tls: "resolveBackendTLS (ce_tlsResolver env) (rb_svcNamespace ?c) (rb_serviceName ?c) (rb_port ?c)
        (be_URL (rb_backend ?c)) = (tls, url)" by (metis surj_pair)
    let ?t = "attachGatewayClientCert tls cc"
    obtain proto u ws fc t where p: "resolveBackendProtocol (ce_protocolResolver env) (rb_svcNamespace ?c) (rb_serviceName ?c)
        (rb_port ?c) url (?t \<noteq> None) s = ((proto, u, ws, fc), t)" by (metis surj_pair)
    with resolveBackendProtocol_fst have p': "fst (resolveBackendProtocol (ce_protocolResolver env) (rb_svcNamespace ?c) (rb_serviceName ?c)
        (rb_port ?c) url (?t \<noteq> None) no_sink) = (proto, u, ws, fc)" by (metis fst_conv)
    show ?thesis
      unfolding convertBackendRef_def transport_of_def Let_def backendRefResolved backendRefOutcome.case tls p p' prod.case
      by (simp add: case_prod_beta applyBackendFilters_fst)
  next
    case backendRefExternal
    show ?thesis
      unfolding convertBackendRef_def Let_def backendRefExternal backendRefOutcome.case by (rule convertExternalBackendRef_fst)
  qed (simp_all add: convertBackendRef_def Let_def)
qed


lemma convert_backends_fst:
  "fst (convert_backends env ns cc bs s) = map fst (filter snd (map (backend_outcome env ns cc) bs))"
proof (induction bs arbitrary: s)
  case (Cons b bs)
  obtain r ok t where b: "convertBackendRef env b ns cc s = ((r, ok), t)" by (metis surj_pair)
  have "fst (convertBackendRef env b ns cc s) = fst (convertBackendRef env b ns cc no_sink)"
    unfolding convertBackendRef_fst by (rule refl)
  with b have "backend_outcome env ns cc b = (r, ok)" by (simp add: backend_outcome_def)
  with Cons [of t] b show ?case by (simp add: case_prod_beta)
qed simp

text \<open>The rule a rule of an HTTPRoute becomes.\<close>

definition converted_rule ::
    "ConverterEnv \<Rightarrow> string list \<Rightarrow> string \<Rightarrow> ClientCertConfig option \<Rightarrow> HTTPRouteRule \<Rightarrow> RouteRule" where
  "converted_rule env hostnames ns cc rule =
     \<lparr> rule_Hostnames = hostnames, rule_Matches = map convertMatch (hrl_Matches rule),
       rule_Filters = List.map_filter (\<lambda>f. fst (filter_outcome env ns cc f)) (hrl_Filters rule),
       rule_Backends = map fst (filter snd (map (backend_outcome env ns cc) (hrl_BackendRefs rule))),
       rule_Timeouts = (case hrl_Timeouts rule of None \<Rightarrow> None
          | Some t \<Rightarrow> (case convertTimeouts (ce_parseDuration env) t of Inl _ \<Rightarrow> None | Inr ts \<Rightarrow> Some ts)),
       rule_UnavailableStatus = (if list_ex (\<lambda>f. snd (filter_outcome env ns cc f)) (hrl_Filters rule) then 500 else 0) \<rparr>"

lemma convertHTTPRouteRule_fst:
  "fst (convertHTTPRouteRule env rule hostnames ns cc s) = converted_rule env hostnames ns cc rule"
proof -
  obtain fs fc t where f: "convert_filters env ns cc True (hrl_Filters rule) s = ((fs, fc), t)" by (metis surj_pair)
  obtain bs u where b: "convert_backends env ns cc (hrl_BackendRefs rule) t = (bs, u)" by (metis surj_pair)
  from convert_filters_fst [of env ns cc True "hrl_Filters rule" s] convert_backends_fst [of env ns cc "hrl_BackendRefs rule" t]
  show ?thesis
    by (simp add: convertHTTPRouteRule_def converted_rule_def f b Let_def case_prod_beta split: option.splits sum.splits)
qed

text \<open>The rule that a rule of a given route becomes.\<close>

definition route_rule :: "ConverterEnv \<Rightarrow> HTTPRoute \<Rightarrow> HTTPRouteRule \<Rightarrow> RouteRule" where
  "route_rule env route =
     converted_rule env (rt_Hostnames route) (rt_Namespace route)
       (resolveFirstParentClientCertFromRefs (rt_ParentRefs route) (rt_Namespace route) (ce_certResolver env))"

lemma convert_rules_fst:
  assumes "\<And>r s. fst (cr r s) = pr r"
  shows "map fst (fst (convert_rules kind cr route i rs s)) = map pr rs"
    and "map snd (fst (convert_rules kind cr route i rs s)) =
      map (\<lambda>k. \<lparr> pv_Kind = kind, pv_Namespace = rt_Namespace route, pv_Name = rt_Name route,
                  pv_CreationTimestamp = rt_Created route, pv_RuleIndex = k \<rparr>) [i ..< i + length rs]"
proof (induction rs arbitrary: i s)
  case (Cons r rs)
  { case 1 show ?case by (simp add: case_prod_beta assms Cons.IH(1)) }
  { case 2 show ?case by (simp add: case_prod_beta Cons.IH(2) upt_conv_Cons del: upt_Suc) }
qed simp_all

lemma convert_routes_fst:
  assumes "\<And>route r s. fst (cr r (rt_Hostnames route) (rt_Namespace route)
      (resolveFirstParentClientCertFromRefs (rt_ParentRefs route) (rt_Namespace route) certs) s) = pr route r"
  shows "map fst (fst (convert_routes kind certs cr routes s)) = concat (map (\<lambda>route. map (pr route) (rt_Rules route)) routes)"
    and "map snd (fst (convert_routes kind certs cr routes s)) =
      concat (map (\<lambda>route. map (\<lambda>k. \<lparr> pv_Kind = kind, pv_Namespace = rt_Namespace route, pv_Name = rt_Name route,
                  pv_CreationTimestamp = rt_Created route, pv_RuleIndex = k \<rparr>) [0 ..< length (rt_Rules route)]) routes)"
proof (induction routes arbitrary: s)
  case (Cons route routes)
  note rules = convert_rules_fst [where cr = "\<lambda>r. cr r (rt_Hostnames route) (rt_Namespace route)
      (resolveFirstParentClientCertFromRefs (rt_ParentRefs route) (rt_Namespace route) certs)" and pr = "pr route", OF assms]
  { case 1 show ?case using Cons.IH(1) by (simp add: Let_def case_prod_beta rules(1)) }
  { case 2 show ?case using Cons.IH(2) by (simp add: Let_def case_prod_beta rules(2)) }
qed simp_all

lemma ConvertHTTPRoutes_rules:
  "cfg_Rules (ConvertHTTPRoutes env version routes) =
     concat (map (\<lambda>route. map (route_rule env route) (rt_Rules route)) (sortRoutesByPrecedence routes))"
  "cfg_Provenance (ConvertHTTPRoutes env version routes) =
     concat (map (\<lambda>route. map (\<lambda>k. \<lparr> pv_Kind = ''HTTPRoute'', pv_Namespace = rt_Namespace route, pv_Name = rt_Name route,
                  pv_CreationTimestamp = rt_Created route, pv_RuleIndex = k \<rparr>) [0 ..< length (rt_Rules route)])
       (sortRoutesByPrecedence routes))"
  "cfg_Version (ConvertHTTPRoutes env version routes) = version"
proof -
  have "fst (convertHTTPRouteRule env r (rt_Hostnames route) (rt_Namespace route)
      (resolveFirstParentClientCertFromRefs (rt_ParentRefs route) (rt_Namespace route) (ce_certResolver env)) s) =
      route_rule env route r" for r s and route :: HTTPRoute
    by (simp add: convertHTTPRouteRule_fst route_rule_def)
  note rules = convert_routes_fst [where cr = "convertHTTPRouteRule env" and pr = "route_rule env", OF this]
  show "cfg_Rules (ConvertHTTPRoutes env version routes) =
     concat (map (\<lambda>route. map (route_rule env route) (rt_Rules route)) (sortRoutesByPrecedence routes))"
    "cfg_Provenance (ConvertHTTPRoutes env version routes) =
     concat (map (\<lambda>route. map (\<lambda>k. \<lparr> pv_Kind = ''HTTPRoute'', pv_Namespace = rt_Namespace route, pv_Name = rt_Name route,
                  pv_CreationTimestamp = rt_Created route, pv_RuleIndex = k \<rparr>) [0 ..< length (rt_Rules route)])
       (sortRoutesByPrecedence routes))"
    "cfg_Version (ConvertHTTPRoutes env version routes) = version"
    using rules by (simp_all add: ConvertHTTPRoutes_def convertRoutesGeneric_def case_prod_beta)
qed

end
