(* ===== verification/ConverterSpec.thy ===== *)
theory ConverterSpec
  imports Converter
begin

text \<open>
  What the translation of an HTTPRoute promises: the traffic fractions of its backend references, the references that
  can be dialled at all, and that the result passes the proxy's validation.
\<close>

section \<open>Backend references of a rule\<close>

definition ref_weight :: "APIBackendRef \<Rightarrow> int" where
  "ref_weight ref = (case ab_Weight ref of None \<Rightarrow> 1 | Some w \<Rightarrow> w)"

definition target_namespace :: "string \<Rightarrow> BackendObjectReference \<Rightarrow> string" where
  "target_namespace ns ref = (case bo_Namespace ref of None \<Rightarrow> ns | Some n \<Rightarrow> n)"

definition target_port :: "BackendObjectReference \<Rightarrow> int" where
  "target_port ref = (case bo_Port ref of None \<Rightarrow> 80 | Some p \<Rightarrow> p)"

text \<open>The reference stays in the namespace of its route, or a grant permits it.\<close>

definition permitted :: "ConverterEnv \<Rightarrow> string \<Rightarrow> BackendObjectReference \<Rightarrow> bool" where
  "permitted env ns ref \<longleftrightarrow>
     target_namespace ns ref = ns \<or> (case ce_validator env of None \<Rightarrow> True | Some v \<Rightarrow> v ns ref)"

definition valid_ref :: "ConverterEnv \<Rightarrow> string \<Rightarrow> BackendObjectReference \<Rightarrow> bool" where
  "valid_ref env ns ref \<longleftrightarrow>
     IsSupportedBackendRef ref \<and> (IsExternalBackendRef ref \<or> (1 \<le> target_port ref \<and> target_port ref \<le> 65535))
     \<and> permitted env ns ref"

text \<open>The port asks for TLS and no policy says whom to trust.\<close>

definition lacks_tls_policy :: "ConverterEnv \<Rightarrow> string \<Rightarrow> BackendObjectReference \<Rightarrow> bool" where
  "lacks_tls_policy env ns ref \<longleftrightarrow>
     isTLSAppProtocol (lookupAppProtocol (ce_protocolResolver env) (target_namespace ns ref) (bo_Name ref) (target_port ref))
     \<and> (case ce_tlsResolver env of None \<Rightarrow> True
        | Some f \<Rightarrow> f (target_namespace ns ref) (bo_Name ref) (target_port ref) = None)"

definition supported_filter :: "HTTPRouteFilter \<Rightarrow> bool" where
  "supported_filter f \<longleftrightarrow>
     hf_Type f \<in> {''RequestHeaderModifier'', ''ResponseHeaderModifier'', ''RequestRedirect'', ''URLRewrite'',
                  ''RequestMirror'', ''CORS''}"

definition servable :: "ConverterEnv \<Rightarrow> string \<Rightarrow> HTTPBackendRef \<Rightarrow> bool" where
  "servable env ns b \<longleftrightarrow>
     valid_ref env ns (ab_Ref (hb_BackendRef b)) \<and> list_all supported_filter (hb_Filters b)
     \<and> (IsExternalBackendRef (ab_Ref (hb_BackendRef b)) \<or> \<not> lacks_tls_policy env ns (ab_Ref (hb_BackendRef b)))"

lemma snd_filter_outcome: "snd (filter_outcome env ns cc f) \<longleftrightarrow> \<not> supported_filter f"
  by (auto simp: filter_outcome_def convertFilter_def supported_filter_def split: prod.splits)

lemma list_ex_filter_outcome: "list_ex (\<lambda>f. snd (filter_outcome env ns cc f)) fs \<longleftrightarrow> \<not> list_all supported_filter fs"
  unfolding snd_filter_outcome list_ex_iff list_all_iff by blast

lemma attachGatewayClientCert_None [simp]: "attachGatewayClientCert t c = None \<longleftrightarrow> t = None"
  by (auto simp: attachGatewayClientCert_def split: option.splits)

lemma validateCrossNamespace_permitted:
  "validateCrossNamespace (target_namespace ns ref) ns ref (ce_validator env) \<longleftrightarrow> permitted env ns ref"
  by (auto simp: validateCrossNamespace_def permitted_def)

text \<open>The shared half of the resolution, case by case.\<close>

lemma resolveCommonBackendRef_cases:
  fixes ref :: APIBackendRef and env :: ConverterEnv and ns :: string
  defines "w \<equiv> ref_weight ref" and "obj \<equiv> ab_Ref ref" and "c \<equiv> resolveCommonBackendRef env ref ns"
  shows "w < 0 \<Longrightarrow> rb_outcome c = backendRefDropped"
    and "0 \<le> w \<Longrightarrow> IsExternalBackendRef obj \<Longrightarrow> rb_outcome c = backendRefExternal"
    and "0 \<le> w \<Longrightarrow> \<not> IsExternalBackendRef obj \<Longrightarrow> \<not> valid_ref env ns obj \<Longrightarrow> rb_outcome c = backendRefFinal
      \<and> (0 < w \<longrightarrow> rb_keep c \<and> be_Weight (rb_backend c) = w \<and> be_UnavailableStatus (rb_backend c) = 500)
      \<and> (w = 0 \<longrightarrow> \<not> rb_keep c)"
    and "0 \<le> w \<Longrightarrow> \<not> IsExternalBackendRef obj \<Longrightarrow> valid_ref env ns obj \<Longrightarrow> rb_outcome c = backendRefResolved
      \<and> be_URL (rb_backend c) = buildServiceURL (bo_Name obj) (target_namespace ns obj) (target_port obj)
          (backendDomain obj (ce_clusterDomain env))"
    and "0 \<le> w \<Longrightarrow> IsExternalBackendRef obj \<or> valid_ref env ns obj \<Longrightarrow> be_Weight (rb_backend c) = w
      \<and> rb_serviceName c = bo_Name obj \<and> rb_svcNamespace c = target_namespace ns obj \<and> rb_port c = target_port obj"
  unfolding w_def obj_def c_def resolveCommonBackendRef_def validateCommonBackendRef_def ref_weight_def [symmetric]
    target_namespace_def [symmetric] target_port_def [symmetric] defaultServicePort_def Let_def
  by (auto simp: valid_ref_def validateCrossNamespace_permitted IsSupportedBackendRef_def markInvalidBackend_def Let_def
      validatePort_def)

lemma resolveBackendProtocol_fails:
  "snd (snd (snd (fst (resolveBackendProtocol r ns n p u t s)))) \<longleftrightarrow> isTLSAppProtocol (lookupAppProtocol r ns n p) \<and> \<not> t"
  by (cases r) (simp_all add: resolveBackendProtocol_def resolveH2C_def unpolicedTLSAppProtocol_def isTLSAppProtocol_def
      lookupAppProtocol_def Let_def)

lemma transport_fails:
  assumes "transport_of env cc c = (tls, proto, url, ws, fc)" and "rb_serviceName c = bo_Name ref"
    and "rb_svcNamespace c = target_namespace ns ref" and "rb_port c = target_port ref"
  shows "fc \<longleftrightarrow> lacks_tls_policy env ns ref"
proof -
  obtain t u where t: "resolveBackendTLS (ce_tlsResolver env) (target_namespace ns ref) (bo_Name ref) (target_port ref)
      (be_URL (rb_backend c)) = (t, u)" by (metis surj_pair)
  from assms t have "fc = snd (snd (snd (fst (resolveBackendProtocol (ce_protocolResolver env) (target_namespace ns ref)
      (bo_Name ref) (target_port ref) u (t \<noteq> None) no_sink))))"
    by (simp add: transport_of_def)
  moreover from t have "t = None \<longleftrightarrow> (case ce_tlsResolver env of None \<Rightarrow> True
      | Some f \<Rightarrow> f (target_namespace ns ref) (bo_Name ref) (target_port ref) = None)"
    by (auto simp: resolveBackendTLS_def split: option.splits)
  ultimately show ?thesis by (simp add: resolveBackendProtocol_fails lacks_tls_policy_def)
qed

lemma external_outcome:
  assumes "0 < w"
  shows "case fst (convertExternalBackendRef env w b ns (target_namespace ns (ab_Ref (hb_BackendRef b))) name cc s) of
     (be, keep) \<Rightarrow> keep \<and> be_Weight be = w
       \<and> (be_UnavailableStatus be = 0 \<longleftrightarrow>
            permitted env ns (ab_Ref (hb_BackendRef b)) \<and> list_all supported_filter (hb_Filters b))"
  using assms
  by (simp add: convertExternalBackendRef_def validateCrossNamespace_permitted markInvalidBackend_def Let_def
      case_prod_beta applyBackendFilters_fst list_ex_filter_outcome empty_backend_def)

text \<open>A reference that carries traffic stays in the pool with its weight, marked exactly when it cannot be served.\<close>

lemma outcome_with_traffic:
  assumes "0 < ref_weight (hb_BackendRef b)"
  shows "case backend_outcome env ns cc b of (be, keep) \<Rightarrow>
     keep \<and> be_Weight be = ref_weight (hb_BackendRef b) \<and> (be_UnavailableStatus be = 0 \<longleftrightarrow> servable env ns b)"
proof -
  let ?r = "hb_BackendRef b" and ?o = "ab_Ref (hb_BackendRef b)" and ?c = "resolveCommonBackendRef env (hb_BackendRef b) ns"
  from assms have w: "0 \<le> ref_weight ?r" by simp
  note cases = resolveCommonBackendRef_cases [of ?r env ns]
  have out: "backend_outcome env ns cc b = fst (convertBackendRef env b ns cc no_sink)" by (simp add: backend_outcome_def)
  consider (external) "IsExternalBackendRef ?o" | (invalid) "\<not> IsExternalBackendRef ?o" "\<not> valid_ref env ns ?o"
    | (resolved) "\<not> IsExternalBackendRef ?o" "valid_ref env ns ?o" by blast
  then show ?thesis
  proof cases
    case external
    have sv: "servable env ns b \<longleftrightarrow> permitted env ns ?o \<and> list_all supported_filter (hb_Filters b)"
      using external by (auto simp: servable_def valid_ref_def IsSupportedBackendRef_def)
    show ?thesis
      using external_outcome [OF assms] cases(2,5) [OF w] external
      by (simp add: out convertBackendRef_fst Let_def sv)
  next
    case invalid
    then have "\<not> servable env ns b" by (simp add: servable_def)
    then show ?thesis using cases(3) [OF w invalid] assms by (simp add: out convertBackendRef_fst Let_def)
  next
    case resolved
    obtain tls proto url ws fc where t: "transport_of env cc ?c = (tls, proto, url, ws, fc)" by (metis surj_pair)
    from cases(5) [OF w disjI2 [OF resolved(2)]] have "fc \<longleftrightarrow> lacks_tls_policy env ns ?o"
      by (intro transport_fails [OF t]) simp_all
    then show ?thesis
      using cases(4) [OF w resolved] cases(5) [OF w disjI2 [OF resolved(2)]] resolved
      by (simp add: out convertBackendRef_fst Let_def t list_ex_filter_outcome servable_def)
  qed
qed

lemma outcome_without_traffic:
  assumes "ref_weight (hb_BackendRef b) \<le> 0" and "snd (backend_outcome env ns cc b)"
  shows "be_Weight (fst (backend_outcome env ns cc b)) = 0"
proof -
  let ?r = "hb_BackendRef b" and ?o = "ab_Ref (hb_BackendRef b)" and ?c = "resolveCommonBackendRef env (hb_BackendRef b) ns"
  note cases = resolveCommonBackendRef_cases [of ?r env ns]
  have out: "backend_outcome env ns cc b = fst (convertBackendRef env b ns cc no_sink)" by (simp add: backend_outcome_def)
  show ?thesis
  proof (cases "ref_weight ?r < 0")
    case True
    with cases(1) assms(2) show ?thesis by (simp add: out convertBackendRef_fst Let_def)
  next
    case False
    with assms(1) have w: "ref_weight ?r = 0" "0 \<le> ref_weight ?r" by simp_all
    consider (external) "IsExternalBackendRef ?o" | (invalid) "\<not> IsExternalBackendRef ?o" "\<not> valid_ref env ns ?o"
      | (resolved) "\<not> IsExternalBackendRef ?o" "valid_ref env ns ?o" by blast
    then show ?thesis
    proof cases
      case external
      then show ?thesis using cases(2,5) [OF w(2)] assms(2) w
        by (simp add: out convertBackendRef_fst Let_def convertExternalBackendRef_def case_prod_beta
            applyBackendFilters_fst markInvalidBackend_def empty_backend_def split: if_splits)
    next
      case invalid
      then show ?thesis using cases(3) [OF w(2) invalid] assms(2) w by (simp add: out convertBackendRef_fst Let_def)
    next
      case resolved
      then show ?thesis using cases(4,5) [OF w(2)] w by (simp add: out convertBackendRef_fst Let_def case_prod_beta)
    qed
  qed
qed



section \<open>Validity\<close>

text \<open>What the schema of the API ensures of a match and of a filter.\<close>

definition api_match :: "HTTPRouteMatch \<Rightarrow> bool" where
  "api_match m \<longleftrightarrow>
     (\<forall>p. hrm_Path m = Some p \<longrightarrow> hpm_Value p \<noteq> None \<and> hpm_Value p \<noteq> Some '''')
     \<and> (\<forall>h \<in> set (hrm_Headers m). hhm_Name h \<noteq> '''') \<and> (\<forall>q \<in> set (hrm_QueryParams m). hqm_Name q \<noteq> '''')"

definition api_filter :: "HTTPRouteFilter \<Rightarrow> bool" where
  "api_filter f \<longleftrightarrow> (\<forall>c. hf_CORS f = Some c \<longrightarrow> 0 \<le> hcf_MaxAge c)"

definition api_rule :: "HTTPRouteRule \<Rightarrow> bool" where
  "api_rule r \<longleftrightarrow>
     (\<forall>m \<in> set (hrl_Matches r). api_match m) \<and> (\<forall>f \<in> set (hrl_Filters r). api_filter f)
     \<and> (\<forall>b \<in> set (hrl_BackendRefs r). \<forall>f \<in> set (hb_Filters b). api_filter f)"

lemma wf_match_convertMatch: "wf_match (convertMatch m) \<longleftrightarrow> api_match m"
proof -
  have p: "(\<forall>t. pm_Type (convertPathMatch p) \<noteq> PathMatchOther t) \<and> pm_Value (convertPathMatch p) \<noteq> '''' \<longleftrightarrow>
      hpm_Value p \<noteq> None \<and> hpm_Value p \<noteq> Some ''''" for p
    by (auto simp: convertPathMatch_def split: option.splits)
  have h: "(\<forall>t. hm_Type (convertHeaderMatch h) \<noteq> HeaderMatchOther t) \<and> hm_Name (convertHeaderMatch h) \<noteq> '''' \<longleftrightarrow> hhm_Name h \<noteq> ''''" for h
    by (simp add: convertHeaderMatch_def)
  have q: "(\<forall>t. qm_Type (convertQueryMatch h) \<noteq> QueryParamMatchOther t) \<and> qm_Name (convertQueryMatch h) \<noteq> '''' \<longleftrightarrow> hqm_Name h \<noteq> ''''" for h
    by (simp add: convertQueryMatch_def)
  show ?thesis
    unfolding wf_match_def api_match_def convertMatch_def RouteMatch.simps set_map ball_simps(9) h q
    by (cases "hrm_Path m") (simp_all add: p)
qed

lemma mirrorPercent_range [simp]: "case mirrorPercent m of None \<Rightarrow> True | Some p \<Rightarrow> 0 \<le> p \<and> p \<le> 100"
  by (simp add: mirrorPercent_def clampPercent_def Let_def split: option.splits)

lemma wf_filter_outcome:
  assumes "api_filter f" and "fst (filter_outcome env ns cc f) = Some g"
  shows "wf_filter g"
proof -
  have "wf_filter g" if "convertMirrorFilter env m ns cc no_sink = (Some g, s)" for m s
  proof -
    from that obtain x y where "validateMirrorBackendRef (the m) ns (ce_validator env) no_sink = (Some (x, y), s)"
      and g: "rf_Type g = FilterRequestMirror" "\<exists>c. rf_RequestMirror g = Some c \<and> mi_Percent c = mirrorPercent (the m)"
      by (auto simp: convertMirrorFilter_def empty_filter_def Let_def split: option.splits prod.splits)
    with g show ?thesis by (auto simp: wf_filter_def)
  qed
  with assms show ?thesis
    by (auto simp: filter_outcome_def convertFilter_def api_filter_def wf_filter_def empty_filter_def
        convertRequestHeaderFilter_def convertResponseHeaderFilter_def convertRedirectFilter_def convertURLRewriteFilter_def
        convertCORSFilter_def split: if_splits prod.splits)
qed

lemma buildServiceURL_not_empty: "buildServiceURL name ns port domain \<noteq> ''''"
  by (simp add: buildServiceURL_def Let_def)


lemma resolveBackendProtocol_known:
  "isKnownBackendProtocol (fst (fst (resolveBackendProtocol r ns n p u t s)))"
  by (cases r) (simp_all add: resolveBackendProtocol_def resolveH2C_def unpolicedTLSAppProtocol_def isKnownBackendProtocol_def Let_def)

lemma replace_first_not_empty: "s \<noteq> '''' \<Longrightarrow> new \<noteq> '''' \<Longrightarrow> replace_first s old new \<noteq> ''''"
  by (simp add: replace_first_def split: option.splits prod.splits)

lemma resolveBackendProtocol_url:
  "u \<noteq> '''' \<Longrightarrow> fst (snd (fst (resolveBackendProtocol r ns n p u t s))) \<noteq> ''''"
  by (cases r) (simp_all add: resolveBackendProtocol_def resolveH2C_def unpolicedTLSAppProtocol_def Let_def replace_first_not_empty)

lemma transport_wf:
  assumes "transport_of env cc c = (tls, proto, url, ws, fc)" and "be_URL (rb_backend c) \<noteq> ''''"
  shows "isKnownBackendProtocol proto" and "url \<noteq> ''''"
proof -
  obtain t u where t: "resolveBackendTLS (ce_tlsResolver env) (rb_svcNamespace c) (rb_serviceName c) (rb_port c)
      (be_URL (rb_backend c)) = (t, u)" by (metis surj_pair)
  then have u: "u \<noteq> ''''" using assms(2) by (auto simp: resolveBackendTLS_def forceHTTPSScheme_def split: option.splits)
  have r: "fst (resolveBackendProtocol (ce_protocolResolver env) (rb_svcNamespace c) (rb_serviceName c) (rb_port c) u
      (t \<noteq> None) no_sink) = (proto, url, ws, fc)"
    using assms(1) by (simp add: transport_of_def t)
  show "isKnownBackendProtocol proto"
    using resolveBackendProtocol_known [of "ce_protocolResolver env" "rb_svcNamespace c" "rb_serviceName c" "rb_port c" u
        "t \<noteq> None" no_sink] unfolding r by simp
  show "url \<noteq> ''''"
    using resolveBackendProtocol_url [OF u, of "ce_protocolResolver env" "rb_svcNamespace c" "rb_serviceName c" "rb_port c"
        "t \<noteq> None" no_sink] unfolding r by simp
qed

lemma wf_backend_outcome:
  assumes "\<forall>f \<in> set (hb_Filters b). api_filter f" and "backend_outcome env ns cc b = (be, True)"
  shows "wf_backend be"
proof -
  let ?r = "hb_BackendRef b" and ?o = "ab_Ref (hb_BackendRef b)" and ?c = "resolveCommonBackendRef env (hb_BackendRef b) ns"
  note cases = resolveCommonBackendRef_cases [of ?r env ns]
  have fs: "wf_filter g" if "g \<in> set (List.map_filter (\<lambda>f. fst (filter_outcome env ns cc f)) (hb_Filters b))" for g
    using that assms(1) wf_filter_outcome by (auto simp: List.map_filter_def)
  have out: "backend_outcome env ns cc b = fst (convertBackendRef env b ns cc no_sink)" by (simp add: backend_outcome_def)
  have marked: "wf_backend be" if "markInvalidBackend w n sns p d = (be, True)" for w n sns p d
    using that by (auto simp: markInvalidBackend_def wf_backend_def empty_backend_def isKnownBackendProtocol_def Let_def
        buildServiceURL_not_empty split: if_splits)
  have w: "0 \<le> ref_weight ?r" using cases(1) assms(2) by (force simp: out convertBackendRef_fst Let_def)
  consider (external) "IsExternalBackendRef ?o" | (invalid) "\<not> IsExternalBackendRef ?o" "\<not> valid_ref env ns ?o"
    | (resolved) "\<not> IsExternalBackendRef ?o" "valid_ref env ns ?o" by blast
  then show ?thesis
  proof cases
    case external
    then have "fst (convertExternalBackendRef env (ref_weight ?r) b ns (target_namespace ns ?o) (bo_Name ?o) cc no_sink) = (be, True)"
      using cases(2,5) [OF w] assms(2) by (simp add: out convertBackendRef_fst Let_def)
    then consider "markInvalidBackend (ref_weight ?r) (bo_Name ?o) (target_namespace ns ?o) defaultServicePort (ce_clusterDomain env) = (be, True)"
      | "be = fst (applyBackendFilters env (empty_backend \<lparr> be_Weight := ref_weight ?r,
          be_URL := ExternalBackendSentinelURL (target_namespace ns ?o) (bo_Name ?o) \<rparr>) (hb_Filters b) ns cc no_sink)"
      by (auto simp: convertExternalBackendRef_def case_prod_beta split: if_splits)
    then show ?thesis
    proof cases
      case 2
      then show ?thesis
        unfolding applyBackendFilters_fst using w fs
        by (simp add: wf_backend_def empty_backend_def isKnownBackendProtocol_def ExternalBackendSentinelURL_def)
    qed (rule marked)
  next
    case invalid
    then have b: "(rb_backend ?c, rb_keep ?c) = (be, True)" "rb_outcome ?c = backendRefFinal"
      using cases(3) [OF w invalid] assms(2) by (simp_all add: out convertBackendRef_fst Let_def)
    then have "markInvalidBackend (ref_weight ?r) (bo_Name ?o) (target_namespace ns ?o) (target_port ?o) (ce_clusterDomain env) = (be, True)"
      unfolding resolveCommonBackendRef_def validateCommonBackendRef_def Let_def ref_weight_def [symmetric]
        target_namespace_def [symmetric] target_port_def [symmetric] defaultServicePort_def
      by (simp add: case_prod_beta prod_eq_iff split: if_splits)
    then show ?thesis by (rule marked)
  next
    case resolved
    obtain tls proto url ws fc where t: "transport_of env cc ?c = (tls, proto, url, ws, fc)" by (metis surj_pair)
    have "be_URL (rb_backend ?c) \<noteq> ''''" using cases(4) [OF w resolved] by (simp add: buildServiceURL_not_empty)
    note ok = transport_wf [OF t this]
    have res: "rb_outcome ?c = backendRefResolved" using cases(4) [OF w resolved] by blast
    have "be = rb_backend ?c \<lparr> be_TLS := tls, be_URL := url, be_Protocol := proto, be_WebSocket := ws,
        be_Filters := List.map_filter (\<lambda>f. fst (filter_outcome env ns cc f)) (hb_Filters b),
        be_UnavailableStatus := (if list_ex (\<lambda>f. snd (filter_outcome env ns cc f)) (hb_Filters b) then 500
                                 else if fc then 502 else 0) \<rparr>"
      using assms(2) unfolding out convertBackendRef_fst Let_def res backendRefOutcome.case t prod.case by simp
    moreover have "be_Weight (rb_backend ?c) = ref_weight ?r" using cases(5) [OF w disjI2 [OF resolved(2)]] by blast
    ultimately show ?thesis using ok fs w unfolding wf_backend_def by simp
  qed
qed

lemma kept_backend:
  assumes "be \<in> set (rule_Backends (converted_rule env h ns cc rule))"
  obtains b where "b \<in> set (hrl_BackendRefs rule)" "backend_outcome env ns cc b = (be, True)"
proof -
  from assms obtain b where "b \<in> set (hrl_BackendRefs rule)" "fst (backend_outcome env ns cc b) = be"
    "snd (backend_outcome env ns cc b)" by (auto simp: converted_rule_def)
  then show thesis using that by (metis prod.collapse)
qed

text \<open>What the controller pushes, the proxy accepts. The configuration converted from routes that satisfy the
  schema of the API passes the proxy's validation.\<close>

theorem converted_config_is_valid:
  assumes "0 \<le> version" and "\<forall>route \<in> set routes. \<forall>rule \<in> set (rt_Rules route). api_rule rule"
  shows "Config_Validate (ConvertHTTPRoutes env version routes) = None"
proof -
  have "wf_rule (route_rule env route rule)" if "api_rule rule" for route rule
  proof -
    have "wf_backend be" if "be \<in> set (rule_Backends (converted_rule env h ns cc rule))" for be h ns cc
    proof -
      from that obtain b where b: "b \<in> set (hrl_BackendRefs rule)" "backend_outcome env ns cc b = (be, True)"
        by (rule kept_backend)
      with \<open>api_rule rule\<close> have "\<forall>f \<in> set (hb_Filters b). api_filter f" by (simp add: api_rule_def)
      then show ?thesis using b(2) by (rule wf_backend_outcome)
    qed
    moreover have "wf_filter g" if "g \<in> set (rule_Filters (converted_rule env h ns cc rule))" for g h ns cc
      using that \<open>api_rule rule\<close> wf_filter_outcome by (auto simp: converted_rule_def api_rule_def List.map_filter_def)
    moreover have "\<forall>m \<in> set (rule_Matches (converted_rule env h ns cc rule)). wf_match m" for h ns cc
      using \<open>api_rule rule\<close> by (simp add: converted_rule_def api_rule_def wf_match_convertMatch)
    ultimately show ?thesis by (simp add: wf_rule_def route_rule_def)
  qed
  with assms show ?thesis
    by (auto simp: Config_Validate_iff wf_config_def ConvertHTTPRoutes_rules sortRoutesByPrecedence_def)
qed


section \<open>Destinations\<close>

definition service_address :: "ConverterEnv \<Rightarrow> string \<Rightarrow> BackendObjectReference \<Rightarrow> string" where
  "service_address env ns ref =
     bo_Name ref @ ''.'' @ target_namespace ns ref @ ''.svc.'' @ trim_suffix (backendDomain ref (ce_clusterDomain env)) ''.''
     @ '':'' @ itoa (target_port ref)"

text \<open>The addresses that stand for the object a reference names.\<close>

definition addresses :: "ConverterEnv \<Rightarrow> string \<Rightarrow> BackendObjectReference \<Rightarrow> string set" where
  "addresses env ns ref =
     (if IsExternalBackendRef ref then {ExternalBackendSentinelURL (target_namespace ns ref) (bo_Name ref)}
      else {''http://'' @ service_address env ns ref, ''https://'' @ service_address env ns ref})"

lemma buildServiceURL_address:
  "buildServiceURL (bo_Name ref) (target_namespace ns ref) (target_port ref) (backendDomain ref (ce_clusterDomain env))
     \<in> {''http://'' @ service_address env ns ref, ''https://'' @ service_address env ns ref}"
  by (simp add: buildServiceURL_def service_address_def Let_def)

lemma forceHTTPSScheme_address: "u \<in> {''http://'' @ a, ''https://'' @ a} \<Longrightarrow> forceHTTPSScheme u = ''https://'' @ a"
  by (auto simp: forceHTTPSScheme_def cut_prefix_def has_prefix_def)

lemma str_cut_none: "c \<in> set sep \<Longrightarrow> c \<notin> set s \<Longrightarrow> str_cut s sep = None"
proof (induction s)
  case (Cons x s)
  have "\<not> has_prefix (x # s) sep"
  proof
    assume "has_prefix (x # s) sep"
    then obtain r where "x # s = sep @ r" by (auto simp: has_prefix_iff)
    then have "set sep \<subseteq> set (x # s)" by auto
    with Cons.prems show False by auto
  qed
  with Cons show ?case by simp
qed auto

lemma replace_first_address:
  assumes "u \<in> {''http://'' @ a, ''https://'' @ a}" and "CHR ''/'' \<notin> set a"
  shows "replace_first u ''https://'' ''http://'' = ''http://'' @ a"
proof -
  have n: "str_cut a ''https://'' = None" using assms(2) by (intro str_cut_none [of "CHR ''/''"]) simp_all
  from assms(1) show ?thesis
    by (auto simp: replace_first_def has_prefix_def n)
qed

lemma transport_address:
  assumes "transport_of env cc c = (tls, proto, url, ws, fc)" and "be_URL (rb_backend c) \<in> {''http://'' @ a, ''https://'' @ a}"
    and "CHR ''/'' \<notin> set a"
  shows "url \<in> {''http://'' @ a, ''https://'' @ a}"
proof -
  obtain t u where t: "resolveBackendTLS (ce_tlsResolver env) (rb_svcNamespace c) (rb_serviceName c) (rb_port c)
      (be_URL (rb_backend c)) = (t, u)" by (metis surj_pair)
  then have u: "u \<in> {''http://'' @ a, ''https://'' @ a}"
    using assms(2) forceHTTPSScheme_address [OF assms(2)] by (auto simp: resolveBackendTLS_def split: option.splits)
  have "fst (snd (fst (resolveBackendProtocol r ns n p u b s))) \<in> {u, replace_first u ''https://'' ''http://''}" for r ns n p b s
    by (cases r) (simp_all add: resolveBackendProtocol_def resolveH2C_def unpolicedTLSAppProtocol_def Let_def)
  moreover have "fst (snd (fst (resolveBackendProtocol (ce_protocolResolver env) (rb_svcNamespace c) (rb_serviceName c)
      (rb_port c) u (t \<noteq> None) no_sink))) = url"
    using assms(1) by (simp add: transport_of_def t)
  ultimately have "url \<in> {u, replace_first u ''https://'' ''http://''}" by metis
  with u replace_first_address [OF u assms(3)] show ?thesis by auto
qed

lemma dialled_backend_permitted:
  assumes "backend_outcome env ns cc b = (be, True)" and "be_UnavailableStatus be = 0"
    and "CHR ''/'' \<notin> set (service_address env ns (ab_Ref (hb_BackendRef b)))"
  shows "permitted env ns (ab_Ref (hb_BackendRef b)) \<and> be_URL be \<in> addresses env ns (ab_Ref (hb_BackendRef b))"
proof -
  let ?r = "hb_BackendRef b" and ?o = "ab_Ref (hb_BackendRef b)" and ?c = "resolveCommonBackendRef env (hb_BackendRef b) ns"
  note cases = resolveCommonBackendRef_cases [of ?r env ns]
  have out: "fst (convertBackendRef env b ns cc no_sink) = (be, True)" using assms(1) by (simp add: backend_outcome_def)
  have w: "0 \<le> ref_weight ?r" using cases(1) out by (force simp: convertBackendRef_fst Let_def)
  consider (external) "IsExternalBackendRef ?o" | (invalid) "\<not> IsExternalBackendRef ?o" "\<not> valid_ref env ns ?o"
    | (resolved) "\<not> IsExternalBackendRef ?o" "valid_ref env ns ?o" by blast
  then show ?thesis
  proof cases
    case external
    then have "fst (convertExternalBackendRef env (ref_weight ?r) b ns (target_namespace ns ?o) (bo_Name ?o) cc no_sink) = (be, True)"
      using cases(2,5) [OF w] out by (simp add: convertBackendRef_fst Let_def)
    with external assms(2) show ?thesis
      by (auto simp: convertExternalBackendRef_def case_prod_beta validateCrossNamespace_permitted applyBackendFilters_fst
          addresses_def markInvalidBackend_def Let_def split: if_splits)
  next
    case invalid
    have "ref_weight ?r \<noteq> 0" "be = rb_backend ?c"
      using cases(3) [OF w invalid] out by (auto simp: convertBackendRef_fst Let_def)
    then show ?thesis using cases(3) [OF w invalid] assms(2) w by auto
  next
    case resolved
    obtain tls proto url ws fc where t: "transport_of env cc ?c = (tls, proto, url, ws, fc)" by (metis surj_pair)
    have res: "rb_outcome ?c = backendRefResolved" using cases(4) [OF w resolved] by blast
    have "be_URL (rb_backend ?c) \<in> {''http://'' @ service_address env ns ?o, ''https://'' @ service_address env ns ?o}"
      using cases(4) [OF w resolved] buildServiceURL_address [of ?o ns env] by metis
    from transport_address [OF t this assms(3)] have url: "url \<in> addresses env ns ?o"
      using resolved(1) by (simp add: addresses_def)
    have "be_URL be = url"
      using out unfolding convertBackendRef_fst Let_def res backendRefOutcome.case t prod.case by auto
    with url resolved(2) show ?thesis by (simp add: valid_ref_def)
  qed
qed


text \<open>C28: no route reaches past its grants. Every backend of a converted rule to which a request can be sent stands
  for a backend reference of that rule which stays in the namespace of its route or which a ReferenceGrant permits, and
  its address is the address of the object that reference names. Names of the cluster have no slash.\<close>

theorem only_granted_destinations:
  assumes "route \<in> set routes" and "rule \<in> set (rt_Rules route)"
    and "be \<in> set (rule_Backends (route_rule env route rule))" and "be_UnavailableStatus be = 0"
    and "\<forall>ref \<in> set (hrl_BackendRefs rule). CHR ''/'' \<notin> set (service_address env (rt_Namespace route) (ab_Ref (hb_BackendRef ref)))"
  shows "route_rule env route rule \<in> set (cfg_Rules (ConvertHTTPRoutes env version routes))
    \<and> (\<exists>ref \<in> set (hrl_BackendRefs rule). permitted env (rt_Namespace route) (ab_Ref (hb_BackendRef ref))
          \<and> be_URL be \<in> addresses env (rt_Namespace route) (ab_Ref (hb_BackendRef ref)))"
proof -
  from assms(3) obtain b where b: "b \<in> set (hrl_BackendRefs rule)" "backend_outcome env (rt_Namespace route)
      (resolveFirstParentClientCertFromRefs (rt_ParentRefs route) (rt_Namespace route) (ce_certResolver env)) b = (be, True)"
    unfolding route_rule_def by (rule kept_backend)
  with dialled_backend_permitted [OF b(2) assms(4)] assms(5)
  have "\<exists>ref \<in> set (hrl_BackendRefs rule). permitted env (rt_Namespace route) (ab_Ref (hb_BackendRef ref))
          \<and> be_URL be \<in> addresses env (rt_Namespace route) (ab_Ref (hb_BackendRef ref))" by blast
  moreover have "route_rule env route rule \<in> set (cfg_Rules (ConvertHTTPRoutes env version routes))"
    using assms(1,2) by (auto simp: ConvertHTTPRoutes_rules sortRoutesByPrecedence_def)
  ultimately show ?thesis by blast
qed

text \<open>A route with a granted reference to a Service of another namespace.\<close>

definition example_ref :: HTTPBackendRef where
  "example_ref = \<lparr> hb_BackendRef = \<lparr> ab_Ref = \<lparr> bo_Group = None, bo_Kind = None, bo_Name = ''web'', bo_Namespace = Some ''b'',
     bo_Port = Some 80 \<rparr>, ab_Weight = Some 3 \<rparr>, hb_Filters = [] \<rparr>"

definition example_rule :: HTTPRouteRule where
  "example_rule = \<lparr> hrl_Matches = [\<lparr> hrm_Path = Some \<lparr> hpm_Type = Some ''PathPrefix'', hpm_Value = Some ''/shop'' \<rparr>,
     hrm_Headers = [], hrm_QueryParams = [], hrm_Method = None \<rparr>],
     hrl_Filters = [], hrl_BackendRefs = [example_ref], hrl_Timeouts = None \<rparr>"

definition example_route :: HTTPRoute where
  "example_route = \<lparr> rt_Namespace = ''a'', rt_Name = ''r'', rt_Kind = ''HTTPRoute'', rt_Created = 0,
     rt_Hostnames = [''a.com''], rt_ParentRefs = [], rt_Rules = [example_rule] \<rparr>"

definition example_env :: ConverterEnv where
  "example_env = \<lparr> ce_clusterDomain = ''cluster.local'', ce_validator = Some (\<lambda>ns ref. True), ce_protocolResolver = None,
     ce_tlsResolver = None, ce_certResolver = None, ce_parseDuration = \<lambda>s. Inr 0 \<rparr>"

lemmas example_defs = example_ref_def example_rule_def example_route_def example_env_def

definition example_backend :: BackendRef where
  "example_backend = fst (backend_outcome example_env ''a'' None example_ref)"

theorem only_granted_destinations_witness:
  "route_rule example_env example_route example_rule \<in> set (cfg_Rules (ConvertHTTPRoutes example_env 4 [example_route]))
    \<and> (\<exists>ref \<in> set (hrl_BackendRefs example_rule). permitted example_env (rt_Namespace example_route) (ab_Ref (hb_BackendRef ref))
          \<and> be_URL example_backend \<in> addresses example_env (rt_Namespace example_route) (ab_Ref (hb_BackendRef ref)))"
  by (rule only_granted_destinations) code_simp+

end
