(* ===== verification/GrpcConverter.thy ===== *)
theory GrpcConverter
  imports ConverterSpec Matcher
begin

text \<open>
  Translation of GRPCRoutes into the proxy's configuration (\<^verbatim>\<open>src/internal/proxy/grpc_converter.go\<close>). The flattening of
  the routes and the shared half of the backend resolution are those of \<^verbatim>\<open>Converter\<close>.
\<close>

section \<open>Matches\<close>

definition derefString :: "string option \<Rightarrow> string" where
  "derefString s = (case s of None \<Rightarrow> '''' | Some v \<Rightarrow> v)"

definition grpcSegmentPattern :: string where
  "grpcSegmentPattern = ''[^/]+''"

text \<open>The metacharacters \<^verbatim>\<open>regexp.QuoteMeta\<close> escapes; character 92 is the backslash.\<close>

definition quote_meta :: "string \<Rightarrow> string" where
  "quote_meta s = concat (map (\<lambda>c. if c \<in> set (CHR 92 # ''.+*?()|[]{}^$'') then [CHR 92, c] else [c]) s)"

definition grpcMethodToPath :: "GRPCMethodMatch option \<Rightarrow> PathMatch option" where
  "grpcMethodToPath methodOpt =
     (case methodOpt of
        None \<Rightarrow> None
      | Some method \<Rightarrow>
          (let service = derefString (gmm_Service method); meth = derefString (gmm_Method method) in
           if service = '''' \<and> meth = '''' then None
           else if gmm_Type method = Some ''RegularExpression''
           then (let svcPattern = (if service = '''' then grpcSegmentPattern else service);
                     methPattern = (if meth = '''' then grpcSegmentPattern else meth) in
                 Some \<lparr> pm_Type = PathMatchRegularExpression,
                        pm_Value = ''^/(?:'' @ svcPattern @ '')/(?:'' @ methPattern @ '')$'' \<rparr>)
           else if service \<noteq> '''' \<and> meth \<noteq> ''''
           then Some \<lparr> pm_Type = PathMatchExact, pm_Value = ''/'' @ service @ ''/'' @ meth \<rparr>
           else if service \<noteq> '''' \<and> meth = ''''
           then Some \<lparr> pm_Type = PathMatchPathPrefix, pm_Value = ''/'' @ service @ ''/'' \<rparr>
           else Some \<lparr> pm_Type = PathMatchRegularExpression,
                       pm_Value = ''^/'' @ grpcSegmentPattern @ ''/'' @ quote_meta meth @ ''$'' \<rparr>))"

definition convertGRPCHeaderMatch :: "GRPCHeaderMatch \<Rightarrow> HeaderMatch" where
  "convertGRPCHeaderMatch header =
     \<lparr> hm_Type = (if ghm_Type header = Some ''RegularExpression'' then HeaderMatchRegularExpression else HeaderMatchExact),
       hm_Name = ghm_Name header, hm_Value = ghm_Value header \<rparr>"

definition convertGRPCMatch :: "GRPCRouteMatch \<Rightarrow> RouteMatch option" where
  "convertGRPCMatch match =
     (let path = grpcMethodToPath (grm_Method match); headers = map convertGRPCHeaderMatch (grm_Headers match) in
      if path = None \<and> headers = [] then None
      else Some \<lparr> rm_Path = path, rm_Headers = headers, rm_QueryParams = [], rm_Method = '''' \<rparr>)"

section \<open>Filters\<close>

definition convertGRPCFilter :: "GRPCRouteFilter \<Rightarrow> bool \<Rightarrow> diagSink \<Rightarrow> (RouteFilter option \<times> bool) \<times> diagSink" where
  "convertGRPCFilter routeFilter ruleScope sink =
     (if gfl_Type routeFilter = ''RequestHeaderModifier''
      then ((convertRequestHeaderFilter (gfl_RequestHeaderModifier routeFilter), False), sink)
      else if gfl_Type routeFilter = ''ResponseHeaderModifier''
      then ((convertResponseHeaderFilter (gfl_ResponseHeaderModifier routeFilter), False), sink)
      else ((None, True), diagSink_add DiagnosticAccepted ''UnsupportedValue'' ruleScope sink))"

fun convert_grpc_filters :: "bool \<Rightarrow> GRPCRouteFilter list \<Rightarrow> diagSink \<Rightarrow> (RouteFilter list \<times> bool) \<times> diagSink" where
  "convert_grpc_filters ruleScope [] sink = (([], False), sink)"
| "convert_grpc_filters ruleScope (f # fs) sink =
     (case convertGRPCFilter f ruleScope sink of
        ((converted, failClosed), sink) \<Rightarrow>
          (case convert_grpc_filters ruleScope fs sink of
             ((rest, restFailClosed), sink) \<Rightarrow>
               (((case converted of None \<Rightarrow> rest | Some c \<Rightarrow> c # rest), failClosed \<or> restFailClosed), sink)))"

definition applyGRPCBackendFilters :: "BackendRef \<Rightarrow> GRPCRouteFilter list \<Rightarrow> diagSink \<Rightarrow> BackendRef \<times> diagSink" where
  "applyGRPCBackendFilters result filters sink =
     (case convert_grpc_filters False filters sink of
        ((fs, failClosed), sink) \<Rightarrow>
          (let result = result \<lparr> be_Filters := be_Filters result @ fs \<rparr> in
           (if failClosed then result \<lparr> be_UnavailableStatus := 500 \<rparr> else result, sink)))"

section \<open>Backends\<close>

definition applyGRPCBackendTransport ::
    "ConverterEnv \<Rightarrow> BackendRef \<Rightarrow> ClientCertConfig option \<Rightarrow> string \<Rightarrow> string \<Rightarrow> int \<Rightarrow> diagSink \<Rightarrow> BackendRef \<times> diagSink" where
  "applyGRPCBackendTransport env result clientCert svcNamespace serviceName port sink =
     (case resolveBackendTLS (ce_tlsResolver env) svcNamespace serviceName port (be_URL result) of
        (tls, url) \<Rightarrow>
          (let result = result \<lparr> be_TLS := attachGatewayClientCert tls clientCert, be_URL := url \<rparr> in
           if be_TLS result \<noteq> None then (result, sink)
           else if isTLSAppProtocol (lookupAppProtocol (ce_protocolResolver env) svcNamespace serviceName port)
           then (result \<lparr> be_UnavailableStatus := 502 \<rparr>, snd (unpolicedTLSAppProtocol False sink))
           else (result \<lparr> be_URL := replace_first (be_URL result) ''https://'' ''http://'', be_Protocol := BackendProtocolH2C \<rparr>,
                 sink)))"

definition convertGRPCExternalBackendRef ::
    "ConverterEnv \<Rightarrow> int \<Rightarrow> GRPCBackendRef \<Rightarrow> string \<Rightarrow> string \<Rightarrow> string \<Rightarrow> diagSink \<Rightarrow> (BackendRef \<times> bool) \<times> diagSink" where
  "convertGRPCExternalBackendRef env weight backend namespace svcNamespace serviceName sink =
     (if \<not> validateCrossNamespace svcNamespace namespace (ab_Ref (gb_BackendRef backend)) (ce_validator env)
      then (markInvalidBackend weight serviceName svcNamespace defaultServicePort (ce_clusterDomain env), sink)
      else (case applyGRPCBackendFilters
                   (empty_backend \<lparr> be_Weight := weight, be_URL := ExternalBackendSentinelURL svcNamespace serviceName,
                      be_Protocol := BackendProtocolH2C \<rparr>)
                   (gb_Filters backend) sink of
              (result, sink) \<Rightarrow> ((result, True), sink)))"

definition convertGRPCBackendRef ::
    "ConverterEnv \<Rightarrow> GRPCBackendRef \<Rightarrow> string \<Rightarrow> ClientCertConfig option \<Rightarrow> diagSink \<Rightarrow> (BackendRef \<times> bool) \<times> diagSink" where
  "convertGRPCBackendRef env backend namespace clientCert sink =
     (let common = resolveCommonBackendRef env (gb_BackendRef backend) namespace in
      case rb_outcome common of
        backendRefDropped \<Rightarrow> ((empty_backend, False), sink)
      | backendRefFinal \<Rightarrow> ((rb_backend common, rb_keep common), sink)
      | backendRefExternal \<Rightarrow>
          convertGRPCExternalBackendRef env (be_Weight (rb_backend common)) backend namespace (rb_svcNamespace common)
            (rb_serviceName common) sink
      | backendRefResolved \<Rightarrow>
          (case applyGRPCBackendFilters (rb_backend common) (gb_Filters backend) sink of
             (result, sink) \<Rightarrow>
               (case applyGRPCBackendTransport env result clientCert (rb_svcNamespace common) (rb_serviceName common)
                       (rb_port common) sink of
                  (result, sink) \<Rightarrow> ((result, True), sink))))"

section \<open>Rules and routes\<close>

fun convert_grpc_backends ::
    "ConverterEnv \<Rightarrow> string \<Rightarrow> ClientCertConfig option \<Rightarrow> GRPCBackendRef list \<Rightarrow> diagSink \<Rightarrow> BackendRef list \<times> diagSink" where
  "convert_grpc_backends env namespace clientCert [] sink = ([], sink)"
| "convert_grpc_backends env namespace clientCert (b # bs) sink =
     (case convertGRPCBackendRef env b namespace clientCert sink of
        ((backend, keep), sink) \<Rightarrow>
          (case convert_grpc_backends env namespace clientCert bs sink of
             (rest, sink) \<Rightarrow> (if keep then backend # rest else rest, sink)))"

definition convertGRPCRouteRule ::
    "ConverterEnv \<Rightarrow> GRPCRouteRule \<Rightarrow> string list \<Rightarrow> string \<Rightarrow> ClientCertConfig option \<Rightarrow> diagSink \<Rightarrow> RouteRule \<times> diagSink" where
  "convertGRPCRouteRule env rule hostnames namespace clientCert sink =
     (case convert_grpc_filters True (grl_Filters rule) sink of
        ((filters, failClosed), sink) \<Rightarrow>
          (case convert_grpc_backends env namespace clientCert (grl_BackendRefs rule) sink of
             (backends, sink) \<Rightarrow>
               (\<lparr> rule_Hostnames = hostnames, rule_Matches = List.map_filter convertGRPCMatch (grl_Matches rule),
                  rule_Filters = filters, rule_Backends = backends, rule_Timeouts = None,
                  rule_UnavailableStatus = (if failClosed then 500 else 0) \<rparr>, sink)))"

definition ConvertGRPCRoutes :: "ConverterEnv \<Rightarrow> int \<Rightarrow> GRPCRoute list \<Rightarrow> Config" where
  "ConvertGRPCRoutes env version routes =
     convertRoutesGeneric ''GRPCRoute'' version (ce_certResolver env) (convertGRPCRouteRule env) routes"


section \<open>Results do not depend on the diagnostics\<close>

definition grpc_filter_outcome :: "GRPCRouteFilter \<Rightarrow> RouteFilter option \<times> bool" where
  "grpc_filter_outcome f = fst (convertGRPCFilter f True no_sink)"

definition grpc_supported_filter :: "GRPCRouteFilter \<Rightarrow> bool" where
  "grpc_supported_filter f \<longleftrightarrow> gfl_Type f \<in> {''RequestHeaderModifier'', ''ResponseHeaderModifier''}"

lemma convertGRPCFilter_fst: "fst (convertGRPCFilter f sc s) = grpc_filter_outcome f"
  by (simp add: grpc_filter_outcome_def convertGRPCFilter_def)

lemma snd_grpc_filter_outcome: "snd (grpc_filter_outcome f) \<longleftrightarrow> \<not> grpc_supported_filter f"
  by (simp add: grpc_filter_outcome_def convertGRPCFilter_def grpc_supported_filter_def)

lemma convert_grpc_filters_fst:
  "fst (convert_grpc_filters sc fs s) =
     (List.map_filter (\<lambda>f. fst (grpc_filter_outcome f)) fs, \<not> list_all grpc_supported_filter fs)"
proof (induction fs arbitrary: s)
  case (Cons f fs)
  obtain c b s' where c: "convertGRPCFilter f sc s = ((c, b), s')" by (metis surj_pair)
  obtain r rb s'' where r: "convert_grpc_filters sc fs s' = ((r, rb), s'')" by (metis surj_pair)
  have "grpc_filter_outcome f = (c, b)" using c convertGRPCFilter_fst [of f sc s] by simp
  moreover from this have "b \<longleftrightarrow> \<not> grpc_supported_filter f" using snd_grpc_filter_outcome [of f] by simp
  moreover note Cons [of s'] c r
  ultimately show ?case by (cases c) (auto simp: List.map_filter_def)
qed (simp add: List.map_filter_def)

lemma applyGRPCBackendFilters_fst:
  "fst (applyGRPCBackendFilters b fs s) =
     b \<lparr> be_Filters := be_Filters b @ List.map_filter (\<lambda>f. fst (grpc_filter_outcome f)) fs,
         be_UnavailableStatus := (if list_all grpc_supported_filter fs then be_UnavailableStatus b else 500) \<rparr>"
  using convert_grpc_filters_fst [of False fs s]
  by (simp add: applyGRPCBackendFilters_def case_prod_beta Let_def)

definition grpc_transport :: "ConverterEnv \<Rightarrow> ClientCertConfig option \<Rightarrow> resolvedBackendRef \<Rightarrow> BackendRef \<Rightarrow> BackendRef" where
  "grpc_transport env cc c b =
     fst (applyGRPCBackendTransport env b cc (rb_svcNamespace c) (rb_serviceName c) (rb_port c) no_sink)"

lemma attachGatewayClientCert_no_tls [simp]: "attachGatewayClientCert None cc = None"
  by simp

lemma applyGRPCBackendTransport_fst:
  "fst (applyGRPCBackendTransport env b cc (rb_svcNamespace c) (rb_serviceName c) (rb_port c) s) = grpc_transport env cc c b"
  by (simp add: grpc_transport_def applyGRPCBackendTransport_def case_prod_beta Let_def)

definition grpc_backend_outcome ::
    "ConverterEnv \<Rightarrow> string \<Rightarrow> ClientCertConfig option \<Rightarrow> GRPCBackendRef \<Rightarrow> BackendRef \<times> bool" where
  "grpc_backend_outcome env ns cc b = fst (convertGRPCBackendRef env b ns cc no_sink)"

lemma convertGRPCBackendRef_fst:
  "fst (convertGRPCBackendRef env b ns cc s) =
     (let common = resolveCommonBackendRef env (gb_BackendRef b) ns in
      case rb_outcome common of
        backendRefDropped \<Rightarrow> (empty_backend, False)
      | backendRefFinal \<Rightarrow> (rb_backend common, rb_keep common)
      | backendRefExternal \<Rightarrow>
          fst (convertGRPCExternalBackendRef env (be_Weight (rb_backend common)) b ns (rb_svcNamespace common)
            (rb_serviceName common) no_sink)
      | backendRefResolved \<Rightarrow>
          (grpc_transport env cc common (fst (applyGRPCBackendFilters (rb_backend common) (gb_Filters b) no_sink)), True))"
  by (simp add: convertGRPCBackendRef_def Let_def case_prod_beta applyGRPCBackendTransport_fst applyGRPCBackendFilters_fst
      convertGRPCExternalBackendRef_def split: backendRefOutcome.split)

lemma convert_grpc_backends_fst:
  "fst (convert_grpc_backends env ns cc bs s) = map fst (filter snd (map (grpc_backend_outcome env ns cc) bs))"
proof (induction bs arbitrary: s)
  case (Cons b bs)
  have "fst (convertGRPCBackendRef env b ns cc s) = grpc_backend_outcome env ns cc b"
    by (simp only: grpc_backend_outcome_def convertGRPCBackendRef_fst)
  with Cons show ?case by (simp add: case_prod_beta)
qed simp

definition converted_grpc_rule ::
    "ConverterEnv \<Rightarrow> string list \<Rightarrow> string \<Rightarrow> ClientCertConfig option \<Rightarrow> GRPCRouteRule \<Rightarrow> RouteRule" where
  "converted_grpc_rule env hostnames ns cc rule =
     \<lparr> rule_Hostnames = hostnames, rule_Matches = List.map_filter convertGRPCMatch (grl_Matches rule),
       rule_Filters = List.map_filter (\<lambda>f. fst (grpc_filter_outcome f)) (grl_Filters rule),
       rule_Backends = map fst (filter snd (map (grpc_backend_outcome env ns cc) (grl_BackendRefs rule))),
       rule_Timeouts = None,
       rule_UnavailableStatus = (if list_all grpc_supported_filter (grl_Filters rule) then 0 else 500) \<rparr>"

lemma convertGRPCRouteRule_fst:
  "fst (convertGRPCRouteRule env rule hostnames ns cc s) = converted_grpc_rule env hostnames ns cc rule"
  using convert_grpc_filters_fst [of True "grl_Filters rule" s]
  by (simp add: convertGRPCRouteRule_def converted_grpc_rule_def case_prod_beta convert_grpc_backends_fst)


section \<open>Traffic and transport\<close>

definition grpc_servable :: "ConverterEnv \<Rightarrow> string \<Rightarrow> GRPCBackendRef \<Rightarrow> bool" where
  "grpc_servable env ns b \<longleftrightarrow>
     valid_ref env ns (ab_Ref (gb_BackendRef b)) \<and> list_all grpc_supported_filter (gb_Filters b)
     \<and> (IsExternalBackendRef (ab_Ref (gb_BackendRef b)) \<or> \<not> lacks_tls_policy env ns (ab_Ref (gb_BackendRef b)))"

text \<open>HTTP/2: in clear text with prior knowledge, or negotiated inside TLS.\<close>

definition http2_transport :: "BackendRef \<Rightarrow> bool" where
  "http2_transport be \<longleftrightarrow>
     (case be_TLS be of
        None \<Rightarrow> be_Protocol be = BackendProtocolH2C \<and> \<not> has_prefix (be_URL be) ''https://''
      | Some _ \<Rightarrow> be_Protocol be = BackendProtocolHTTP \<and> has_prefix (be_URL be) ''https://'')"

lemma forceHTTPSScheme_prefix: "u \<in> {''http://'' @ a, ''https://'' @ a} \<Longrightarrow> has_prefix (forceHTTPSScheme u) ''https://''"
  by (simp add: forceHTTPSScheme_address has_prefix_iff)

lemma replace_first_clear:
  assumes "u \<in> {''http://'' @ a, ''https://'' @ a}"
  shows "\<not> has_prefix (replace_first u ''https://'' ''http://'') ''https://''"
  using assms
  by (auto simp: replace_first_def has_prefix_def split: option.splits if_splits)

lemma grpc_transport_result:
  assumes "be_URL b \<in> {''http://'' @ a, ''https://'' @ a}" and "be_Protocol b = BackendProtocolHTTP"
  shows "be_Weight (grpc_transport env cc c b) = be_Weight b"
    and "be_UnavailableStatus (grpc_transport env cc c b) =
      (if isTLSAppProtocol (lookupAppProtocol (ce_protocolResolver env) (rb_svcNamespace c) (rb_serviceName c) (rb_port c))
          \<and> (case ce_tlsResolver env of None \<Rightarrow> True | Some f \<Rightarrow> f (rb_svcNamespace c) (rb_serviceName c) (rb_port c) = None)
       then 502 else be_UnavailableStatus b)"
    and "be_UnavailableStatus (grpc_transport env cc c b) = 0 \<Longrightarrow> http2_transport (grpc_transport env cc c b)"
  using forceHTTPSScheme_prefix [OF assms(1)] replace_first_clear [OF assms(1)] assms(2)
  by (auto simp: grpc_transport_def applyGRPCBackendTransport_def resolveBackendTLS_def http2_transport_def Let_def
      split: option.splits)


lemma sentinel_is_not_https: "\<not> has_prefix (ExternalBackendSentinelURL ns name) ''https://''"
  by (simp add: ExternalBackendSentinelURL_def has_prefix_def)

lemma grpc_outcome_with_traffic:
  assumes "0 < ref_weight (gb_BackendRef b)" and "grpc_backend_outcome env ns cc b = (be, keep)"
  shows "keep" and "be_Weight be = ref_weight (gb_BackendRef b)"
    and "be_UnavailableStatus be = 0 \<longleftrightarrow> grpc_servable env ns b"
    and "be_UnavailableStatus be = 0 \<longrightarrow> http2_transport be"
proof -
  let ?r = "gb_BackendRef b" and ?o = "ab_Ref (gb_BackendRef b)" and ?c = "resolveCommonBackendRef env (gb_BackendRef b) ns"
  note cases = resolveCommonBackendRef_cases [of ?r env ns]
  have w: "0 \<le> ref_weight ?r" using assms(1) by simp
  have out: "fst (convertGRPCBackendRef env b ns cc no_sink) = (be, keep)" using assms(2) by (simp add: grpc_backend_outcome_def)
  consider (external) "IsExternalBackendRef ?o" | (invalid) "\<not> IsExternalBackendRef ?o" "\<not> valid_ref env ns ?o"
    | (resolved) "\<not> IsExternalBackendRef ?o" "valid_ref env ns ?o" by blast
  then have "keep \<and> be_Weight be = ref_weight ?r \<and> (be_UnavailableStatus be = 0 \<longleftrightarrow> grpc_servable env ns b)
    \<and> (be_UnavailableStatus be = 0 \<longrightarrow> http2_transport be)"
  proof cases
    case external
    then have "fst (convertGRPCExternalBackendRef env (ref_weight ?r) b ns (target_namespace ns ?o) (bo_Name ?o) no_sink) = (be, keep)"
      using cases(2,5) [OF w] out by (simp add: convertGRPCBackendRef_fst Let_def)
    with external assms(1) show ?thesis
      by (auto simp: convertGRPCExternalBackendRef_def case_prod_beta validateCrossNamespace_permitted
          applyGRPCBackendFilters_fst markInvalidBackend_def Let_def grpc_servable_def valid_ref_def IsSupportedBackendRef_def
          http2_transport_def sentinel_is_not_https empty_backend_def split: if_splits)
  next
    case invalid
    have "be = rb_backend ?c" "keep = rb_keep ?c"
      using cases(3) [OF w invalid] out by (auto simp: convertGRPCBackendRef_fst Let_def)
    then show ?thesis using cases(3) [OF w invalid] assms(1) invalid by (simp add: grpc_servable_def)
  next
    case resolved
    have res: "rb_outcome ?c = backendRefResolved" using cases(4) [OF w resolved] by blast
    define f where "f = fst (applyGRPCBackendFilters (rb_backend ?c) (gb_Filters b) no_sink)"
    have be: "be = grpc_transport env cc ?c f" "keep"
      using out unfolding convertGRPCBackendRef_fst Let_def res backendRefOutcome.case f_def by auto
    have "be_UnavailableStatus (rb_backend ?c) = 0 \<and> be_Protocol (rb_backend ?c) = BackendProtocolHTTP"
      using res unfolding resolveCommonBackendRef_def validateCommonBackendRef_def Let_def
      by (auto simp: empty_backend_def case_prod_beta split: if_splits)
    then have f: "be_Protocol f = BackendProtocolHTTP" "be_Weight f = be_Weight (rb_backend ?c)"
      "be_UnavailableStatus f = (if list_all grpc_supported_filter (gb_Filters b) then 0 else 500)"
      "be_URL f = be_URL (rb_backend ?c)"
      by (simp_all add: f_def applyGRPCBackendFilters_fst)
    have u: "be_URL f \<in> {''http://'' @ service_address env ns ?o, ''https://'' @ service_address env ns ?o}"
      using cases(4) [OF w resolved] buildServiceURL_address [of ?o ns env] f(4) by metis
    have nm: "be_Weight (rb_backend ?c) = ref_weight ?r" "rb_serviceName ?c = bo_Name ?o"
      "rb_svcNamespace ?c = target_namespace ns ?o" "rb_port ?c = target_port ?o" using cases(5) [OF w] resolved(2) by auto
    note t = grpc_transport_result [OF u f(1), of env cc ?c, folded be(1)]
    have st: "be_UnavailableStatus be = (if lacks_tls_policy env ns ?o then 502 else be_UnavailableStatus f)"
      using t(2) unfolding nm lacks_tls_policy_def .
    show ?thesis using t(1,3) st f(2,3) nm(1) be(2) resolved by (auto simp: grpc_servable_def)
  qed
  then show "keep" "be_Weight be = ref_weight ?r" "be_UnavailableStatus be = 0 \<longleftrightarrow> grpc_servable env ns b"
    "be_UnavailableStatus be = 0 \<longrightarrow> http2_transport be" by blast+
qed

lemma grpc_outcome_without_traffic:
  assumes "\<not> 0 < ref_weight (gb_BackendRef b)" and "grpc_backend_outcome env ns cc b = (be, True)"
  shows "be_Weight be = 0"
proof -
  let ?r = "gb_BackendRef b" and ?o = "ab_Ref (gb_BackendRef b)" and ?c = "resolveCommonBackendRef env (gb_BackendRef b) ns"
  note cases = resolveCommonBackendRef_cases [of ?r env ns]
  have out: "fst (convertGRPCBackendRef env b ns cc no_sink) = (be, True)" using assms(2) by (simp add: grpc_backend_outcome_def)
  have w0: "\<not> ref_weight ?r < 0" using out cases(1) by (auto simp: convertGRPCBackendRef_fst Let_def)
  with assms(1) have w: "0 \<le> ref_weight ?r" "ref_weight ?r = 0" by simp_all
  consider (external) "IsExternalBackendRef ?o" | (invalid) "\<not> IsExternalBackendRef ?o" "\<not> valid_ref env ns ?o"
    | (resolved) "\<not> IsExternalBackendRef ?o" "valid_ref env ns ?o" by blast
  then show ?thesis
  proof cases
    case external
    then have "fst (convertGRPCExternalBackendRef env 0 b ns (target_namespace ns ?o) (bo_Name ?o) no_sink) = (be, True)"
      using cases(2,5) [OF w(1)] w(2) out by (simp add: convertGRPCBackendRef_fst Let_def)
    then show ?thesis
      by (auto simp: convertGRPCExternalBackendRef_def case_prod_beta applyGRPCBackendFilters_fst markInvalidBackend_def
          split: if_splits)
  next
    case invalid
    then show ?thesis using cases(3) [OF w(1) invalid] out w(2) by (auto simp: convertGRPCBackendRef_fst Let_def)
  next
    case resolved
    have res: "rb_outcome ?c = backendRefResolved" using cases(4) [OF w(1) resolved] by blast
    have be: "be = grpc_transport env cc ?c (fst (applyGRPCBackendFilters (rb_backend ?c) (gb_Filters b) no_sink))"
      using out unfolding convertGRPCBackendRef_fst Let_def res backendRefOutcome.case by simp
    have "be_Weight (grpc_transport env cc c x) = be_Weight x" for c x
      by (simp add: grpc_transport_def applyGRPCBackendTransport_def case_prod_beta Let_def)
    then show ?thesis using be cases(5) [OF w(1)] resolved(2) w(2) by (simp add: applyGRPCBackendFilters_fst)
  qed
qed

text \<open>C31: the traffic of a gRPC rule is split as its references say and goes over HTTP/2 only. The pool has one backend
  of the declared weight for every reference with a positive weight, in order; requests reach it exactly when the
  reference is supported, legal, permitted, has supported filters only and does not ask for TLS without a policy, and
  then over HTTP/2 in clear text or, under a policy, over HTTP/2 inside TLS. The other backends have no weight.\<close>

theorem grpc_traffic_over_http2:
  "list_all2 (\<lambda>ref be. be_Weight be = ref_weight (gb_BackendRef ref)
       \<and> (if grpc_servable env ns ref then be_UnavailableStatus be = 0 \<and> http2_transport be
          else be_UnavailableStatus be \<noteq> 0))
     (filter (\<lambda>ref. 0 < ref_weight (gb_BackendRef ref)) (grl_BackendRefs rule))
     (filter (\<lambda>be. be_Weight be \<noteq> 0) (rule_Backends (fst (convertGRPCRouteRule env rule hostnames ns clientCert sink))))"
proof -
  have "list_all2 (\<lambda>ref be. be_Weight be = ref_weight (gb_BackendRef ref)
       \<and> (if grpc_servable env ns ref then be_UnavailableStatus be = 0 \<and> http2_transport be
          else be_UnavailableStatus be \<noteq> 0))
     (filter (\<lambda>ref. 0 < ref_weight (gb_BackendRef ref)) refs)
     (filter (\<lambda>be. be_Weight be \<noteq> 0) (map fst (filter snd (map (grpc_backend_outcome env ns clientCert) refs))))" for refs
  proof (induction refs)
    case (Cons ref refs)
    obtain be keep where be: "grpc_backend_outcome env ns clientCert ref = (be, keep)" by (metis surj_pair)
    show ?case
    proof (cases "0 < ref_weight (gb_BackendRef ref)")
      case True
      with Cons grpc_outcome_with_traffic [OF True be] be show ?thesis by auto
    next
      case False
      with Cons grpc_outcome_without_traffic [OF False, of env ns clientCert be] be show ?thesis by auto
    qed
  qed simp
  then show ?thesis by (simp add: convertGRPCRouteRule_fst converted_grpc_rule_def)
qed


section \<open>Methods\<close>

text \<open>What the generated pattern for a method of any service means to the regular expression engine: one segment, then
  the method, and nothing else.\<close>

definition segment_engine :: "re_engine \<Rightarrow> bool" where
  "segment_engine re_compile \<longleftrightarrow>
     (\<forall>meth. case re_compile (''^/'' @ grpcSegmentPattern @ ''/'' @ quote_meta meth @ ''$'') of
        None \<Rightarrow> False
      | Some re \<Rightarrow> (\<forall>path. re path \<longleftrightarrow> (\<exists>s. s \<noteq> '''' \<and> CHR ''/'' \<notin> set s \<and> path = ''/'' @ s @ ''/'' @ meth)))"

lemma split_at_first: "c \<notin> set a \<Longrightarrow> c \<notin> set b \<Longrightarrow> a @ c # x = b @ c # y \<longleftrightarrow> a = b \<and> x = y"
proof (induction a arbitrary: b)
  case Nil
  then show ?case by (cases b) auto
next
  case (Cons h a)
  then show ?case by (cases b) auto
qed

lemma method_path_spec:
  assumes "segment_engine re_compile" and "grpcMethodToPath (Some mm) = Some p" and "gmm_Type mm \<noteq> Some ''RegularExpression''"
    and "CHR ''/'' \<notin> set (derefString (gmm_Service mm))" and "req_Path req = ''/'' @ service @ ''/'' @ meth"
    and "service \<noteq> ''''" and "CHR ''/'' \<notin> set service"
  shows "path_spec re_compile p req \<longleftrightarrow>
    derefString (gmm_Service mm) \<in> {'''', service} \<and> derefString (gmm_Method mm) \<in> {'''', meth}"
proof -
  let ?s = "derefString (gmm_Service mm)" and ?m = "derefString (gmm_Method mm)"
  note split = split_at_first [OF assms(7,4)] and req = assms(5)
  consider (both) "?s \<noteq> ''''" "?m \<noteq> ''''" | (svc) "?s \<noteq> ''''" "?m = ''''" | (meth) "?s = ''''" "?m \<noteq> ''''"
    using assms(2) by (auto simp: grpcMethodToPath_def Let_def split: if_splits)
  then show ?thesis
  proof cases
    case both
    then have "p = \<lparr> pm_Type = PathMatchExact, pm_Value = ''/'' @ ?s @ ''/'' @ ?m \<rparr>"
      using assms(2,3) by (simp add: grpcMethodToPath_def Let_def)
    with both req split [of meth ?m] show ?thesis by (auto simp: path_spec_def exactPathMatcher_Match_def)
  next
    case svc
    then have p: "p = \<lparr> pm_Type = PathMatchPathPrefix, pm_Value = ''/'' @ ?s @ ''/'' \<rparr>"
      using assms(2,3) by (simp add: grpcMethodToPath_def Let_def)
    have "has_suffix (''/'' @ ?s @ ''/'') ''/''" by (simp add: has_suffix_iff)
    then have "path_spec re_compile p req \<longleftrightarrow> has_prefix (''/'' @ service @ ''/'' @ meth) (''/'' @ ?s @ ''/'')"
      unfolding p path_spec_def prefixPathMatcher_Match_def Let_def req by simp
    also have "\<dots> \<longleftrightarrow> (\<exists>r. service @ CHR ''/'' # meth = ?s @ CHR ''/'' # r)" by (auto simp: has_prefix_iff)
    also have "\<dots> \<longleftrightarrow> service = ?s" using split by auto
    finally show ?thesis using svc by auto
  next
    case meth
    then have p: "p = \<lparr> pm_Type = PathMatchRegularExpression,
        pm_Value = ''^/'' @ grpcSegmentPattern @ ''/'' @ quote_meta ?m @ ''$'' \<rparr>"
      using assms(2,3) by (simp add: grpcMethodToPath_def Let_def)
    obtain re where re: "re_compile (''^/'' @ grpcSegmentPattern @ ''/'' @ quote_meta ?m @ ''$'') = Some re"
      and matches: "re path \<longleftrightarrow> (\<exists>s. s \<noteq> '''' \<and> CHR ''/'' \<notin> set s \<and> path = ''/'' @ s @ ''/'' @ ?m)" for path
      using spec [OF assms(1) [unfolded segment_engine_def], of ?m] that by (auto split: option.splits)
    have "path_spec re_compile p req \<longleftrightarrow> re (''/'' @ service @ ''/'' @ meth)"
      using req re by (simp add: p path_spec_def)
    also have "\<dots> \<longleftrightarrow> meth = ?m" using matches split_at_first [OF assms(7)] assms(6,7) by auto
    finally show ?thesis using meth by auto
  qed
qed

text \<open>A gRPC match means what it says. A call of a method of a service satisfies the match converted from a
  GRPCRoute exactly when the service and the method it names, if any, are those of the call and the call has the headers
  the match lists; neither a longer name nor another service passes. Service names have no slash, and the engine reads
  the generated pattern as one segment followed by the method.\<close>

theorem grpc_match_exact:
  assumes "segment_engine re_compile" and "convertGRPCMatch match = Some m" and "grm_Method match = Some mm"
    and "gmm_Type mm \<noteq> Some ''RegularExpression''" and "CHR ''/'' \<notin> set (derefString (gmm_Service mm))"
    and "req_Path req = ''/'' @ service @ ''/'' @ meth" and "service \<noteq> ''''" and "CHR ''/'' \<notin> set service"
  shows "match_spec re_compile m req \<longleftrightarrow>
    derefString (gmm_Service mm) \<in> {'''', service} \<and> derefString (gmm_Method mm) \<in> {'''', meth}
    \<and> list_all (\<lambda>h. header_spec re_compile (convertGRPCHeaderMatch h) req) (grm_Headers match)"
proof -
  from assms(2) have m: "m = \<lparr> rm_Path = grpcMethodToPath (Some mm), rm_Headers = map convertGRPCHeaderMatch (grm_Headers match),
      rm_QueryParams = [], rm_Method = '''' \<rparr>"
    by (simp add: convertGRPCMatch_def assms(3) Let_def split: if_splits)
  show ?thesis
  proof (cases "grpcMethodToPath (Some mm)")
    case None
    then have "derefString (gmm_Service mm) = ''''" "derefString (gmm_Method mm) = ''''"
      by (auto simp: grpcMethodToPath_def Let_def split: if_splits)
    with None show ?thesis by (simp add: m match_spec_def list_all_iff)
  next
    case (Some p)
    from method_path_spec [OF assms(1) Some assms(4-8)] Some show ?thesis by (auto simp: m match_spec_def list_all_iff)
  qed
qed


fun unquote_meta :: "string \<Rightarrow> string" where
  "unquote_meta [] = []"
| "unquote_meta [c] = [c]"
| "unquote_meta (c # d # s) = (if c = CHR 92 then d # unquote_meta s else c # unquote_meta (d # s))"

lemma unquote_quote_meta [simp]: "unquote_meta (quote_meta s) = s"
proof (induction s)
  case (Cons c s)
  have step: "unquote_meta (c # r) = c # unquote_meta r" if "c \<noteq> CHR 92" for r
    using that by (cases r) auto
  show ?case
  proof (cases "c \<in> set (CHR 92 # ''.+*?()|[]{}^$'')")
    case True
    then have "quote_meta (c # s) = CHR 92 # c # quote_meta s" by (simp add: quote_meta_def)
    then show ?thesis using Cons by simp
  next
    case False
    then have "quote_meta (c # s) = c # quote_meta s" "c \<noteq> CHR 92" by (simp_all add: quote_meta_def)
    then show ?thesis using Cons step by simp
  qed
qed (simp add: quote_meta_def)

text \<open>An engine for the generated patterns.\<close>

definition example_engine :: re_engine where
  "example_engine pat = Some (\<lambda>path.
     let rest = drop 1 path; s = takeWhile (\<lambda>c. c \<noteq> CHR ''/'') rest in
     take 1 path = ''/'' \<and> s \<noteq> [] \<and> drop (length s) rest = ''/'' @ unquote_meta (butlast (drop 8 pat)))"

lemma example_engine_ok: "segment_engine example_engine"
proof -
  have "(let rest = drop 1 path; s = takeWhile (\<lambda>c. c \<noteq> CHR ''/'') rest in
      take 1 path = ''/'' \<and> s \<noteq> [] \<and> drop (length s) rest = ''/'' @ m)
    \<longleftrightarrow> (\<exists>s. s \<noteq> '''' \<and> CHR ''/'' \<notin> set s \<and> path = ''/'' @ s @ ''/'' @ m)" (is "?l \<longleftrightarrow> ?r") for path m
  proof
    assume l: ?l
    let ?s = "takeWhile (\<lambda>c. c \<noteq> CHR ''/'') (drop 1 path)"
    have "CHR ''/'' \<notin> set ?s" using set_takeWhileD by fastforce
    moreover have "path = take 1 path @ ?s @ drop (length ?s) (drop 1 path)"
      by (metis append_take_drop_id takeWhile_eq_take)
    ultimately show ?r using l unfolding Let_def by metis
  next
    assume ?r
    then obtain s where s: "s \<noteq> ''''" "CHR ''/'' \<notin> set s" "path = ''/'' @ s @ ''/'' @ m" by blast
    then have "takeWhile (\<lambda>c. c \<noteq> CHR ''/'') (s @ ''/'' @ m) = s" by (subst takeWhile_append2) auto
    then show ?l using s by (simp add: Let_def)
  qed
  then show ?thesis by (simp add: segment_engine_def example_engine_def grpcSegmentPattern_def butlast_append)
qed

definition example_method :: GRPCMethodMatch where
  "example_method = \<lparr> gmm_Type = None, gmm_Service = None, gmm_Method = Some ''Echo'' \<rparr>"

definition example_call :: Request where
  "example_call = \<lparr> req_Method = ''POST'', req_Host = ''a.com'',
     req_URL = \<lparr> url_Scheme = '''', url_Host = '''', url_Path = ''/svc/EchoStream'', url_RawPath = '''', url_RawQuery = '''' \<rparr>,
     req_Header = Map.empty, req_Body = None, req_ContentLength = 0, req_MatchedPrefix = '''' \<rparr>"

end
