(* ===== verification/BackendObjects.thy ===== *)
theory BackendObjects
  imports GrpcConverter ReferenceGrant ConfigResolve
begin

text \<open>
  The objects a backend reference can name (Service, ServiceImport, EndpointSlice, and the ExternalBackend of
  \<^verbatim>\<open>src/api/v1alpha1/externalbackend_types.go\<close>) and the reads of the cluster that look them up. A read gives the object
  or an error; the error of an object that does not exist is recognised by \<^verbatim>\<open>apierrors.IsNotFound\<close>.
\<close>

section \<open>Services\<close>

datatype IntOrString = IntValue int | StrValue string

record ServicePort =
  sp_Name :: string
  sp_Port :: int
  sp_TargetPort :: IntOrString
  sp_AppProtocol :: "string option"

record Service =
  svc_Type :: string
  svc_ClusterIP :: string
  svc_ExternalName :: string
  svc_Ports :: "ServicePort list"

record EndpointPort =
  ept_Name :: "string option"
  ept_Port :: "int option"

record Endpoint =
  en_Addresses :: "string list"
  en_Ready :: "bool option"

record EndpointSlice =
  es_Ports :: "EndpointPort list"
  es_Endpoints :: "Endpoint list"

record ServiceImport =
  si_Ports :: "int list"

section \<open>External backends\<close>

record ExternalBackendSpec =
  eb_Scheme :: string
  eb_Host :: string
  eb_Port :: int
  eb_Path :: string

definition ExternalBackendSpec_URL :: "ExternalBackendSpec \<Rightarrow> string" where
  "ExternalBackendSpec_URL b =
     (let raw = eb_Scheme b @ ''://'' @ eb_Host b @ '':'' @ itoa (eb_Port b) in
      if eb_Path b \<noteq> '''' then raw @ eb_Path b else raw)"

datatype external_error = errInvalidScheme | errEmptyHost | errPortOutOfRange | errPathPrefix | errMalformedURL

definition ExternalBackendSpec_Validate :: "ExternalBackendSpec \<Rightarrow> external_error option" where
  "ExternalBackendSpec_Validate b =
     (if eb_Scheme b \<noteq> ''http'' \<and> eb_Scheme b \<noteq> ''https'' then Some errInvalidScheme
      else if eb_Host b = '''' then Some errEmptyHost
      else if eb_Port b < 1 \<or> eb_Port b > 65535 then Some errPortOutOfRange
      else if eb_Path b \<noteq> '''' \<and> \<not> has_prefix (eb_Path b) ''/'' then Some errPathPrefix
      else if url_Parse (ExternalBackendSpec_URL b) = None then Some errMalformedURL
      else None)"

section \<open>Reads\<close>

record BackendReader =
  rd_Service :: "string \<Rightarrow> string \<Rightarrow> gerr + Service"
  rd_Slices :: "string \<Rightarrow> string \<Rightarrow> gerr + EndpointSlice list"
  rd_Import :: "string \<Rightarrow> string \<Rightarrow> gerr + ServiceImport"
  rd_External :: "string \<Rightarrow> string \<Rightarrow> gerr + ExternalBackendSpec"

end
