(* ===== verification/Ingress.thy ===== *)
theory Ingress
  imports BackendObjects
begin

text \<open>
  The ingress rules of a tunnel document, built from the routes (\<^verbatim>\<open>src/internal/ingress/\<close>: \<^verbatim>\<open>builder.go\<close>,
  \<^verbatim>\<open>generic_builder.go\<close>, \<^verbatim>\<open>route_projection.go\<close>, \<^verbatim>\<open>http_adapter.go\<close>, \<^verbatim>\<open>grpc_adapter.go\<close>, \<^verbatim>\<open>service_resolver.go\<close>,
  \<^verbatim>\<open>weight.go\<close>), and the references that failed. \<^verbatim>\<open>sort.Slice\<close> is not stable: the sorted entries are an argument
  function, of which only the order and the elements are known. Logs, metrics and message texts are left out; a nil
  client or validator is None.
\<close>

section \<open>Rules and failed references\<close>

text \<open>A rule as the API takes it: hostname and path are absent or present; and the form for comparison.\<close>

record IngressRule =
  ir_Hostname :: "string option"
  ir_Path :: "string option"
  ir_Service :: string

definition CatchAllService :: string where
  "CatchAllService = ''http_status:404''"

record BackendRefError =
  bre_RouteNamespace :: string
  bre_RouteName :: string
  bre_BackendName :: string
  bre_BackendNS :: string
  bre_Port :: int
  bre_Reason :: string
  bre_Domain :: string

record BuildResult =
  bld_Rules :: "IngressRule list"
  bld_FailedRefs :: "BackendRefError list"

section \<open>Weights\<close>

definition effectiveBackendWeight :: "APIBackendRef \<Rightarrow> int" where
  "effectiveBackendWeight ref = (case ab_Weight ref of Some w \<Rightarrow> w | None \<Rightarrow> 1)"

fun select_from :: "int \<Rightarrow> int option \<Rightarrow> int \<Rightarrow> APIBackendRef list \<Rightarrow> int option" where
  "select_from i selected highest [] = selected"
| "select_from i selected highest (ref # refs) =
     (let weight = effectiveBackendWeight ref in
      if weight = 0 then select_from (i + 1) selected highest refs
      else if selected = None \<or> weight > highest then select_from (i + 1) (Some i) weight refs
      else select_from (i + 1) selected highest refs)"

definition SelectHighestWeightIndex :: "APIBackendRef list \<Rightarrow> int" where
  "SelectHighestWeightIndex refs = (case select_from 0 None 0 refs of None \<Rightarrow> -1 | Some i \<Rightarrow> i)"

section \<open>Backends\<close>

datatype backendTargetKind = backendTargetService | backendTargetServiceImport | backendTargetExternal

record backendResolver =
  rsv_client :: "BackendReader option"
  rsv_validator :: "(string \<Rightarrow> gerr + Grant list) option"
  rsv_clusterDomain :: string

record serviceResolveParams =
  prm_routeKind :: string
  prm_routeNS :: string
  prm_routeName :: string
  prm_svcName :: string
  prm_svcNS :: string
  prm_port :: int

definition backend_group :: "BackendObjectReference \<Rightarrow> string" where
  "backend_group ref = (case bo_Group ref of None \<Rightarrow> '''' | Some g \<Rightarrow> g)"

definition backend_kind :: "BackendObjectReference \<Rightarrow> string" where
  "backend_kind ref = (case bo_Kind ref of None \<Rightarrow> ''Service'' | Some k \<Rightarrow> k)"

definition validateBackendGroupKind ::
    "APIBackendRef \<Rightarrow> string \<Rightarrow> string \<Rightarrow> BackendRefError + backendTargetKind" where
  "validateBackendGroupKind ref namespace routeName =
     (let grp = backend_group (ab_Ref ref); kind = backend_kind (ab_Ref ref) in
      if (grp = '''' \<or> grp = ''core'') \<and> kind = ''Service'' then Inr backendTargetService
      else if grp = ''multicluster.x-k8s.io'' \<and> kind = ''ServiceImport'' then Inr backendTargetServiceImport
      else if grp = ''cf.k8s.lex.la'' \<and> kind = ''ExternalBackend'' then Inr backendTargetExternal
      else Inl \<lparr> bre_RouteNamespace = namespace, bre_RouteName = routeName, bre_BackendName = bo_Name (ab_Ref ref),
             bre_BackendNS = '''', bre_Port = 0, bre_Reason = ''InvalidKind'', bre_Domain = '''' \<rparr>)"

definition resolveBackendNamespacePort :: "APIBackendRef \<Rightarrow> string \<Rightarrow> string \<times> int" where
  "resolveBackendNamespacePort ref routeNamespace =
     ((case bo_Namespace (ab_Ref ref) of None \<Rightarrow> routeNamespace | Some ns \<Rightarrow> ns),
      (case bo_Port (ab_Ref ref) of None \<Rightarrow> 80 | Some p \<Rightarrow> p))"

definition validateCrossNamespaceRef ::
    "(string \<Rightarrow> gerr + Grant list) option \<Rightarrow> serviceResolveParams \<Rightarrow> string \<Rightarrow> string \<Rightarrow> bool" where
  "validateCrossNamespaceRef validator params toGroup toKind =
     (case validator of
        None \<Rightarrow> True
      | Some grants \<Rightarrow>
          (case IsReferenceAllowed grants
                  \<lparr> ref_Group = ''gateway.networking.k8s.io'', ref_Kind = prm_routeKind params,
                    ref_Namespace = prm_routeNS params, ref_Name = prm_routeName params \<rparr>
                  \<lparr> ref_Group = toGroup, ref_Kind = toKind, ref_Namespace = prm_svcNS params,
                    ref_Name = prm_svcName params \<rparr> of
             Inl _ \<Rightarrow> False
           | Inr allowed \<Rightarrow> if \<not> allowed then False else True))"

definition backend_error :: "serviceResolveParams \<Rightarrow> string \<Rightarrow> BackendRefError" where
  "backend_error params reason =
     \<lparr> bre_RouteNamespace = prm_routeNS params, bre_RouteName = prm_routeName params, bre_BackendName = prm_svcName params,
       bre_BackendNS = prm_svcNS params, bre_Port = 0, bre_Reason = reason, bre_Domain = '''' \<rparr>"

definition crossNamespaceDeniedError :: "serviceResolveParams \<Rightarrow> BackendRefError" where
  "crossNamespaceDeniedError params = backend_error params ''RefNotPermitted''"

definition serviceImportNotFoundError :: "serviceResolveParams \<Rightarrow> BackendRefError" where
  "serviceImportNotFoundError params = backend_error params ''BackendNotFound''"

definition service_url :: "serviceResolveParams \<Rightarrow> string \<Rightarrow> string" where
  "service_url params host =
     (if prm_port params = 443 then ''https'' else ''http'') @ ''://'' @ host @ '':'' @ itoa (prm_port params)"

definition resolveServiceURL :: "backendResolver \<Rightarrow> serviceResolveParams \<Rightarrow> string \<times> BackendRefError option" where
  "resolveServiceURL rs params =
     (let cluster_local = (service_url params (prm_svcName params @ ''.'' @ prm_svcNS params @ ''.svc.'' @ rsv_clusterDomain rs), None) in
      if prm_routeNS params \<noteq> prm_svcNS params \<and> \<not> validateCrossNamespaceRef (rsv_validator rs) params '''' ''Service''
      then ('''', Some (crossNamespaceDeniedError params))
      else (case rsv_client rs of
              None \<Rightarrow> cluster_local
            | Some client \<Rightarrow>
                (case rd_Service client (prm_svcNS params) (prm_svcName params) of
                   Inl err \<Rightarrow> if isNotFound err then ('''', Some (backend_error params ''BackendNotFound'')) else cluster_local
                 | Inr svc \<Rightarrow> if svc_Type svc = ''ExternalName'' then (service_url params (svc_ExternalName svc), None)
                              else cluster_local)))"

definition serviceImportExportsPort :: "ServiceImport \<Rightarrow> int \<Rightarrow> bool" where
  "serviceImportExportsPort imported port = list_ex (\<lambda>p. p = port) (si_Ports imported)"

definition resolveServiceImportURL :: "backendResolver \<Rightarrow> serviceResolveParams \<Rightarrow> string \<times> BackendRefError option" where
  "resolveServiceImportURL rs params =
     (let found = (service_url params (prm_svcName params @ ''.'' @ prm_svcNS params @ ''.svc.clusterset.local''), None) in
      if prm_routeNS params \<noteq> prm_svcNS params
         \<and> \<not> validateCrossNamespaceRef (rsv_validator rs) params ''multicluster.x-k8s.io'' ''ServiceImport''
      then ('''', Some (crossNamespaceDeniedError params))
      else (case rsv_client rs of
              None \<Rightarrow> found
            | Some client \<Rightarrow>
                (case rd_Import client (prm_svcNS params) (prm_svcName params) of
                   Inl err \<Rightarrow> if isNotFound err then ('''', Some (serviceImportNotFoundError params)) else found
                 | Inr imported \<Rightarrow>
                     if \<not> serviceImportExportsPort imported (prm_port params)
                     then ('''', Some (serviceImportNotFoundError params)) else found)))"

definition resolveExternalBackendURL :: "backendResolver \<Rightarrow> serviceResolveParams \<Rightarrow> string \<times> BackendRefError option" where
  "resolveExternalBackendURL rs params =
     (if prm_routeNS params \<noteq> prm_svcNS params
         \<and> \<not> validateCrossNamespaceRef (rsv_validator rs) params ''cf.k8s.lex.la'' ''ExternalBackend''
      then ('''', Some (crossNamespaceDeniedError params))
      else (case rsv_client rs of
              None \<Rightarrow> ('''', None)
            | Some client \<Rightarrow>
                (case rd_External client (prm_svcNS params) (prm_svcName params) of
                   Inl err \<Rightarrow> if isNotFound err then ('''', Some (backend_error params ''BackendNotFound'')) else ('''', None)
                 | Inr spec \<Rightarrow>
                     if ExternalBackendSpec_Validate spec \<noteq> None then ('''', Some (backend_error params ''UnsupportedValue''))
                     else (ExternalBackendSpec_URL spec, None))))"


definition resolveValidatedBackend ::
    "backendResolver \<Rightarrow> APIBackendRef \<Rightarrow> string \<Rightarrow> string \<Rightarrow> string \<Rightarrow> string \<times> BackendRefError option" where
  "resolveValidatedBackend rs ref namespace routeName routeKind =
     (case resolveBackendNamespacePort ref namespace of
        (svcNamespace, port) \<Rightarrow>
          (case validateBackendGroupKind ref namespace routeName of
             Inl err \<Rightarrow> ('''', Some (err \<lparr> bre_Port := port \<rparr>))
           | Inr targetKind \<Rightarrow>
               (let params = \<lparr> prm_routeKind = routeKind, prm_routeNS = namespace, prm_routeName = routeName,
                      prm_svcName = bo_Name (ab_Ref ref), prm_svcNS = svcNamespace, prm_port = port \<rparr>;
                    (url, backendErr) = (case targetKind of
                       backendTargetServiceImport \<Rightarrow> resolveServiceImportURL rs params
                     | backendTargetExternal \<Rightarrow> resolveExternalBackendURL rs params
                     | backendTargetService \<Rightarrow> resolveServiceURL rs params) in
                (url, map_option (\<lambda>e. if targetKind = backendTargetServiceImport
                                       then e \<lparr> bre_Port := port, bre_Domain := ''clusterset.local'' \<rparr>
                                       else e \<lparr> bre_Port := port \<rparr>) backendErr))))"

text \<open>The loop over the references of a rule: the address of the selected one, and the failures in order.\<close>

fun resolve_refs ::
    "backendResolver \<Rightarrow> string \<Rightarrow> string \<Rightarrow> string \<Rightarrow> int \<Rightarrow> int \<Rightarrow> APIBackendRef list \<Rightarrow> string \<Rightarrow> string \<times> BackendRefError list" where
  "resolve_refs rs namespace routeName routeKind selectedIdx i [] serviceURL = (serviceURL, [])"
| "resolve_refs rs namespace routeName routeKind selectedIdx i (ref # refs) serviceURL =
     (if effectiveBackendWeight ref = 0
      then resolve_refs rs namespace routeName routeKind selectedIdx (i + 1) refs serviceURL
      else (case resolveValidatedBackend rs ref namespace routeName routeKind of
              (url, failedRef) \<Rightarrow>
                (case resolve_refs rs namespace routeName routeKind selectedIdx (i + 1) refs
                        (if i = selectedIdx then url else serviceURL) of
                   (serviceURL, failedRefs) \<Rightarrow>
                     (serviceURL, (case failedRef of None \<Rightarrow> failedRefs | Some e \<Rightarrow> e # failedRefs)))))"

definition resolveRuleBackendRefs ::
    "backendResolver \<Rightarrow> string \<Rightarrow> string \<Rightarrow> string \<Rightarrow> APIBackendRef list \<Rightarrow> string \<times> BackendRefError list" where
  "resolveRuleBackendRefs rs namespace routeName routeKind refs =
     (if refs = [] then ('''', [])
      else (let selectedIdx = SelectHighestWeightIndex refs in
            if selectedIdx = -1 then ('''', [])
            else resolve_refs rs namespace routeName routeKind selectedIdx 0 refs ''''))"

section \<open>Projection of the two route kinds\<close>

record projectedMatch =
  pjm_path :: string
  pjm_priority :: int

record projectedRule =
  pj_backendRefs :: "APIBackendRef list"
  pj_matches :: "projectedMatch list"

record 'r RouteAdapter =
  ad_GatewayKind :: string
  ad_ProjectRules :: "'r Route \<Rightarrow> projectedRule list"
  ad_AddCatchAll :: bool

definition GetHostnames :: "'r Route \<Rightarrow> string list" where
  "GetHostnames route = (if rt_Hostnames route = [] then [''*''] else rt_Hostnames route)"

definition extractPath :: "HTTPPathMatch option \<Rightarrow> string \<times> int" where
  "extractPath pathMatch =
     (case pathMatch of
        None \<Rightarrow> ('''', 0)
      | Some m \<Rightarrow>
          (let pathType = (case hpm_Type m of None \<Rightarrow> ''PathPrefix'' | Some t \<Rightarrow> t);
               path = (case hpm_Value m of None \<Rightarrow> ''/'' | Some v \<Rightarrow> v) in
           if pathType = ''Exact'' then (path, 1) else (path, 0)))"

definition HTTP_ProjectRules :: "HTTPRoute \<Rightarrow> projectedRule list" where
  "HTTP_ProjectRules route =
     map (\<lambda>rule. \<lparr> pj_backendRefs = map hb_BackendRef (hrl_BackendRefs rule),
                    pj_matches = map (\<lambda>m. case extractPath (hrm_Path m) of
                        (path, priority) \<Rightarrow> \<lparr> pjm_path = path, pjm_priority = priority \<rparr>) (hrl_Matches rule) \<rparr>)
       (rt_Rules route)"

definition extractGRPCPath :: "GRPCMethodMatch option \<Rightarrow> string \<times> int" where
  "extractGRPCPath methodMatch =
     (case methodMatch of
        None \<Rightarrow> ('''', 0)
      | Some m \<Rightarrow>
          (let service = (case gmm_Service m of None \<Rightarrow> '''' | Some s \<Rightarrow> s);
               method = (case gmm_Method m of None \<Rightarrow> '''' | Some s \<Rightarrow> s) in
           if service = '''' \<and> method = '''' then ('''', 0)
           else if service \<noteq> '''' \<and> method = '''' then (''/'' @ service @ ''/'', 0)
           else if service = '''' \<and> method \<noteq> '''' then ('''', 0)
           else (''/'' @ service @ ''/'' @ method, 1)))"

definition GRPC_ProjectRules :: "GRPCRoute \<Rightarrow> projectedRule list" where
  "GRPC_ProjectRules route =
     map (\<lambda>rule. \<lparr> pj_backendRefs = map gb_BackendRef (grl_BackendRefs rule),
                    pj_matches = map (\<lambda>m. case extractGRPCPath (grm_Method m) of
                        (path, priority) \<Rightarrow> \<lparr> pjm_path = path, pjm_priority = priority \<rparr>) (grl_Matches rule) \<rparr>)
       (rt_Rules route)"

definition HTTPRouteAdapter :: "HTTPRouteRule list RouteAdapter" where
  "HTTPRouteAdapter = \<lparr> ad_GatewayKind = ''HTTPRoute'', ad_ProjectRules = HTTP_ProjectRules, ad_AddCatchAll = True \<rparr>"

definition GRPCRouteAdapter :: "GRPCRouteRule list RouteAdapter" where
  "GRPCRouteAdapter = \<lparr> ad_GatewayKind = ''GRPCRoute'', ad_ProjectRules = GRPC_ProjectRules, ad_AddCatchAll = False \<rparr>"

section \<open>Entries\<close>

record routeEntry =
  re_hostname :: string
  re_path :: string
  re_service :: string
  re_priority :: int

definition entry_precedes :: "routeEntry \<Rightarrow> routeEntry \<Rightarrow> bool" where
  "entry_precedes a b =
     (if re_hostname a = ''*'' \<and> re_hostname b \<noteq> ''*'' then False
      else if re_hostname a \<noteq> ''*'' \<and> re_hostname b = ''*'' then True
      else if re_hostname a \<noteq> re_hostname b then re_hostname a < re_hostname b
      else if re_priority a \<noteq> re_priority b then re_priority a > re_priority b
      else if length (re_path a) \<noteq> length (re_path b) then length (re_path a) > length (re_path b)
      else re_path a < re_path b)"

definition rule_entries :: "string list \<Rightarrow> string \<Rightarrow> projectedMatch list \<Rightarrow> routeEntry list" where
  "rule_entries hostnames service matches =
     concat (map (\<lambda>hostname.
       if matches = []
       then [\<lparr> re_hostname = hostname, re_path = '''', re_service = service, re_priority = 0 \<rparr>]
       else map (\<lambda>m. \<lparr> re_hostname = hostname, re_path = pjm_path m, re_service = service, re_priority = pjm_priority m \<rparr>) matches)
       hostnames)"

fun extract_rules ::
    "backendResolver \<Rightarrow> string \<Rightarrow> string \<Rightarrow> string \<Rightarrow> string list \<Rightarrow> projectedRule list \<Rightarrow> routeEntry list \<times> BackendRefError list" where
  "extract_rules rs namespace name kind hostnames [] = ([], [])"
| "extract_rules rs namespace name kind hostnames (rule # rules) =
     (case resolveRuleBackendRefs rs namespace name kind (pj_backendRefs rule) of
        (service, failed) \<Rightarrow>
          (case extract_rules rs namespace name kind hostnames rules of
             (entries, restFailed) \<Rightarrow>
               ((if service = '''' then [] else rule_entries hostnames service (pj_matches rule)) @ entries, failed @ restFailed)))"

definition extractProjectedEntries ::
    "backendResolver \<Rightarrow> 'r RouteAdapter \<Rightarrow> 'r Route \<Rightarrow> routeEntry list \<times> BackendRefError list" where
  "extractProjectedEntries rs adapter route =
     extract_rules rs (rt_Namespace route) (rt_Name route) (ad_GatewayKind adapter) (GetHostnames route)
       (ad_ProjectRules adapter route)"

definition entriesToIngressRules :: "routeEntry list \<Rightarrow> IngressRule list" where
  "entriesToIngressRules entries =
     List.map_filter (\<lambda>entry.
       if re_hostname entry = ''*'' then None
       else Some \<lparr> ir_Hostname = Some (re_hostname entry),
                    ir_Path = (if re_path entry \<noteq> '''' \<and> re_path entry \<noteq> ''/''
                               then Some (if re_priority entry = 0 then re_path entry @ ''*'' else re_path entry) else None),
                    ir_Service = re_service entry \<rparr>) entries"

definition GenericBuilder_Build ::
    "(routeEntry list \<Rightarrow> routeEntry list) \<Rightarrow> backendResolver \<Rightarrow> 'r RouteAdapter \<Rightarrow> 'r Route list \<Rightarrow> BuildResult" where
  "GenericBuilder_Build sort_slice rs adapter routes =
     (let parts = map (extractProjectedEntries rs adapter) routes;
          rules = entriesToIngressRules (sort_slice (concat (map fst parts))) in
      \<lparr> bld_Rules = (if ad_AddCatchAll adapter
                     then rules @ [\<lparr> ir_Hostname = None, ir_Path = None, ir_Service = CatchAllService \<rparr>] else rules),
        bld_FailedRefs = concat (map snd parts) \<rparr>)"

definition Builder_Build where
  "Builder_Build sort_slice rs = GenericBuilder_Build sort_slice rs HTTPRouteAdapter"

definition GRPCBuilder_Build where
  "GRPCBuilder_Build sort_slice rs = GenericBuilder_Build sort_slice rs GRPCRouteAdapter"

end
