(* ===== verification/TunnelDoc.thy ===== *)
theory TunnelDoc
  imports Ingress RoutePartition
begin

text \<open>
  The reconciliation of a tunnel's ingress document (\<^verbatim>\<open>src/internal/ingress/diff.go\<close> and the writing half of
  \<^verbatim>\<open>src/internal/controller/route_syncer.go\<close>). The Cloudflare API is a record of functions over the state of the service;
  what is used of it, that a document reads back as it was written and that tunnels do not share documents, is the
  predicate \<open>stores_documents\<close>.
\<close>

section \<open>Difference of documents\<close>

record Rule =
  rl_Hostname :: string
  rl_Path :: string
  rl_Service :: string

definition opt_value :: "string option \<Rightarrow> string" where
  "opt_value v = (case v of None \<Rightarrow> '''' | Some s \<Rightarrow> s)"

definition RuleFromUpdate :: "IngressRule \<Rightarrow> Rule" where
  "RuleFromUpdate r = \<lparr> rl_Hostname = opt_value (ir_Hostname r), rl_Path = opt_value (ir_Path r), rl_Service = ir_Service r \<rparr>"

definition RuleFromGet :: "Rule \<Rightarrow> Rule" where
  "RuleFromGet r = \<lparr> rl_Hostname = rl_Hostname r, rl_Path = rl_Path r, rl_Service = rl_Service r \<rparr>"

definition RulesEqual :: "Rule \<Rightarrow> Rule \<Rightarrow> bool" where
  "RulesEqual a b \<longleftrightarrow> rl_Hostname a = rl_Hostname b \<and> rl_Path a = rl_Path b \<and> rl_Service a = rl_Service b"

definition IsCatchAll :: "Rule \<Rightarrow> bool" where
  "IsCatchAll r \<longleftrightarrow> rl_Hostname r = '''' \<and> rl_Service r = CatchAllService"

definition DiffRules :: "Rule list \<Rightarrow> IngressRule list \<Rightarrow> IngressRule list \<times> Rule list" where
  "DiffRules current desired =
     (let currentRules = filter (\<lambda>r. \<not> IsCatchAll r) (map RuleFromGet current);
          desiredKept = filter (\<lambda>r. \<not> IsCatchAll (RuleFromUpdate r)) desired;
          desiredRules = map RuleFromUpdate desiredKept in
      (filter (\<lambda>d. \<not> list_ex (RulesEqual (RuleFromUpdate d)) currentRules) desiredKept,
       filter (\<lambda>c. \<not> list_ex (RulesEqual c) desiredRules) currentRules))"

definition convertGetToUpdate :: "Rule \<Rightarrow> IngressRule" where
  "convertGetToUpdate r =
     \<lparr> ir_Hostname = (if rl_Hostname r \<noteq> '''' then Some (rl_Hostname r) else None),
       ir_Path = (if rl_Path r \<noteq> '''' then Some (rl_Path r) else None), ir_Service = rl_Service r \<rparr>"

definition ApplyDiff :: "Rule list \<Rightarrow> IngressRule list \<Rightarrow> Rule list \<Rightarrow> IngressRule list" where
  "ApplyDiff current toAdd toRemove =
     map convertGetToUpdate
       (filter (\<lambda>c. \<not> IsCatchAll (RuleFromGet c) \<and> \<not> list_ex (RulesEqual (RuleFromGet c)) toRemove) current) @ toAdd"

definition EnsureCatchAll :: "IngressRule list \<Rightarrow> IngressRule list" where
  "EnsureCatchAll rules =
     filter (\<lambda>r. \<not> IsCatchAll (RuleFromUpdate r)) rules
     @ [\<lparr> ir_Hostname = None, ir_Path = None, ir_Service = CatchAllService \<rparr>]"

fun RulesUnchanged :: "Rule list \<Rightarrow> IngressRule list \<Rightarrow> bool" where
  "RulesUnchanged [] [] = True"
| "RulesUnchanged (c # cs) (d # ds) \<longleftrightarrow> RulesEqual (RuleFromGet c) (RuleFromUpdate d) \<and> RulesUnchanged cs ds"
| "RulesUnchanged _ _ = False"

section \<open>Order\<close>

definition ingress_precedes :: "IngressRule \<Rightarrow> IngressRule \<Rightarrow> bool" where
  "ingress_precedes l r =
     (let leftPresent = ir_Hostname l \<noteq> None; rightPresent = ir_Hostname r \<noteq> None in
      if leftPresent \<noteq> rightPresent then leftPresent
      else if opt_value (ir_Hostname l) \<noteq> opt_value (ir_Hostname r) then opt_value (ir_Hostname l) < opt_value (ir_Hostname r)
      else length (opt_value (ir_Path r)) < length (opt_value (ir_Path l)))"

definition sortIngressRules :: "IngressRule list \<Rightarrow> IngressRule list" where
  "sortIngressRules rules = sort_stable ingress_precedes rules"

definition filterOutCatchAll :: "IngressRule list \<Rightarrow> IngressRule list" where
  "filterOutCatchAll rules = filter (\<lambda>r. \<not> IsCatchAll (RuleFromUpdate r)) rules"

definition mergeAndSortRules :: "IngressRule list \<Rightarrow> IngressRule list \<Rightarrow> IngressRule list" where
  "mergeAndSortRules httpRules grpcRules = sortIngressRules (filterOutCatchAll httpRules @ filterOutCatchAll grpcRules)"

text \<open>The document to write, from the deployed one and the desired rules.\<close>

definition final_rules :: "Rule list \<Rightarrow> IngressRule list \<Rightarrow> IngressRule list" where
  "final_rules current desired =
     (case DiffRules current desired of
        (toAdd, toRemove) \<Rightarrow> EnsureCatchAll (sortIngressRules (ApplyDiff current toAdd toRemove)))"

section \<open>One tunnel\<close>

record 's CloudflareAPI =
  cf_Accounts :: "string \<Rightarrow> gerr + string list"
  cf_Get :: "string \<Rightarrow> string \<Rightarrow> string \<Rightarrow> 's \<Rightarrow> gerr + Rule list"
  cf_Update :: "string \<Rightarrow> string \<Rightarrow> string \<Rightarrow> IngressRule list \<Rightarrow> 's \<Rightarrow> gerr option \<times> 's"

record tunnelGroupResult =
  tr_httpFailedRefs :: "BackendRefError list"
  tr_grpcFailedRefs :: "BackendRefError list"
  tr_ruleCount :: nat
  tr_written :: bool
  tr_err :: "gerr option"

definition maxIngressRules :: nat where
  "maxIngressRules = 1000"

text \<open>The state that the calls thread through: the account cache of the resolver and the service.\<close>

type_synonym 's sync_state = "(string \<Rightarrow> string option) \<times> 's"

definition syncTunnelGroup ::
    "(routeEntry list \<Rightarrow> routeEntry list) \<Rightarrow> backendResolver \<Rightarrow> 's CloudflareAPI
     \<Rightarrow> ('sel, HTTPRouteRule list, GRPCRouteRule list) tunnelGroup \<Rightarrow> 's sync_state \<Rightarrow> tunnelGroupResult \<times> 's sync_state" where
  "syncTunnelGroup sort_slice rs cf grp state =
     (case groupRoutes grp of (httpRoutes, grpcRoutes) \<Rightarrow>
       (let httpBuild = Builder_Build sort_slice rs httpRoutes;
            grpcBuild = GRPCBuilder_Build sort_slice rs grpcRoutes;
            result = \<lparr> tr_httpFailedRefs = bld_FailedRefs httpBuild, tr_grpcFailedRefs = bld_FailedRefs grpcBuild,
                       tr_ruleCount = 0, tr_written = False, tr_err = None \<rparr>;
            desiredRules = mergeAndSortRules (bld_Rules httpBuild) (bld_Rules grpcBuild);
            resolved = tg_resolved grp; token = rc_APIToken resolved; tunnel = rc_TunnelID resolved in
        case ResolveAccountID (cf_Accounts cf token) (fst state) resolved of
          (Inl err, cache) \<Rightarrow> (result \<lparr> tr_err := Some (Wrapped (InText ''resolving account for tunnel'') err) \<rparr>, cache, snd state)
        | (Inr accountID, cache) \<Rightarrow>
            (case cf_Get cf token accountID tunnel (snd state) of
               Inl err \<Rightarrow> (result \<lparr> tr_err := Some err \<rparr>, cache, snd state)
             | Inr current \<Rightarrow>
                 (let finalRules = final_rules current desiredRules;
                      result = result \<lparr> tr_ruleCount := length finalRules \<rparr> in
                  if length finalRules > maxIngressRules
                  then (result \<lparr> tr_err := Some (Sentinel (errCtl RulesLimitExceeded)) \<rparr>, cache, snd state)
                  else if RulesUnchanged current finalRules then (result, cache, snd state)
                  else (case cf_Update cf token accountID tunnel finalRules (snd state) of
                          (Some err, s) \<Rightarrow> (result \<lparr> tr_err := Some err \<rparr>, cache, s)
                        | (None, s) \<Rightarrow> (result \<lparr> tr_written := True \<rparr>, cache, s))))))"

section \<open>All tunnels\<close>

record tunnelGroupsOutcome =
  to_httpFailedRefs :: "BackendRefError list"
  to_grpcFailedRefs :: "BackendRefError list"
  to_totalRules :: nat
  to_anyWritten :: bool
  to_groupErrs :: "gerr list"
  to_failedPartitions :: "string \<Rightarrow> gerr option"

definition add_group_result ::
    "('sel, 'h, 'g) tunnelGroup \<Rightarrow> tunnelGroupResult \<Rightarrow> tunnelGroupsOutcome \<Rightarrow> tunnelGroupsOutcome" where
  "add_group_result grp result outcome =
     (let outcome = outcome \<lparr> to_httpFailedRefs := to_httpFailedRefs outcome @ tr_httpFailedRefs result,
                              to_grpcFailedRefs := to_grpcFailedRefs outcome @ tr_grpcFailedRefs result,
                              to_totalRules := to_totalRules outcome + tr_ruleCount result,
                              to_anyWritten := to_anyWritten outcome \<or> tr_written result \<rparr> in
      case tr_err result of
        None \<Rightarrow> outcome
      | Some err \<Rightarrow>
          outcome \<lparr> to_groupErrs := to_groupErrs outcome @ [err],
                    to_failedPartitions :=
                      foldl (\<lambda>m p. m(pt_Key p \<mapsto> err)) (to_failedPartitions outcome) (tg_partitions grp) \<rparr>)"

fun sync_groups where
  "sync_groups sort_slice rs cf [] outcome state = (outcome, state)"
| "sync_groups sort_slice rs cf (grp # grps) outcome state =
     (case syncTunnelGroup sort_slice rs cf grp state of
        (result, state) \<Rightarrow> sync_groups sort_slice rs cf grps (add_group_result grp result outcome) state)"

definition syncTunnelGroups where
  "syncTunnelGroups sort_slice rs cf groups state =
     sync_groups sort_slice rs cf groups
       \<lparr> to_httpFailedRefs = [], to_grpcFailedRefs = [], to_totalRules = 0, to_anyWritten = False, to_groupErrs = [],
         to_failedPartitions = Map.empty \<rparr> state"


section \<open>What a document is\<close>

interpretation ingress_order: strict_weak_order ingress_precedes
  by unfold_locales (auto simp: ingress_precedes_def Let_def split: if_splits)

abbreviation catch_all :: IngressRule where
  "catch_all \<equiv> \<lparr> ir_Hostname = None, ir_Path = None, ir_Service = CatchAllService \<rparr>"

abbreviation plain_rules :: "IngressRule list \<Rightarrow> Rule list" where
  "plain_rules rules \<equiv> filter (\<lambda>r. \<not> IsCatchAll r) (map RuleFromUpdate rules)"

text \<open>A field that is present is not empty; what the API returns is read back in this form.\<close>

definition canonical :: "IngressRule \<Rightarrow> bool" where
  "canonical r \<longleftrightarrow> ir_Hostname r \<noteq> Some '''' \<and> ir_Path r \<noteq> Some ''''"

lemma RulesEqual_iff [simp]: "RulesEqual a b \<longleftrightarrow> a = b"
  by (cases a, cases b) (simp add: RulesEqual_def)

lemma RuleFromGet_id [simp]: "RuleFromGet r = r"
  by (simp add: RuleFromGet_def)

lemma opt_value_if [simp]: "opt_value (if s \<noteq> '''' then Some s else None) = s" "opt_value (Some s) = s" "opt_value None = ''''"
  by (simp_all add: opt_value_def)

lemma RuleFromUpdate_convert [simp]: "RuleFromUpdate (convertGetToUpdate r) = r"
  by (simp add: RuleFromUpdate_def convertGetToUpdate_def)

lemma canonical_convert [simp]: "canonical (convertGetToUpdate r)"
  by (simp add: canonical_def convertGetToUpdate_def)

lemma convert_canonical [simp]: "canonical r \<Longrightarrow> convertGetToUpdate (RuleFromUpdate r) = r"
  by (cases r) (auto simp: canonical_def RuleFromUpdate_def convertGetToUpdate_def opt_value_def split: option.splits)

lemma IsCatchAll_catch_all [simp]: "IsCatchAll (RuleFromUpdate catch_all)"
  by (simp add: IsCatchAll_def RuleFromUpdate_def)

lemma RulesUnchanged_iff: "RulesUnchanged current rules \<longleftrightarrow> current = map RuleFromUpdate rules"
  by (induction current rules rule: RulesUnchanged.induct) auto

lemma DiffRules_eq:
  "DiffRules current desired =
     (filter (\<lambda>d. \<not> IsCatchAll (RuleFromUpdate d) \<and> RuleFromUpdate d \<notin> set current) desired,
      filter (\<lambda>c. \<not> IsCatchAll c \<and> c \<notin> RuleFromUpdate ` set desired) current)"
  by (auto simp: DiffRules_def Let_def list_ex_iff map_idI intro!: filter_cong)

lemma ApplyDiff_DiffRules:
  "DiffRules current desired = (toAdd, toRemove) \<Longrightarrow>
   ApplyDiff current toAdd toRemove =
     map convertGetToUpdate (filter (\<lambda>c. \<not> IsCatchAll c \<and> c \<in> RuleFromUpdate ` set desired) current)
     @ filter (\<lambda>d. \<not> IsCatchAll (RuleFromUpdate d) \<and> RuleFromUpdate d \<notin> set current) desired"
  by (auto simp: DiffRules_eq ApplyDiff_def list_ex_iff intro!: arg_cong [where f = "map convertGetToUpdate"] filter_cong)

lemma final_rules_eq:
  "final_rules current desired =
     sortIngressRules
       (map convertGetToUpdate (filter (\<lambda>c. \<not> IsCatchAll c \<and> c \<in> RuleFromUpdate ` set desired) current)
        @ filter (\<lambda>d. \<not> IsCatchAll (RuleFromUpdate d) \<and> RuleFromUpdate d \<notin> set current) desired) @ [catch_all]"
proof -
  obtain toAdd toRemove where d: "DiffRules current desired = (toAdd, toRemove)" by (metis surj_pair)
  let ?rules = "map convertGetToUpdate (filter (\<lambda>c. \<not> IsCatchAll c \<and> c \<in> RuleFromUpdate ` set desired) current)
        @ filter (\<lambda>d. \<not> IsCatchAll (RuleFromUpdate d) \<and> RuleFromUpdate d \<notin> set current) desired"
  have "filter (\<lambda>r. \<not> IsCatchAll (RuleFromUpdate r)) (sortIngressRules ?rules) = sortIngressRules ?rules"
    by (intro filter_True) (auto simp: sortIngressRules_def)
  then show ?thesis by (simp add: final_rules_def d ApplyDiff_DiffRules [OF d] EnsureCatchAll_def)
qed

text \<open>The rules of a document, as a set, and its order: most specific first, the catch-all last and nowhere else.\<close>

definition document_of :: "Rule list \<Rightarrow> Rule set \<Rightarrow> bool" where
  "document_of doc rules \<longleftrightarrow>
     set (butlast doc) = rules \<and> doc \<noteq> [] \<and> last doc = RuleFromUpdate catch_all \<and> list_all (\<lambda>r. \<not> IsCatchAll r) (butlast doc)
     \<and> sorted_wrt (\<lambda>a b. \<not> ingress_precedes (convertGetToUpdate b) (convertGetToUpdate a)) doc"

lemma catch_all_last: "\<not> ingress_precedes catch_all r"
  by (simp add: ingress_precedes_def Let_def opt_value_def split: option.splits)

lemma image_split_by: "{c \<in> C. P c \<and> c \<in> f ` D} \<union> f ` {d \<in> D. P (f d) \<and> f d \<notin> C} = {r \<in> f ` D. P r}"
  by blast

lemma final_rules_shape:
  assumes "\<forall>d \<in> set desired. canonical d"
  obtains rules where "final_rules current desired = sortIngressRules rules @ [catch_all]"
    "RuleFromUpdate ` set rules = set (plain_rules desired)" "\<forall>r \<in> set rules. canonical r"
proof
  let ?kept = "filter (\<lambda>c. \<not> IsCatchAll c \<and> c \<in> RuleFromUpdate ` set desired) current"
  let ?new = "filter (\<lambda>d. \<not> IsCatchAll (RuleFromUpdate d) \<and> RuleFromUpdate d \<notin> set current) desired"
  show "final_rules current desired = sortIngressRules (map convertGetToUpdate ?kept @ ?new) @ [catch_all]"
    by (rule final_rules_eq)
  show "\<forall>r \<in> set (map convertGetToUpdate ?kept @ ?new). canonical r" using assms by auto
  have "RuleFromUpdate ` set (map convertGetToUpdate ?kept @ ?new) = set ?kept \<union> RuleFromUpdate ` set ?new"
    by (simp add: image_Un image_image)
  also have "\<dots> = set (plain_rules desired)"
    unfolding set_filter set_map by (rule image_split_by)
  finally show "RuleFromUpdate ` set (map convertGetToUpdate ?kept @ ?new) = set (plain_rules desired)" .
qed

lemma final_rules_document:
  assumes "\<forall>d \<in> set desired. canonical d"
  shows "document_of (map RuleFromUpdate (final_rules current desired)) (set (plain_rules desired))"
    and "\<forall>r \<in> set (final_rules current desired). canonical r"
proof -
  from assms obtain rules where f: "final_rules current desired = sortIngressRules rules @ [catch_all]"
    and s: "RuleFromUpdate ` set rules = set (plain_rules desired)" and can: "\<forall>r \<in> set rules. canonical r"
    by (rule final_rules_shape)
  have same: "set (sortIngressRules rules) = set rules" by (simp add: sortIngressRules_def)
  have sorted: "sorted_wrt (\<lambda>a b. \<not> ingress_precedes b a) (sortIngressRules rules @ [catch_all])"
    unfolding sorted_wrt_append sortIngressRules_def by (simp add: ingress_order.sorted_sort_stable catch_all_last)
  have "canonical catch_all" by (simp add: canonical_def)
  with can same show cans: "\<forall>r \<in> set (final_rules current desired). canonical r" by (simp add: f)
  have "sorted_wrt (\<lambda>a b. \<not> ingress_precedes (convertGetToUpdate b) (convertGetToUpdate a))
      (map RuleFromUpdate (final_rules current desired))"
    unfolding sorted_wrt_map f by (rule sorted_wrt_mono_rel [OF _ sorted]) (use cans f in auto)
  moreover have "set (map RuleFromUpdate (sortIngressRules rules)) = set (plain_rules desired)" using s same by simp
  moreover from this have "list_all (\<lambda>r. \<not> IsCatchAll r) (map RuleFromUpdate (sortIngressRules rules))"
    unfolding list_all_iff by simp
  ultimately show "document_of (map RuleFromUpdate (final_rules current desired)) (set (plain_rules desired))"
    unfolding document_of_def f by simp
qed

lemma final_rules_stable:
  assumes "\<forall>d \<in> set desired. canonical d" and "set (plain_rules desired') = set (plain_rules desired)"
  shows "RulesUnchanged (map RuleFromUpdate (final_rules current desired))
     (final_rules (map RuleFromUpdate (final_rules current desired)) desired')"
proof -
  let ?f = "final_rules current desired"
  from assms(1) obtain rules0 where f: "?f = sortIngressRules rules0 @ [catch_all]"
    and s0: "RuleFromUpdate ` set rules0 = set (plain_rules desired)" and can0: "\<forall>r \<in> set rules0. canonical r"
    by (rule final_rules_shape)
  define rules where "rules = sortIngressRules rules0"
  have same: "set rules = set rules0" and idem: "sortIngressRules rules = rules"
    by (simp_all add: rules_def sortIngressRules_def ingress_order.sort_stable_idem)
  have sr: "RuleFromUpdate ` set rules = {r \<in> RuleFromUpdate ` set desired'. \<not> IsCatchAll r}"
    unfolding same s0 assms(2) [symmetric] by simp
  have keep: "filter (\<lambda>c. \<not> IsCatchAll c \<and> c \<in> RuleFromUpdate ` set desired') (map RuleFromUpdate (rules @ [catch_all]))
      = map RuleFromUpdate rules"
  proof -
    have "c \<in> set (map RuleFromUpdate rules) \<Longrightarrow> \<not> IsCatchAll c \<and> c \<in> RuleFromUpdate ` set desired'" for c
      using sr by simp
    then show ?thesis by simp
  qed
  have fresh: "filter (\<lambda>d. \<not> IsCatchAll (RuleFromUpdate d) \<and> RuleFromUpdate d \<notin> set (map RuleFromUpdate (rules @ [catch_all]))) desired' = []"
    unfolding filter_empty_conv using sr by auto
  have again: "map convertGetToUpdate (map RuleFromUpdate rules) = rules"
    unfolding map_map by (rule map_idI) (use can0 same in simp)
  have "final_rules (map RuleFromUpdate (rules @ [catch_all])) desired' = rules @ [catch_all]"
    unfolding final_rules_eq keep fresh again by (simp add: idem)
  then show ?thesis unfolding f rules_def [symmetric] by (simp add: RulesUnchanged_iff)
qed

section \<open>The rules of a group\<close>

definition desired_rules ::
    "(routeEntry list \<Rightarrow> routeEntry list) \<Rightarrow> backendResolver
     \<Rightarrow> ('sel, HTTPRouteRule list, GRPCRouteRule list) tunnelGroup \<Rightarrow> IngressRule list" where
  "desired_rules sort_slice rs grp =
     mergeAndSortRules (bld_Rules (Builder_Build sort_slice rs (fst (groupRoutes grp))))
       (bld_Rules (GRPCBuilder_Build sort_slice rs (snd (groupRoutes grp))))"

text \<open>The entries of the routes of a group, before they are sorted.\<close>

definition group_entries ::
    "backendResolver \<Rightarrow> ('sel, HTTPRouteRule list, GRPCRouteRule list) tunnelGroup \<Rightarrow> routeEntry list" where
  "group_entries rs grp =
     concat (map (\<lambda>r. fst (extractProjectedEntries rs HTTPRouteAdapter r)) (fst (groupRoutes grp)))
     @ concat (map (\<lambda>r. fst (extractProjectedEntries rs GRPCRouteAdapter r)) (snd (groupRoutes grp)))"

definition entry_rule :: "routeEntry \<Rightarrow> Rule" where
  "entry_rule e = \<lparr> rl_Hostname = re_hostname e,
     rl_Path = (if re_path e = '''' \<or> re_path e = ''/'' then '''' else if re_priority e = 0 then re_path e @ ''*'' else re_path e),
     rl_Service = re_service e \<rparr>"

text \<open>What is known of \<^verbatim>\<open>sort.Slice\<close> for this order.\<close>

definition sorts_entries :: "(routeEntry list \<Rightarrow> routeEntry list) \<Rightarrow> bool" where
  "sorts_entries sort_slice \<longleftrightarrow> (\<forall>es. sort_slice_result entry_precedes es (sort_slice es))"

definition served_rules :: "routeEntry list \<Rightarrow> Rule set" where
  "served_rules es = entry_rule ` {e \<in> set es. re_hostname e \<noteq> ''*''}"

lemma entries_rules:
  "RuleFromUpdate ` set (entriesToIngressRules es) = served_rules es"
proof -
  have "set (entriesToIngressRules es) =
      (\<lambda>e. \<lparr> ir_Hostname = Some (re_hostname e), ir_Path = (if re_path e \<noteq> '''' \<and> re_path e \<noteq> ''/''
           then Some (if re_priority e = 0 then re_path e @ ''*'' else re_path e) else None), ir_Service = re_service e \<rparr>)
      ` {e \<in> set es. re_hostname e \<noteq> ''*''}"
    by (auto simp: entriesToIngressRules_def List.map_filter_def split: if_splits)
  then show ?thesis
    by (auto simp: served_rules_def image_image RuleFromUpdate_def entry_rule_def intro!: image_cong)
qed

lemma entries_canonical:
  "\<forall>e \<in> set es. re_hostname e \<noteq> '''' \<Longrightarrow> r \<in> set (entriesToIngressRules es) \<Longrightarrow> canonical r \<and> \<not> IsCatchAll (RuleFromUpdate r)"
  by (auto simp: entriesToIngressRules_def List.map_filter_def canonical_def IsCatchAll_def RuleFromUpdate_def split: if_splits)

lemma sorts_entries_set: "sorts_entries ss \<Longrightarrow> set (ss es) = set es"
  unfolding sorts_entries_def sort_slice_result_def by (metis set_mset_mset)

lemma extracted_hostnames:
  assumes "e \<in> set (fst (extract_rules rs ns n k hs rules))" shows "re_hostname e \<in> set hs"
  using assms
  by (induction rules) (auto simp: case_prod_beta rule_entries_def split: if_splits)

lemma extracted_named:
  assumes "e \<in> set (fst (extractProjectedEntries rs ad r))" and "'''' \<notin> set (rt_Hostnames r)"
  shows "re_hostname e \<noteq> ''''"
  using extracted_hostnames [OF assms(1) [unfolded extractProjectedEntries_def]] assms(2)
  by (auto simp: GetHostnames_def split: if_splits)

lemma group_entries_named:
  assumes "\<forall>r \<in> set (fst (groupRoutes grp)). '''' \<notin> set (rt_Hostnames r)"
    and "\<forall>r \<in> set (snd (groupRoutes grp)). '''' \<notin> set (rt_Hostnames r)"
    and "e \<in> set (group_entries rs grp)"
  shows "re_hostname e \<noteq> ''''"
  using assms unfolding group_entries_def by (auto dest!: extracted_named)

lemma desired_rules_exact:
  assumes "sorts_entries ss"
    and "\<forall>r \<in> set (fst (groupRoutes grp)). '''' \<notin> set (rt_Hostnames r)"
    and "\<forall>r \<in> set (snd (groupRoutes grp)). '''' \<notin> set (rt_Hostnames r)"
  shows "set (plain_rules (desired_rules ss rs grp)) = served_rules (group_entries rs grp)"
    and "\<forall>d \<in> set (desired_rules ss rs grp). canonical d"
proof -
  let ?h = "concat (map (\<lambda>r. fst (extractProjectedEntries rs HTTPRouteAdapter r)) (fst (groupRoutes grp)))"
  let ?g = "concat (map (\<lambda>r. fst (extractProjectedEntries rs GRPCRouteAdapter r)) (snd (groupRoutes grp)))"
  have named: "\<forall>e \<in> set (ss ?h) \<union> set (ss ?g). re_hostname e \<noteq> ''''"
    using group_entries_named [OF assms(2,3)] unfolding sorts_entries_set [OF assms(1)] group_entries_def by auto
  let ?hr = "entriesToIngressRules (ss ?h)" and ?gr = "entriesToIngressRules (ss ?g)"
  have built: "bld_Rules (Builder_Build ss rs (fst (groupRoutes grp))) = ?hr @ [catch_all]"
    "bld_Rules (GRPCBuilder_Build ss rs (snd (groupRoutes grp))) = ?gr"
    by (simp_all add: Builder_Build_def GRPCBuilder_Build_def GenericBuilder_Build_def HTTPRouteAdapter_def GRPCRouteAdapter_def
        comp_def)
  have plain: "\<forall>r \<in> set ?hr \<union> set ?gr. canonical r \<and> \<not> IsCatchAll (RuleFromUpdate r)"
    using entries_canonical named by blast
  then have f: "filterOutCatchAll (?hr @ [catch_all]) = ?hr" "filterOutCatchAll ?gr = ?gr"
    unfolding filterOutCatchAll_def by simp_all
  have d: "set (desired_rules ss rs grp) = set ?hr \<union> set ?gr"
    unfolding desired_rules_def mergeAndSortRules_def built f sortIngressRules_def by simp
  show "\<forall>d \<in> set (desired_rules ss rs grp). canonical d" using plain unfolding d by blast
  have "set (plain_rules (desired_rules ss rs grp)) = RuleFromUpdate ` (set ?hr \<union> set ?gr)"
    using plain unfolding set_filter set_map d by auto
  also have "\<dots> = served_rules (group_entries rs grp)"
    unfolding image_Un entries_rules group_entries_def served_rules_def set_append sorts_entries_set [OF assms(1)] by blast
  finally show "set (plain_rules (desired_rules ss rs grp)) = served_rules (group_entries rs grp)" .
qed


section \<open>Convergence\<close>

text \<open>A document reads back as it was written, and writing one tunnel leaves the others alone.\<close>

definition stores_documents :: "'s CloudflareAPI \<Rightarrow> bool" where
  "stores_documents cf \<longleftrightarrow>
     (\<forall>token account tunnel rules s s'. cf_Update cf token account tunnel rules s = (None, s') \<longrightarrow>
        cf_Get cf token account tunnel s' = Inr (map RuleFromUpdate rules)
        \<and> (\<forall>token' account' tunnel'. tunnel' \<noteq> tunnel \<longrightarrow>
             cf_Get cf token' account' tunnel' s' = cf_Get cf token' account' tunnel' s))"

lemma ResolveAccountID_again:
  "ResolveAccountID accounts cache resolved = (Inr a, cache') \<Longrightarrow> ResolveAccountID accounts cache' resolved = (Inr a, cache')"
  by (auto simp: ResolveAccountID_def split: if_splits option.splits sum.splits list.splits)

lemma syncTunnelGroup_ok:
  assumes "syncTunnelGroup ss rs cf grp state = (result, cache, s)" and "tr_err result = None"
  obtains acc current where
    "ResolveAccountID (cf_Accounts cf (rc_APIToken (tg_resolved grp))) (fst state) (tg_resolved grp) = (Inr acc, cache)"
    "cf_Get cf (rc_APIToken (tg_resolved grp)) acc (rc_TunnelID (tg_resolved grp)) (snd state) = Inr current"
    "length (final_rules current (desired_rules ss rs grp)) \<le> maxIngressRules"
    "if RulesUnchanged current (final_rules current (desired_rules ss rs grp)) then s = snd state \<and> \<not> tr_written result
     else cf_Update cf (rc_APIToken (tg_resolved grp)) acc (rc_TunnelID (tg_resolved grp))
            (final_rules current (desired_rules ss rs grp)) (snd state) = (None, s) \<and> tr_written result"
proof -
  let ?tok = "rc_APIToken (tg_resolved grp)" and ?tun = "rc_TunnelID (tg_resolved grp)" and ?d = "desired_rules ss rs grp"
  obtain ra cache0 where ra: "ResolveAccountID (cf_Accounts cf ?tok) (fst state) (tg_resolved grp) = (ra, cache0)"
    by (metis surj_pair)
  note run = assms(1) [unfolded syncTunnelGroup_def case_prod_beta [of _ "groupRoutes grp"] Let_def
      desired_rules_def [symmetric] ra]
  obtain acc where acc: "ra = Inr acc" using run assms(2) by (cases ra) auto
  obtain current where current: "cf_Get cf ?tok acc ?tun (snd state) = Inr current"
    using run assms(2) by (cases "cf_Get cf ?tok acc ?tun (snd state)") (auto simp: acc)
  obtain e s' where u: "cf_Update cf ?tok acc ?tun (final_rules current ?d) (snd state) = (e, s')" by (metis surj_pair)
  note facts = run [unfolded acc sum.case prod.case current u] and no_err = assms(2)
  have "cache = cache0 \<and> length (final_rules current ?d) \<le> maxIngressRules"
    using facts no_err by (cases e) (auto split: if_splits)
  moreover have "if RulesUnchanged current (final_rules current ?d) then s = snd state \<and> \<not> tr_written result
      else (e, s') = (None, s) \<and> tr_written result"
    using facts no_err by (cases e) (auto split: if_splits)
  ultimately show thesis using that [of acc current] ra acc current u by metis
qed

lemma syncTunnelGroup_unchanged:
  assumes "ResolveAccountID (cf_Accounts cf (rc_APIToken (tg_resolved grp))) cache (tg_resolved grp) = (Inr acc, cache)"
    and "cf_Get cf (rc_APIToken (tg_resolved grp)) acc (rc_TunnelID (tg_resolved grp)) s = Inr current"
    and "length (final_rules current (desired_rules ss rs grp)) \<le> maxIngressRules"
    and "RulesUnchanged current (final_rules current (desired_rules ss rs grp))"
  shows "\<exists>result. syncTunnelGroup ss rs cf grp (cache, s) = (result, cache, s) \<and> tr_err result = None \<and> \<not> tr_written result"
  using assms unfolding syncTunnelGroup_def case_prod_beta Let_def desired_rules_def [symmetric] by simp

text \<open>C29: a tunnel converges in one step. After a synchronisation without error the deployed document has exactly the
  rules of the group's routes, most specific host and longest path first, the catch-all once and at the end, and at most
  a thousand rules; no other tunnel changed, and a further synchronisation, in whatever order its rules are sorted,
  writes nothing. Hostnames are not empty, and the service stores what it is sent.\<close>

theorem tunnel_sync_converges:
  assumes "stores_documents cf" and "sorts_entries ss" and "sorts_entries ss'"
    and "\<forall>r \<in> set (fst (groupRoutes grp)). '''' \<notin> set (rt_Hostnames r)"
    and "\<forall>r \<in> set (snd (groupRoutes grp)). '''' \<notin> set (rt_Hostnames r)"
    and "syncTunnelGroup ss rs cf grp state = (result, cache, s)" and "tr_err result = None"
  shows "(\<exists>acc doc. cf_Get cf (rc_APIToken (tg_resolved grp)) acc (rc_TunnelID (tg_resolved grp)) s = Inr doc
            \<and> document_of doc (served_rules (group_entries rs grp)) \<and> length doc \<le> 1000)
    \<and> (\<forall>token acc tunnel. tunnel \<noteq> rc_TunnelID (tg_resolved grp) \<longrightarrow>
         cf_Get cf token acc tunnel s = cf_Get cf token acc tunnel (snd state))
    \<and> (\<exists>result'. syncTunnelGroup ss' rs cf grp (cache, s) = (result', cache, s) \<and> tr_err result' = None \<and> \<not> tr_written result')"
proof -
  let ?tok = "rc_APIToken (tg_resolved grp)" and ?tun = "rc_TunnelID (tg_resolved grp)"
  let ?d = "desired_rules ss rs grp" and ?d' = "desired_rules ss' rs grp"
  note d = desired_rules_exact [OF assms(2,4,5), of rs] and d' = desired_rules_exact [OF assms(3,4,5), of rs]
  obtain acc current where a: "ResolveAccountID (cf_Accounts cf ?tok) (fst state) (tg_resolved grp) = (Inr acc, cache)"
    and g: "cf_Get cf ?tok acc ?tun (snd state) = Inr current" and len: "length (final_rules current ?d) \<le> maxIngressRules"
    and w: "if RulesUnchanged current (final_rules current ?d) then s = snd state \<and> \<not> tr_written result
       else cf_Update cf ?tok acc ?tun (final_rules current ?d) (snd state) = (None, s) \<and> tr_written result"
    using syncTunnelGroup_ok [OF assms(6,7)] .
  let ?doc = "map RuleFromUpdate (final_rules current ?d)"
  have "cf_Get cf ?tok acc ?tun s = Inr ?doc \<and>
      (\<forall>token account tunnel. tunnel \<noteq> ?tun \<longrightarrow> cf_Get cf token account tunnel s = cf_Get cf token account tunnel (snd state))"
  proof (cases "RulesUnchanged current (final_rules current ?d)")
    case True
    with w g show ?thesis by (simp add: RulesUnchanged_iff)
  next
    case False
    with w have "cf_Update cf ?tok acc ?tun (final_rules current ?d) (snd state) = (None, s)" by simp
    with assms(1) show ?thesis unfolding stores_documents_def by blast
  qed
  then have got: "cf_Get cf ?tok acc ?tun s = Inr ?doc"
    and others: "\<forall>token account tunnel. tunnel \<noteq> ?tun \<longrightarrow> cf_Get cf token account tunnel s = cf_Get cf token account tunnel (snd state)"
    by blast+
  have doc: "document_of ?doc (served_rules (group_entries rs grp))"
    using final_rules_document(1) [OF d(2), of current] unfolding d(1) .
  have stable: "RulesUnchanged ?doc (final_rules ?doc ?d')"
    by (rule final_rules_stable [OF d(2)]) (simp only: d(1) d'(1))
  then have "length (final_rules ?doc ?d') \<le> maxIngressRules"
    using len by (metis RulesUnchanged_iff length_map)
  note again = syncTunnelGroup_unchanged [OF ResolveAccountID_again [OF a] got this stable]
  have "\<exists>acc doc. cf_Get cf ?tok acc ?tun s = Inr doc \<and> document_of doc (served_rules (group_entries rs grp)) \<and> length doc \<le> 1000"
    using got doc len by (intro exI [of _ acc] exI [of _ ?doc]) (simp add: maxIngressRules_def)
  with again others show ?thesis by blast
qed


section \<open>Failures\<close>

fun group_results where
  "group_results sort_slice rs cf [] state = []"
| "group_results sort_slice rs cf (grp # grps) state =
     (case syncTunnelGroup sort_slice rs cf grp state of (result, state) \<Rightarrow> result # group_results sort_slice rs cf grps state)"

lemma length_group_results [simp]: "length (group_results ss rs cf grps state) = length grps"
  by (induction grps arbitrary: state) (auto split: prod.splits)

lemma foldl_mark: "foldl (\<lambda>m p. m(pt_Key p \<mapsto> err)) m ps k = (if k \<in> pt_Key ` set ps then Some err else m k)"
  by (induction ps arbitrary: m) auto

lemma add_group_result_failed:
  "to_failedPartitions (add_group_result grp result outcome) k =
     (if tr_err result \<noteq> None \<and> k \<in> pt_Key ` set (tg_partitions grp) then tr_err result else to_failedPartitions outcome k)"
  by (auto simp: add_group_result_def Let_def foldl_mark split: option.split)

lemma sync_groups_failed_other:
  "k \<notin> pt_Key ` set (concat (map tg_partitions grps)) \<Longrightarrow>
   to_failedPartitions (fst (sync_groups ss rs cf grps outcome state)) k = to_failedPartitions outcome k"
  by (induction grps arbitrary: outcome state) (auto simp: add_group_result_failed image_Un split: prod.splits)

lemma sync_groups_failed:
  assumes "distinct (map pt_Key (concat (map tg_partitions grps)))" and "i < length grps"
    and "p \<in> set (tg_partitions (grps ! i))" and "to_failedPartitions outcome (pt_Key p) = None"
  shows "to_failedPartitions (fst (sync_groups ss rs cf grps outcome state)) (pt_Key p) =
     tr_err (group_results ss rs cf grps state ! i)"
  using assms
proof (induction grps arbitrary: outcome state i)
  case (Cons grp grps)
  obtain result state' where r: "syncTunnelGroup ss rs cf grp state = (result, state')" by (metis surj_pair)
  show ?case
  proof (cases i)
    case 0
    with Cons.prems have "pt_Key p \<notin> pt_Key ` set (concat (map tg_partitions grps))"
      and "pt_Key p \<in> pt_Key ` set (tg_partitions grp)" by auto
    with Cons.prems(4) show ?thesis
      by (simp add: r 0 add_group_result_failed sync_groups_failed_other del: set_concat)
  next
    case (Suc j)
    with Cons.prems(2) have "grps ! j \<in> set grps" by simp
    with Cons.prems(3) Suc have p: "p \<in> set (concat (map tg_partitions grps))" by auto
    with Cons.prems(1) have "pt_Key p \<notin> pt_Key ` set (tg_partitions grp)" by auto
    then have "to_failedPartitions (add_group_result grp result outcome) (pt_Key p) = None"
      using Cons.prems(4) by (simp add: add_group_result_failed)
    from Cons.IH [OF _ _ _ this, of j state'] Cons.prems Suc show ?thesis by (simp add: r)
  qed
qed simp

text \<open>C30: a broken tunnel is the problem of its own tenants. The error a route reports for a Gateway is the error of the
  synchronisation of the tunnel that serves the Gateway's plane, and none when that one succeeded, whatever happened to
  the other tunnels. A Gateway whose own plane did not resolve is not served, and reports that instead.\<close>

theorem failures_stay_with_their_tunnel:
  assumes "distinct (map pt_Key (concat (map tg_partitions groups)))" and "i < length groups"
    and "p \<in> set (tg_partitions (groups ! i))" and "\<not> isBroken (Some infra) gw" and "gateway_partition (Some infra) gw = Some (pt_Key p)"
  shows "gatewaySyncError gw (to_failedPartitions (fst (syncTunnelGroups ss rs cf groups state))) (Some infra)
    = tr_err (group_results ss rs cf groups state ! i)"
proof -
  have "gatewaySyncError gw failed (Some infra) = failed (pt_Key p)" for failed
    using assms(4,5)
    by (auto simp: gateway_partition_def gatewaySyncError_def split: if_splits)
  then show ?thesis
    by (simp add: syncTunnelGroups_def sync_groups_failed [OF assms(1-3)])
qed


section \<open>An example\<close>

interpretation entry_order: strict_weak_order entry_precedes
  by unfold_locales (auto simp: entry_precedes_def split: if_splits)

lemma sort_stable_sorts_entries: "sorts_entries (sort_stable entry_precedes)"
  by (simp add: sorts_entries_def entry_order.sort_stable_is_sort_slice)

text \<open>A service that keeps one document per tunnel.\<close>

definition sample_cloudflare :: "(string \<Rightarrow> Rule list) CloudflareAPI" where
  "sample_cloudflare = \<lparr> cf_Accounts = \<lambda>token. Inr [''acc''], cf_Get = \<lambda>token account tunnel s. Inr (s tunnel),
     cf_Update = \<lambda>token account tunnel rules s. (None, s(tunnel := map RuleFromUpdate rules)) \<rparr>"

lemma sample_cloudflare_ok: "stores_documents sample_cloudflare"
  by (auto simp: stores_documents_def sample_cloudflare_def)

definition sample_resolver :: backendResolver where
  "sample_resolver = \<lparr> rsv_client = None, rsv_validator = None, rsv_clusterDomain = ''cluster.local'' \<rparr>"

definition sample_partition :: "string \<Rightarrow> (unit, HTTPRouteRule list, GRPCRouteRule list) routePartition" where
  "sample_partition key = \<lparr> pt_Key = key, pt_Gateway = None, pt_PerGateway = None, pt_HTTPRoutes = [example_route], pt_GRPCRoutes = [] \<rparr>"

definition sample_group :: "string \<Rightarrow> (unit, HTTPRouteRule list, GRPCRouteRule list) tunnelGroup" where
  "sample_group key = \<lparr> tg_resolved = \<lparr> rc_APIToken = ''t'', rc_AccountID = '''', rc_TunnelID = key, rc_ConfigName = ''c'' \<rparr>,
     tg_partitions = [sample_partition key] \<rparr>"

definition sample_sync where
  "sample_sync = syncTunnelGroup (sort_stable entry_precedes) sample_resolver sample_cloudflare (sample_group ''t1'')
     (Map.empty, \<lambda>tunnel. [RuleFromUpdate catch_all])"

theorem tunnel_sync_converges_witness:
  "(\<exists>acc doc. cf_Get sample_cloudflare ''t'' acc ''t1'' (snd (snd sample_sync)) = Inr doc
      \<and> document_of doc (served_rules (group_entries sample_resolver (sample_group ''t1''))) \<and> length doc \<le> 1000)
   \<and> cf_Get sample_cloudflare ''t'' ''a1'' ''t2'' (snd (snd sample_sync)) = Inr [RuleFromUpdate catch_all]
   \<and> (\<exists>result'. syncTunnelGroup (sort_stable entry_precedes) sample_resolver sample_cloudflare (sample_group ''t1'') (snd sample_sync)
        = (result', snd sample_sync) \<and> tr_err result' = None \<and> \<not> tr_written result')"
proof -
  have run: "syncTunnelGroup (sort_stable entry_precedes) sample_resolver sample_cloudflare (sample_group ''t1'')
      (Map.empty, \<lambda>tunnel. [RuleFromUpdate catch_all]) = (fst sample_sync, fst (snd sample_sync), snd (snd sample_sync))"
    by (simp add: sample_sync_def)
  have "tr_err (fst sample_sync) = None" by code_simp
  moreover have "\<forall>r \<in> set (fst (groupRoutes (sample_group ''t1''))). '''' \<notin> set (rt_Hostnames r)"
    and "\<forall>r \<in> set (snd (groupRoutes (sample_group ''t1''))). '''' \<notin> set (rt_Hostnames r)" by code_simp+
  moreover have "rc_APIToken (tg_resolved (sample_group ''t1'')) = ''t''" "rc_TunnelID (tg_resolved (sample_group ''t1'')) = ''t1''"
    by code_simp+
  moreover have "cf_Get sample_cloudflare token acc tunnel (\<lambda>tunnel. [RuleFromUpdate catch_all]) = Inr [RuleFromUpdate catch_all]" for token acc tunnel
    by (simp add: sample_cloudflare_def)
  ultimately show ?thesis
    using tunnel_sync_converges [OF sample_cloudflare_ok sort_stable_sorts_entries sort_stable_sorts_entries _ _ run] by simp
qed

theorem failures_stay_with_their_tunnel_witness:
  "gatewaySyncError ''a/g''
     (to_failedPartitions (fst (syncTunnelGroups (sort_stable entry_precedes) sample_resolver
        (sample_cloudflare \<lparr> cf_Get := \<lambda>token account tunnel s.
           if tunnel = ''t1'' then Inl (Sentinel (errCtl CloudflareAPIError)) else Inr (s tunnel) \<rparr>)
        [sample_group ''t1'', sample_group sharedPartitionKey] (Map.empty, \<lambda>tunnel. []))))
     (Some \<lparr> in_resolved = [], in_broken = {}, in_transient = {} \<rparr>)
   = tr_err (group_results (sort_stable entry_precedes) sample_resolver
        (sample_cloudflare \<lparr> cf_Get := \<lambda>token account tunnel s.
           if tunnel = ''t1'' then Inl (Sentinel (errCtl CloudflareAPIError)) else Inr (s tunnel) \<rparr>)
        [sample_group ''t1'', sample_group sharedPartitionKey] (Map.empty, \<lambda>tunnel. []) ! 1)"
  by (rule failures_stay_with_their_tunnel [where p = "sample_partition sharedPartitionKey"])
    (simp_all add: sample_group_def sample_partition_def sharedPartitionKey_def isBroken_def gateway_partition_def isResolved_def)

end
