(* ===== verification/Addresses.thy ===== *)
theory Addresses
  imports QueryMerge ConverterSpec
begin

text \<open>
  The addresses the controller writes, read back by \<^verbatim>\<open>url.Parse\<close>: the parts of a Service's address and of the placeholder
  of an external backend come back as they were put in.
\<close>

definition host_char :: "char \<Rightarrow> bool" where
  "host_char c \<longleftrightarrow> is_alnum c \<or> c \<in> set ''-._:''"

definition plain_host :: "string \<Rightarrow> bool" where
  "plain_host h \<longleftrightarrow> list_all host_char h
     \<and> (case last_index h (CHR '':'') of None \<Rightarrow> True | Some i \<Rightarrow> valid_optional_port (drop i h))"

lemma host_char_plain:
  assumes "host_char c"
  shows "c \<noteq> CHR ''%''" "c \<noteq> CHR ''/''" "c \<noteq> CHR ''?''" "c \<noteq> CHR ''#''" "c \<noteq> CHR ''@''" "c \<noteq> CHR ''[''" "\<not> is_ctl c"
    "\<not> should_escape encodeHost c"
  using assms by (auto simp: host_char_def is_alnum_def is_ctl_def should_escape_def Let_def)

lemma plain_host_fresh:
  assumes "plain_host h"
  shows "CHR ''%'' \<notin> set h" "CHR ''/'' \<notin> set h" "CHR ''?'' \<notin> set h" "CHR ''#'' \<notin> set h" "CHR ''@'' \<notin> set h"
    "\<not> list_ex is_ctl h" "\<not> has_prefix h ''[''"
proof -
  have all: "\<And>c. c \<in> set h \<Longrightarrow> host_char c" using assms by (simp add: plain_host_def list_all_iff)
  show "CHR ''%'' \<notin> set h" "CHR ''/'' \<notin> set h" "CHR ''?'' \<notin> set h" "CHR ''#'' \<notin> set h" "CHR ''@'' \<notin> set h"
    using all host_char_plain by blast+
  show "\<not> list_ex is_ctl h" using all host_char_plain(7) by (auto simp: list_ex_iff)
  have "CHR ''['' \<notin> set h" using all host_char_plain(6) by blast
  then show "\<not> has_prefix h ''[''" by (auto simp: has_prefix_iff)
qed

lemma unescape_host_id:
  "list_all (\<lambda>c. c \<noteq> CHR ''%'' \<and> \<not> should_escape encodeHost c) h \<Longrightarrow> url_unescape encodeHost h = Some h"
  by (induction h) auto

lemma parse_authority_plain: "plain_host h \<Longrightarrow> parse_authority h = Some h"
proof -
  assume h: "plain_host h"
  then have "url_unescape encodeHost h = Some h"
    by (intro unescape_host_id) (auto simp: plain_host_def list_all_iff dest: host_char_plain)
  moreover have "last_index h (CHR ''@'') = None" using plain_host_fresh [OF h] by (simp add: last_index_None)
  ultimately show ?thesis
    using h plain_host_fresh(7) [OF h]
    by (auto simp: parse_authority_def parse_host_def plain_host_def split: option.splits)
qed

definition known_scheme :: "string \<Rightarrow> bool" where
  "known_scheme s \<longleftrightarrow> s \<in> {''http'', ''https'', ''externalbackend''}"

lemma known_scheme_read: "known_scheme s \<Longrightarrow> get_scheme True (s @ '':'' @ r) '''' (s @ '':'' @ r) = Some (s, r)"
  by (auto simp: known_scheme_def is_alpha_def of_char_def)

lemma known_scheme_plain:
  "known_scheme s \<Longrightarrow> CHR ''#'' \<notin> set s \<and> \<not> list_ex is_ctl s \<and> to_lower s = s \<and> s \<noteq> ''''"
  by (auto simp: known_scheme_def is_ctl_def of_char_def to_lower_def char_lower_def)

lemma has_suffix_char: "has_suffix s [c] \<longleftrightarrow> s \<noteq> [] \<and> last s = c"
  by (cases s rule: rev_cases) (auto simp: has_suffix_iff)

text \<open>An address without path; the query is absent or has no question mark.\<close>

lemma url_Parse_address:
  assumes "known_scheme s" and "plain_host h" and "q = '''' \<or> (\<exists>x. q = ''?'' @ x \<and> x \<noteq> '''')"
    and "list_all (\<lambda>c. c \<noteq> CHR ''#'' \<and> \<not> is_ctl c) q" and "CHR ''?'' \<notin> set (drop 1 q)"
  shows "url_Parse (s @ ''://'' @ h @ q) =
    Some (empty_url \<lparr> url_Scheme := s, url_Host := h, url_RawQuery := drop 1 q \<rparr>)"
proof -
  let ?raw = "s @ '':'' @ (''//'' @ h @ q)"
  note h = plain_host_fresh [OF assms(2)] and s = known_scheme_plain [OF assms(1)]
  have "CHR ''#'' \<notin> set ?raw" using h s assms(4) by (auto simp: list_all_iff)
  then have cut: "str_cut ?raw ''#'' = None" by (intro str_cut_none) auto
  have "\<not> is_ctl (CHR '':'')" "\<not> is_ctl (CHR ''/'')" by code_simp+
  moreover have "\<not> list_ex is_ctl q" using assms(4) by (auto simp: list_ex_iff list_all_iff)
  ultimately have ctl: "\<not> list_ex is_ctl ?raw" using h(6) s by simp
  have star: "?raw \<noteq> ''*''"
  proof
    assume "?raw = ''*''"
    then have "length ?raw = 1" by simp
    then show False by simp
  qed
  have q: "(if has_suffix (''//'' @ h @ q) ''?'' \<and> count_list (''//'' @ h @ q) (CHR ''?'') = 1
       then (take (length (''//'' @ h @ q) - 1) (''//'' @ h @ q), '''')
       else case str_cut (''//'' @ h @ q) ''?'' of None \<Rightarrow> (''//'' @ h @ q, '''') | Some p \<Rightarrow> p) = (''//'' @ h, drop 1 q)"
  proof (cases "q = ''''")
    case True
    then have fresh: "CHR ''?'' \<notin> set (''//'' @ h @ q)" using h by auto
    then have "\<not> has_suffix (''//'' @ h @ q) ''?''" unfolding has_suffix_char using last_in_set by metis
    moreover have "str_cut (''//'' @ h @ q) ''?'' = None" using fresh by (intro str_cut_none) auto
    ultimately show ?thesis using True by simp
  next
    case False
    then obtain x where x: "q = ''?'' @ x" "x \<noteq> ''''" using assms(3) by blast
    have "last (''//'' @ h @ q) = last x" using x by simp
    moreover have "last x \<noteq> CHR ''?''" using last_in_set [OF x(2)] assms(5) x(1) by (intro notI) simp
    ultimately have "\<not> has_suffix (''//'' @ h @ q) ''?''" unfolding has_suffix_char by metis
    moreover have "str_cut ((''//'' @ h) @ CHR ''?'' # x) ''?'' = Some (''//'' @ h, x)"
      using h by (intro str_cut_fresh) auto
    ultimately show ?thesis using x by simp
  qed
  have body: "str_cut h ''/'' = None" using h(2) by (intro str_cut_none [of "CHR ''/''"]) auto
  have "url_Parse ?raw = Some (empty_url \<lparr> url_Scheme := s, url_Host := h, url_RawQuery := drop 1 q \<rparr>)"
    unfolding url_Parse_def Let_def cut option.case if_not_P [OF ctl] if_not_P [OF star]
      known_scheme_read [OF assms(1)] prod.case q
    using s by (simp add: has_prefix_def body parse_authority_plain [OF assms(2)] set_path_def empty_url_def)
  then show ?thesis by simp
qed


section \<open>Placeholders\<close>

lemma query_char_plain: "is_query_byte c \<Longrightarrow> c \<noteq> CHR ''#'' \<and> c \<noteq> CHR ''?'' \<and> \<not> is_ctl c"
  by (auto simp: is_query_byte_def is_alnum_def is_ctl_def Let_def)

lemma url_Parse_sentinel:
  assumes "plain_host name"
  shows "url_Parse (ExternalBackendSentinelURL ns name) =
    Some (empty_url \<lparr> url_Scheme := ''externalbackend'', url_Host := name,
      url_RawQuery := ''ns='' @ url_escape encodeQueryComponent ns \<rparr>)"
proof -
  let ?q = "''?ns='' @ url_escape encodeQueryComponent ns"
  have bytes: "\<And>c. c \<in> set (url_escape encodeQueryComponent ns) \<Longrightarrow> c \<noteq> CHR ''#'' \<and> c \<noteq> CHR ''?'' \<and> \<not> is_ctl c"
    using escape_bytes [of ns] query_char_plain by (auto simp: list_all_iff)
  have "\<not> is_ctl (CHR ''?'')" "\<not> is_ctl (CHR ''n'')" "\<not> is_ctl (CHR ''s'')" "\<not> is_ctl (CHR ''='')" by code_simp+
  then have q: "list_all (\<lambda>c. c \<noteq> CHR ''#'' \<and> \<not> is_ctl c) ?q" using bytes by (simp add: list_all_iff)
  have "CHR ''?'' \<notin> set (drop 1 ?q)" using bytes by auto
  from url_Parse_address [OF _ assms _ q this, of "''externalbackend''"] show ?thesis
    by (simp add: known_scheme_def ExternalBackendSentinelURL_def)
qed

lemma query_values_single:
  "query_values (''ns='' @ url_escape encodeQueryComponent ns) ''ns'' = [ns]"
proof -
  have e: "url_escape encodeQueryComponent ''ns'' = ''ns''" by code_simp
  have enc: "''ns='' @ url_escape encodeQueryComponent ns = encode_setting (''ns'', ns)"
    unfolding encode_setting_def fst_conv snd_conv e by simp
  have "parse_query (encode_setting (''ns'', ns)) = [(''ns'', ns)]"
    unfolding parse_query_def str_split_fresh [OF encode_setting_no_amp] List.map_filter_def
    by (simp add: parse_encode_setting)
  then show ?thesis unfolding enc query_values_def by simp
qed

section \<open>Services\<close>

lemma digits_digit: "0 \<le> n \<Longrightarrow> c \<in> set (digits n) \<Longrightarrow> 48 \<le> (of_char c :: int) \<and> (of_char c :: int) \<le> 57"
proof (induction n rule: digits.induct)
  case (1 n)
  show ?case
  proof (cases "n < 10")
    case True
    with 1 show ?thesis by (simp add: digits.simps [of n] of_char_of_small)
  next
    case False
    from 1 False consider "c = char_of (48 + n mod 10)" | "c \<in> set (digits (n div 10))" by (auto simp: digits.simps [of n])
    then show ?thesis
    proof cases
      case 1
      then show ?thesis using pos_mod_bound [of 10 n] pos_mod_sign [of 10 n] by (simp add: of_char_of_small)
    next
      case 2
      with 1 False show ?thesis by simp
    qed
  qed
qed

lemma last_index_append: "c \<notin> set d \<Longrightarrow> last_index (h @ c # d) c = Some (length h)"
  by (induction h) (auto simp: last_index_None split: option.splits)

lemma service_host_plain:
  assumes "list_all host_char h" and "0 \<le> port"
  shows "plain_host (h @ '':'' @ itoa port)"
proof -
  have digits: "\<And>c. c \<in> set (digits port) \<Longrightarrow> 48 \<le> (of_char c :: int) \<and> (of_char c :: int) \<le> 57"
    using digits_digit [OF assms(2)] by blast
  then have chars: "\<And>c. c \<in> set (digits port) \<Longrightarrow> host_char c" by (simp add: host_char_def is_alnum_def)
  have colon: "\<not> 48 \<le> (of_char (CHR '':'') :: int) \<or> \<not> (of_char (CHR '':'') :: int) \<le> 57" by simp
  then have "CHR '':'' \<notin> set (digits port)" using digits by blast
  then have "last_index (h @ CHR '':'' # digits port) (CHR '':'') = Some (length h)" by (rule last_index_append)
  moreover have "valid_optional_port (CHR '':'' # digits port)"
    using digits by (simp add: valid_optional_port_def list_all_iff)
  moreover have "host_char (CHR '':'')" by (simp add: host_char_def)
  ultimately show ?thesis
    using assms chars by (simp add: plain_host_def itoa_def list_all_iff ball_Un)
qed

end
