(* ===== verification/BackendMarks.thy ===== *)
theory BackendMarks
  imports Ingress Addresses
begin

text \<open>
  What the controller does to a converted configuration by the state of the cluster: it marks backends that must not be
  dialled (\<^verbatim>\<open>src/internal/proxy/mark_unavailable.go\<close> and the \<^verbatim>\<open>*_backends.go\<close> files of \<^verbatim>\<open>src/internal/controller/\<close>), replaces
  a headless Service by its endpoints (\<^verbatim>\<open>src/internal/proxy/expand_headless.go\<close>) and fills in external backends.
\<close>

section \<open>Marks\<close>

definition ServiceBackendHost :: "string \<Rightarrow> string \<Rightarrow> string \<Rightarrow> int \<Rightarrow> string" where
  "ServiceBackendHost clusterDomain namespace name port =
     (case url_Parse (buildServiceURL name namespace port clusterDomain) of None \<Rightarrow> '''' | Some u \<Rightarrow> url_Host u)"

definition map_backends :: "(BackendRef list \<Rightarrow> BackendRef list) \<Rightarrow> Config \<Rightarrow> Config" where
  "map_backends f cfg = cfg \<lparr> cfg_Rules := map (\<lambda>rule. rule \<lparr> rule_Backends := f (rule_Backends rule) \<rparr>) (cfg_Rules cfg) \<rparr>"

definition mark_backend :: "string \<Rightarrow> int \<Rightarrow> BackendRef \<Rightarrow> BackendRef" where
  "mark_backend target status b =
     (if be_UnavailableStatus b \<noteq> 0 then b
      else (case url_Parse (be_URL b) of
              None \<Rightarrow> b
            | Some u \<Rightarrow> if url_Host u = target then b \<lparr> be_UnavailableStatus := status \<rparr> else b))"

definition MarkUnavailableBackends :: "Config \<Rightarrow> string \<Rightarrow> string \<Rightarrow> string \<Rightarrow> int \<Rightarrow> int \<Rightarrow> Config" where
  "MarkUnavailableBackends cfg clusterDomain namespace name port status =
     (let target = ServiceBackendHost clusterDomain namespace name port in
      if target = '''' then cfg else map_backends (map (mark_backend target status)) cfg)"

definition UnmarkedBackendHosts :: "Config \<Rightarrow> string set" where
  "UnmarkedBackendHosts cfg =
     set (List.map_filter (\<lambda>b. if be_UnavailableStatus b \<noteq> 0 then None else map_option url_Host (url_Parse (be_URL b)))
       (concat (map rule_Backends (cfg_Rules cfg))))"

definition markUnavailableBackends :: "Config \<Rightarrow> string \<Rightarrow> BackendRefError list \<Rightarrow> Config" where
  "markUnavailableBackends cfg clusterDomain failedRefs =
     foldl (\<lambda>cfg ref. MarkUnavailableBackends cfg (if bre_Domain ref \<noteq> '''' then bre_Domain ref else clusterDomain)
              (bre_BackendNS ref) (bre_BackendName ref) (bre_Port ref) 500) cfg failedRefs"

section \<open>Headless Services\<close>

record ResolvedEndpoint =
  rep_Host :: string
  rep_Port :: int

definition scaleWeight :: "int \<Rightarrow> int \<Rightarrow> int" where
  "scaleWeight weight scale = (let scaled = weight * scale in if scaled > 2147483647 then 2147483647 else scaled)"

text \<open>Remainder and negation of \<^verbatim>\<open>int32\<close>: the sign is that of the dividend, and the least value is its own negative.\<close>

definition rem32 :: "int \<Rightarrow> int \<Rightarrow> int" where
  "rem32 m n = sgn m * (\<bar>m\<bar> mod \<bar>n\<bar>)"

definition neg32 :: "int \<Rightarrow> int" where
  "neg32 m = (if m = - 2147483648 then m else - m)"

function gcd_loop :: "int \<Rightarrow> int \<Rightarrow> int" where
  "gcd_loop m n = (if n \<noteq> 0 then gcd_loop n (rem32 m n) else m)"
  by auto
termination
  by (relation "measure (\<lambda>(m, n). nat \<bar>n\<bar>)") (auto simp: rem32_def abs_mult sgn_if)

declare gcd_loop.simps [simp del]

definition gcdInt32 :: "int \<Rightarrow> int \<Rightarrow> int" where
  "gcdInt32 m n = gcd_loop (if m < 0 then neg32 m else m) (if n < 0 then neg32 n else n)"

definition reduceWeightsByGCD :: "BackendRef list \<Rightarrow> BackendRef list" where
  "reduceWeightsByGCD backends =
     (let divisor = foldl (\<lambda>d b. gcdInt32 d (be_Weight b)) 0 backends in
      if divisor \<le> 1 then backends
      else map (\<lambda>b. b \<lparr> be_Weight := int64_quot (be_Weight b) divisor \<rparr>) backends)"

definition backendScheme :: "string \<Rightarrow> string" where
  "backendScheme rawURL =
     (case url_Parse rawURL of
        None \<Rightarrow> ''http''
      | Some u \<Rightarrow> if url_Scheme u \<noteq> '''' then url_Scheme u else ''http'')"

definition JoinHostPort :: "string \<Rightarrow> string \<Rightarrow> string" where
  "JoinHostPort host port = (if CHR '':'' \<in> set host then ''['' @ host @ '']:'' @ port else host @ '':'' @ port)"

definition endpointBackends :: "BackendRef \<Rightarrow> ResolvedEndpoint list \<Rightarrow> BackendRef list" where
  "endpointBackends matched endpoints =
     map (\<lambda>ep. matched \<lparr> be_URL := backendScheme (be_URL matched) @ ''://'' @ JoinHostPort (rep_Host ep) (itoa (rep_Port ep)) \<rparr>)
       endpoints"

definition backendMatchesHeadless :: "BackendRef \<Rightarrow> string \<Rightarrow> bool" where
  "backendMatchesHeadless backend target =
     (if be_UnavailableStatus backend \<noteq> 0 \<or> be_Weight backend \<le> 0 then False
      else (case url_Parse (be_URL backend) of None \<Rightarrow> False | Some u \<Rightarrow> url_Host u = target))"

definition ruleHasExpandableBackend :: "BackendRef list \<Rightarrow> string \<Rightarrow> bool" where
  "ruleHasExpandableBackend backends target = list_ex (\<lambda>b. backendMatchesHeadless b target) backends"

definition expand_backend :: "string \<Rightarrow> int \<Rightarrow> ResolvedEndpoint list \<Rightarrow> BackendRef \<Rightarrow> BackendRef list" where
  "expand_backend target scale endpoints backend =
     (if backendMatchesHeadless backend target then endpointBackends backend endpoints
      else [backend \<lparr> be_Weight := scaleWeight (be_Weight backend) scale \<rparr>])"

definition expandRuleBackends :: "string \<Rightarrow> int \<Rightarrow> ResolvedEndpoint list \<Rightarrow> BackendRef list \<Rightarrow> BackendRef list" where
  "expandRuleBackends target scale endpoints backends =
     (if \<not> ruleHasExpandableBackend backends target then backends
      else reduceWeightsByGCD (concat (map (expand_backend target scale endpoints) backends)))"

definition ExpandHeadlessBackend ::
    "Config \<Rightarrow> string \<Rightarrow> string \<Rightarrow> string \<Rightarrow> int \<Rightarrow> ResolvedEndpoint list \<Rightarrow> Config" where
  "ExpandHeadlessBackend cfg clusterDomain namespace name servicePort endpoints =
     (if endpoints = [] then cfg
      else (let target = ServiceBackendHost clusterDomain namespace name servicePort in
            if target = '''' then cfg
            else map_backends (expandRuleBackends target (int (length endpoints)) endpoints) cfg))"


section \<open>Visiting the Services of the routes\<close>

definition route_refs :: "HTTPRoute list \<Rightarrow> GRPCRoute list \<Rightarrow> (string \<times> BackendObjectReference) list" where
  "route_refs routes grpcRoutes =
     concat (map (\<lambda>r. concat (map (\<lambda>rule. map (\<lambda>b. (rt_Namespace r, ab_Ref (hb_BackendRef b))) (hrl_BackendRefs rule)) (rt_Rules r))) routes)
     @ concat (map (\<lambda>r. concat (map (\<lambda>rule. map (\<lambda>b. (rt_Namespace r, ab_Ref (gb_BackendRef b))) (grl_BackendRefs rule)) (rt_Rules r))) grpcRoutes)"

fun visit_refs ::
    "(string \<Rightarrow> string \<Rightarrow> int \<Rightarrow> Config \<Rightarrow> Config) \<Rightarrow> string \<Rightarrow> string set \<Rightarrow> (string \<times> BackendObjectReference) list
     \<Rightarrow> string set \<Rightarrow> Config \<Rightarrow> Config" where
  "visit_refs action clusterDomain authorized [] seen cfg = cfg"
| "visit_refs action clusterDomain authorized ((routeNamespace, ref) # refs) seen cfg =
     (if \<not> IsServiceBackendRef ref then visit_refs action clusterDomain authorized refs seen cfg
      else (let svcNamespace = (case bo_Namespace ref of None \<Rightarrow> routeNamespace | Some ns \<Rightarrow> ns);
                port = (case bo_Port ref of None \<Rightarrow> 80 | Some p \<Rightarrow> p);
                host = ServiceBackendHost clusterDomain svcNamespace (bo_Name ref) port in
            if host \<notin> authorized \<or> host \<in> seen then visit_refs action clusterDomain authorized refs seen cfg
            else visit_refs action clusterDomain authorized refs (insert host seen) (action svcNamespace (bo_Name ref) port cfg)))"

definition visitAuthorizedServiceBackends ::
    "(string \<Rightarrow> string \<Rightarrow> int \<Rightarrow> Config \<Rightarrow> Config) \<Rightarrow> string \<Rightarrow> HTTPRoute list \<Rightarrow> GRPCRoute list \<Rightarrow> Config \<Rightarrow> Config" where
  "visitAuthorizedServiceBackends action clusterDomain routes grpcRoutes cfg =
     (let authorized = UnmarkedBackendHosts cfg in
      if authorized = {} then cfg else visit_refs action clusterDomain authorized (route_refs routes grpcRoutes) {} cfg)"

section \<open>Endpoints\<close>

definition endpoint_precedes :: "ResolvedEndpoint \<Rightarrow> ResolvedEndpoint \<Rightarrow> bool" where
  "endpoint_precedes a b =
     (if rep_Host a \<noteq> rep_Host b then rep_Host a < rep_Host b else rep_Port a < rep_Port b)"

definition serviceTargetPort :: "Service \<Rightarrow> int \<Rightarrow> string \<times> int" where
  "serviceTargetPort svc port =
     (case find (\<lambda>p. sp_Port p = port) (svc_Ports svc) of
        None \<Rightarrow> ('''', 0)
      | Some svcPort \<Rightarrow>
          (sp_Name svcPort, (case sp_TargetPort svcPort of IntValue v \<Rightarrow> if v > 0 then v else 0 | StrValue _ \<Rightarrow> 0)))"

definition endpointSlicePort :: "EndpointSlice \<Rightarrow> string \<Rightarrow> int option" where
  "endpointSlicePort slice portName =
     (case find (\<lambda>p. ept_Port p \<noteq> None \<and> (ept_Name p = Some portName \<or> ept_Name p = None \<and> portName = '''')) (es_Ports slice) of
        Some p \<Rightarrow> ept_Port p
      | None \<Rightarrow> (case es_Ports slice of [p] \<Rightarrow> ept_Port p | _ \<Rightarrow> None))"

definition sliceEndpoints :: "EndpointSlice \<Rightarrow> string \<Rightarrow> int \<Rightarrow> ResolvedEndpoint list \<times> bool" where
  "sliceEndpoints slice portName fallback =
     (let port = (case endpointSlicePort slice portName of
                    Some p \<Rightarrow> Some p | None \<Rightarrow> if fallback > 0 then Some fallback else None);
          ready = filter (\<lambda>e. en_Ready e = Some True) (es_Endpoints slice) in
      ((case port of None \<Rightarrow> []
        | Some p \<Rightarrow> concat (map (\<lambda>e. map (\<lambda>a. \<lparr> rep_Host = a, rep_Port = p \<rparr>) (en_Addresses e)) ready)), ready \<noteq> []))"

definition resolveHeadlessEndpoints ::
    "BackendReader \<Rightarrow> Service \<Rightarrow> string \<Rightarrow> string \<Rightarrow> int \<Rightarrow> ResolvedEndpoint list \<times> bool" where
  "resolveHeadlessEndpoints cli svc namespace name port =
     (case serviceTargetPort svc port of (portName, fallbackPort) \<Rightarrow>
       (case rd_Slices cli namespace name of
          Inl _ \<Rightarrow> ([], False)
        | Inr slices \<Rightarrow>
            (let parts = map (\<lambda>slice. sliceEndpoints slice portName fallbackPort) slices in
             (sort_stable endpoint_precedes (concat (map fst parts)), list_ex snd parts))))"

definition expandBackendIfHeadless :: "BackendReader \<Rightarrow> string \<Rightarrow> string \<Rightarrow> string \<Rightarrow> int \<Rightarrow> Config \<Rightarrow> Config" where
  "expandBackendIfHeadless cli clusterDomain svcNamespace name port cfg =
     (case rd_Service cli svcNamespace name of
        Inl _ \<Rightarrow> cfg
      | Inr svc \<Rightarrow>
          (if svc_Type svc = ''ExternalName'' \<or> svc_ClusterIP svc \<noteq> ''None'' then cfg
           else (case resolveHeadlessEndpoints cli svc svcNamespace name port of
                   (endpoints, hadReady) \<Rightarrow>
                     (if endpoints \<noteq> [] then ExpandHeadlessBackend cfg clusterDomain svcNamespace name port endpoints
                      else if hadReady then MarkUnavailableBackends cfg clusterDomain svcNamespace name port 503
                      else cfg))))"

definition expandHeadlessBackends :: "BackendReader \<Rightarrow> string \<Rightarrow> HTTPRoute list \<Rightarrow> GRPCRoute list \<Rightarrow> Config \<Rightarrow> Config" where
  "expandHeadlessBackends cli clusterDomain routes grpcRoutes cfg =
     visitAuthorizedServiceBackends (expandBackendIfHeadless cli clusterDomain) clusterDomain routes grpcRoutes cfg"

definition serviceHasReadyEndpoint :: "BackendReader \<Rightarrow> string \<Rightarrow> string \<Rightarrow> bool" where
  "serviceHasReadyEndpoint cli namespace serviceName =
     (case rd_Slices cli namespace serviceName of
        Inl _ \<Rightarrow> True
      | Inr slices \<Rightarrow> list_ex (\<lambda>slice. list_ex (\<lambda>e. en_Ready e = Some True) (es_Endpoints slice)) slices)"

definition markBackendIfZeroEndpoints :: "BackendReader \<Rightarrow> string \<Rightarrow> string \<Rightarrow> string \<Rightarrow> int \<Rightarrow> Config \<Rightarrow> Config" where
  "markBackendIfZeroEndpoints cli clusterDomain svcNamespace name port cfg =
     (case rd_Service cli svcNamespace name of
        Inl _ \<Rightarrow> cfg
      | Inr svc \<Rightarrow>
          (if svc_Type svc = ''ExternalName'' then cfg
           else if serviceHasReadyEndpoint cli svcNamespace name then cfg
           else MarkUnavailableBackends cfg clusterDomain svcNamespace name port 503))"

definition markZeroEndpointBackends :: "BackendReader \<Rightarrow> string \<Rightarrow> HTTPRoute list \<Rightarrow> GRPCRoute list \<Rightarrow> Config \<Rightarrow> Config" where
  "markZeroEndpointBackends cli clusterDomain routes grpcRoutes cfg =
     visitAuthorizedServiceBackends (markBackendIfZeroEndpoints cli clusterDomain) clusterDomain routes grpcRoutes cfg"

section \<open>External backends\<close>

definition ParseExternalBackendSentinel :: "string \<Rightarrow> (string \<times> string) option" where
  "ParseExternalBackendSentinel rawURL =
     (case url_Parse rawURL of
        None \<Rightarrow> None
      | Some u \<Rightarrow> if url_Scheme u \<noteq> ''externalbackend'' then None
                  else Some ((case query_values (url_RawQuery u) ''ns'' of [] \<Rightarrow> '''' | v # _ \<Rightarrow> v), url_Host u))"

definition resolve_external :: "BackendReader \<Rightarrow> BackendRef \<Rightarrow> BackendRef" where
  "resolve_external cli b =
     (let failed = (if be_UnavailableStatus b = 0 then b \<lparr> be_UnavailableStatus := 500 \<rparr> else b) in
      case ParseExternalBackendSentinel (be_URL b) of
        None \<Rightarrow> b
      | Some (namespace, name) \<Rightarrow>
          (case rd_External cli namespace name of
             Inl _ \<Rightarrow> failed
           | Inr spec \<Rightarrow>
               (if ExternalBackendSpec_Validate spec \<noteq> None then failed
                else (let b = b \<lparr> be_URL := ExternalBackendSpec_URL spec \<rparr> in
                      if be_Protocol b = BackendProtocolH2C \<and> eb_Scheme spec = ''https''
                      then b \<lparr> be_Protocol := BackendProtocolHTTP \<rparr> else b))))"

definition resolveExternalBackends :: "BackendReader \<Rightarrow> Config \<Rightarrow> Config" where
  "resolveExternalBackends cli cfg = map_backends (map (resolve_external cli)) cfg"


section \<open>Shares under expansion\<close>

lemma rem32_nonneg: "0 \<le> m \<Longrightarrow> 0 \<le> n \<Longrightarrow> rem32 m n = m mod n"
  by (cases "m = 0") (simp_all add: rem32_def sgn_if)

lemma gcd_loop_gcd: "0 \<le> m \<Longrightarrow> 0 \<le> n \<Longrightarrow> gcd_loop m n = gcd m n"
proof (induction m n rule: gcd_loop.induct)
  case (1 m n)
  show ?case
  proof (cases "n = 0")
    case True
    then show ?thesis using 1 gcd_loop.simps [of m n] by simp
  next
    case False
    with 1 show ?thesis by (simp add: gcd_loop.simps [of m n] rem32_nonneg gcd_red_int [of m n, symmetric])
  qed
qed

lemma gcdInt32_gcd: "0 \<le> m \<Longrightarrow> 0 \<le> n \<Longrightarrow> gcdInt32 m n = gcd m n"
  by (simp add: gcdInt32_def gcd_loop_gcd)

lemma foldl_gcd_divides:
  assumes "0 \<le> d" and "\<forall>b \<in> set bs. 0 \<le> be_Weight b"
  shows "0 \<le> foldl (\<lambda>d b. gcdInt32 d (be_Weight b)) d bs \<and> foldl (\<lambda>d b. gcdInt32 d (be_Weight b)) d bs dvd d
     \<and> (\<forall>b \<in> set bs. foldl (\<lambda>d b. gcdInt32 d (be_Weight b)) d bs dvd be_Weight b)"
  using assms
proof (induction bs arbitrary: d)
  case (Cons b bs)
  then have g: "gcdInt32 d (be_Weight b) = gcd d (be_Weight b)" by (simp add: gcdInt32_gcd)
  have "0 \<le> gcd d (be_Weight b)" by simp
  from Cons.IH [OF this] Cons.prems show ?case by (auto simp: g intro: dvd_trans)
qed simp

lemma reduceWeightsByGCD_scaled:
  assumes "\<forall>b \<in> set bs. 0 \<le> be_Weight b"
  obtains g where "0 < g" "reduceWeightsByGCD bs = map (\<lambda>b. b \<lparr> be_Weight := be_Weight b div g \<rparr>) bs"
    "\<forall>b \<in> set bs. g dvd be_Weight b"
proof -
  let ?d = "foldl (\<lambda>d b. gcdInt32 d (be_Weight b)) 0 bs"
  have d: "0 \<le> ?d" "\<forall>b \<in> set bs. ?d dvd be_Weight b" using foldl_gcd_divides [of 0 bs] assms by blast+
  show thesis
  proof (cases "?d \<le> 1")
    case True
    then show thesis using that [of 1] by (simp add: reduceWeightsByGCD_def)
  next
    case False
    have "map (\<lambda>b. b \<lparr> be_Weight := int64_quot (be_Weight b) ?d \<rparr>) bs = map (\<lambda>b. b \<lparr> be_Weight := be_Weight b div ?d \<rparr>) bs"
      using assms by (auto simp: int64_quot_def)
    with False d show thesis using that [of ?d] by (simp add: reduceWeightsByGCD_def Let_def)
  qed
qed

text \<open>What an expanded rule keeps of a backend: its share, times one factor for the whole rule, and everything but the
  address; a matched backend becomes one backend per endpoint with equal weights.\<close>

definition keeps_share :: "string \<Rightarrow> ResolvedEndpoint list \<Rightarrow> int \<Rightarrow> BackendRef \<Rightarrow> BackendRef list \<Rightarrow> bool" where
  "keeps_share target endpoints g b part \<longleftrightarrow>
     g * sum_list (map be_Weight part) = int (length endpoints) * be_Weight b
     \<and> (if backendMatchesHeadless b target
        then map be_URL part = map (\<lambda>ep. backendScheme (be_URL b) @ ''://'' @ JoinHostPort (rep_Host ep) (itoa (rep_Port ep))) endpoints
           \<and> (\<forall>p \<in> set part. g * be_Weight p = be_Weight b \<and> p = b \<lparr> be_Weight := be_Weight p, be_URL := be_URL p \<rparr>)
        else (\<exists>w. part = [b \<lparr> be_Weight := w \<rparr>]))"

lemma scaled_part:
  assumes "\<forall>x \<in> set xs. g dvd be_Weight x"
  shows "g * sum_list (map be_Weight (map (\<lambda>b. b \<lparr> be_Weight := be_Weight b div g \<rparr>) xs)) = sum_list (map be_Weight xs)"
  using assms by (induction xs) (auto simp: distrib_left)

lemma expand_backend_share:
  assumes "0 \<le> be_Weight b" "be_Weight b * int (length endpoints) \<le> 2147483647" "0 < g"
    and "\<forall>x \<in> set (expand_backend target (int (length endpoints)) endpoints b). g dvd be_Weight x"
  shows "keeps_share target endpoints g b
     (map (\<lambda>b. b \<lparr> be_Weight := be_Weight b div g \<rparr>) (expand_backend target (int (length endpoints)) endpoints b))"
proof (cases "backendMatchesHeadless b target")
  case True
  then have e: "expand_backend target (int (length endpoints)) endpoints b = endpointBackends b endpoints"
    by (simp add: expand_backend_def)
  have s: "sum_list (map be_Weight (endpointBackends b endpoints)) = int (length endpoints) * be_Weight b"
    by (simp add: endpointBackends_def comp_def sum_list_triv)
  have "\<forall>ep \<in> set endpoints. g * (be_Weight b div g) = be_Weight b"
    using assms(4) unfolding e by (auto simp: endpointBackends_def)
  then show ?thesis
    using True scaled_part [OF assms(4)] s unfolding keeps_share_def e
    by (auto simp: endpointBackends_def)
next
  case False
  with assms show ?thesis
    using scaled_part [OF assms(4)]
    by (auto simp: keeps_share_def expand_backend_def scaleWeight_def Let_def mult.commute)
qed

text \<open>C32: replacing a headless Service by its endpoints keeps the shares of the traffic. With one factor for the whole
  rule, every backend of the rule keeps its weight times the number of endpoints; the expanded one is split evenly over
  the endpoints, which differ from it in address and weight only, and the others differ in weight only. The products of
  weights and endpoints fit into 32 bits.\<close>

theorem headless_expansion_keeps_shares:
  assumes "\<forall>b \<in> set backends. 0 \<le> be_Weight b \<and> be_Weight b * int (length endpoints) \<le> 2147483647"
    and "ruleHasExpandableBackend backends target"
  shows "\<exists>g parts. 0 < g \<and> expandRuleBackends target (int (length endpoints)) endpoints backends = concat parts
    \<and> list_all2 (keeps_share target endpoints g) backends parts"
proof -
  let ?e = "expand_backend target (int (length endpoints)) endpoints"
  have "\<forall>x \<in> set (?e b). 0 \<le> be_Weight x" if "b \<in> set backends" for b
    using assms(1) that by (auto simp: expand_backend_def endpointBackends_def scaleWeight_def Let_def)
  then have "\<forall>x \<in> set (concat (map ?e backends)). 0 \<le> be_Weight x" by auto
  then obtain g where g: "0 < g" "\<forall>x \<in> set (concat (map ?e backends)). g dvd be_Weight x"
    "reduceWeightsByGCD (concat (map ?e backends)) = map (\<lambda>b. b \<lparr> be_Weight := be_Weight b div g \<rparr>) (concat (map ?e backends))"
    by (rule reduceWeightsByGCD_scaled) blast
  let ?parts = "map (\<lambda>b. map (\<lambda>b. b \<lparr> be_Weight := be_Weight b div g \<rparr>) (?e b)) backends"
  have "expandRuleBackends target (int (length endpoints)) endpoints backends = concat ?parts"
    using assms(2) g(3) by (simp add: expandRuleBackends_def map_concat comp_def)
  moreover have "keeps_share target endpoints g b (map (\<lambda>b. b \<lparr> be_Weight := be_Weight b div g \<rparr>) (?e b))" if "b \<in> set backends" for b
    using assms(1) g(1,2) that by (intro expand_backend_share) auto
  then have "list_all2 (keeps_share target endpoints g) backends ?parts"
    by (simp add: list_all2_map2 list_all2_same)
  ultimately show ?thesis using g(1) by blast
qed


definition two_services :: "BackendRef list" where
  "two_services =
     [empty_backend \<lparr> be_Weight := 3, be_URL := ''http://a.n.svc.c.local:80'' \<rparr>,
      empty_backend \<lparr> be_Weight := 1, be_URL := ''http://b.n.svc.c.local:80'' \<rparr>]"

definition two_endpoints :: "ResolvedEndpoint list" where
  "two_endpoints = [\<lparr> rep_Host = ''10.0.0.1'', rep_Port = 3000 \<rparr>, \<lparr> rep_Host = ''fd00::1'', rep_Port = 3000 \<rparr>]"

theorem headless_expansion_keeps_shares_witness:
  "\<exists>g parts. 0 < g
     \<and> expandRuleBackends ''a.n.svc.c.local:80'' (int (length two_endpoints)) two_endpoints two_services = concat parts
     \<and> list_all2 (keeps_share ''a.n.svc.c.local:80'' two_endpoints g) two_services parts"
  by (rule headless_expansion_keeps_shares) code_simp+

section \<open>Placeholders\<close>

lemma str_cut_keeps_prefix:
  assumes "c \<notin> set p" and "str_cut (p @ s) [c] = Some (a, r)" shows "has_prefix a p"
  using assms
proof (induction p arbitrary: a)
  case (Cons x p)
  then have "\<not> has_prefix (x # p @ s) [c]" by (auto simp: has_prefix_def)
  then obtain a' where "str_cut (p @ s) [c] = Some (a', r)" "a = x # a'" using Cons.prems by (auto split: option.splits)
  with Cons show ?case by (auto simp: has_prefix_def)
qed (simp add: has_prefix_def)

lemma set_path_scheme: "set_path u p = Some v \<Longrightarrow> url_Scheme v = url_Scheme u"
  by (auto simp: set_path_def)

lemma url_Parse_scheme:
  assumes "url_Parse raw = Some u" and "whole = (case str_cut raw ''#'' of None \<Rightarrow> raw | Some (a, _) \<Rightarrow> a)"
    and "get_scheme True whole '''' whole = Some (sch, rest)" and "whole \<noteq> ''*''"
  shows "url_Scheme u = to_lower sch"
proof -
  have run: "url_Parse raw = Some u" by (rule assms(1))
  show ?thesis
    using run unfolding url_Parse_def Let_def assms(2) [symmetric] assms(3) option.case prod.case
    by (auto simp: assms(4) empty_url_def dest!: set_path_scheme split: prod.splits if_splits option.splits)
qed

lemma url_Scheme_http:
  assumes "url_Parse (sch @ ''://'' @ rest) = Some u" and "sch = ''http'' \<or> sch = ''https''"
  shows "url_Scheme u = sch"
proof -
  let ?raw = "(sch @ '':'') @ (''//'' @ rest)"
  define whole where "whole = (case str_cut ?raw ''#'' of None \<Rightarrow> ?raw | Some (a, _) \<Rightarrow> a)"
  have "has_prefix whole (sch @ '':'')"
  proof (cases "str_cut ?raw ''#''")
    case None
    then show ?thesis unfolding whole_def by (auto simp: has_prefix_iff)
  next
    case (Some p)
    obtain a r where p: "p = (a, r)" by (cases p)
    have "CHR ''#'' \<notin> set (sch @ '':'')" using assms(2) by auto
    from str_cut_keeps_prefix [OF this, of "''//'' @ rest"] Some p show ?thesis unfolding whole_def by simp
  qed
  then obtain r where r: "whole = sch @ '':'' @ r" by (auto simp: has_prefix_iff)
  have "get_scheme True whole '''' whole = Some (sch, r)"
    using assms(2) unfolding r by (auto simp: is_alpha_def of_char_def)
  moreover have "whole \<noteq> ''*''" using r assms(2) by auto
  moreover have "url_Parse ?raw = Some u" using assms(1) by simp
  ultimately have "url_Scheme u = to_lower sch" using url_Parse_scheme [OF _ whole_def] by blast
  then show ?thesis using assms(2) by (auto simp: to_lower_def char_lower_def)
qed

text \<open>The placeholder a conversion writes reads back as the reference it was written for.\<close>

lemma sentinel_roundtrip:
  assumes "plain_host name"
  shows "ParseExternalBackendSentinel (ExternalBackendSentinelURL ns name) = Some (ns, name)"
  by (simp add: ParseExternalBackendSentinel_def url_Parse_sentinel [OF assms] query_values_single [simplified] empty_url_def)


definition vendor_api :: ExternalBackendSpec where
  "vendor_api = \<lparr> eb_Scheme = ''https'', eb_Host = ''api.vendor.org'', eb_Port = 443, eb_Path = ''/v1'' \<rparr>"

definition vendor_reader :: BackendReader where
  "vendor_reader = \<lparr> rd_Service = \<lambda>ns name. Inl (Sentinel (errK8s NotFound)), rd_Slices = \<lambda>ns name. Inr [],
     rd_Import = \<lambda>ns name. Inl (Sentinel (errK8s NotFound)),
     rd_External = \<lambda>ns name. if ns = ''shop'' \<and> name = ''vendor'' then Inr vendor_api else Inl (Sentinel (errK8s NotFound)) \<rparr>"

definition vendor_config :: Config where
  "vendor_config = \<lparr> cfg_Version = 1, cfg_Rules = [\<lparr> rule_Hostnames = [], rule_Matches = [], rule_Filters = [],
     rule_Backends = [empty_backend \<lparr> be_URL := ExternalBackendSentinelURL ''shop'' ''vendor'', be_Weight := 1 \<rparr>],
     rule_Timeouts = None, rule_UnavailableStatus = 0 \<rparr>],
     cfg_HasGRPCRoute = False, cfg_Diagnostics = [], cfg_Provenance = [] \<rparr>"

lemma vendor_resolved:
  "map rule_Backends (cfg_Rules (resolveExternalBackends vendor_reader vendor_config)) =
     [[empty_backend \<lparr> be_URL := ''https://api.vendor.org:443/v1'', be_Weight := 1 \<rparr>]]"
proof -
  have "plain_host ''vendor''" by code_simp
  moreover have "ExternalBackendSpec_Validate vendor_api = None" by code_simp
  moreover have "ExternalBackendSpec_URL vendor_api = ''https://api.vendor.org:443/v1''" by code_simp
  ultimately show ?thesis
    by (simp add: resolveExternalBackends_def map_backends_def vendor_config_def vendor_reader_def resolve_external_def
        sentinel_roundtrip empty_backend_def)
qed



end
