(* ===== verification/RedirectScheme.thy ===== *)
theory RedirectScheme
  imports EffectiveHosts RouteSpec
begin

text \<open>
  The scheme of redirects that name none (\<^verbatim>\<open>src/internal/controller/route_redirect_scheme.go\<close>): behind the tunnel the scheme
  of the request is that of the listener which accepts the route.
\<close>

section \<open>Definitions\<close>

definition isEmptySchemeRedirect :: "HTTPRouteFilter \<Rightarrow> bool" where
  "isEmptySchemeRedirect f \<longleftrightarrow>
     hf_Type f = ''RequestRedirect'' \<and> (case hf_RequestRedirect f of None \<Rightarrow> False | Some r \<Rightarrow> hrr_Scheme r = None)"

definition redirectFilters :: "HTTPRoute \<Rightarrow> HTTPRouteFilter list" where
  "redirectFilters route =
     concat (map (\<lambda>rule. hrl_Filters rule @ concat (map hb_Filters (hrl_BackendRefs rule))) (rt_Rules route))"

definition routeHasEmptyRedirectScheme :: "HTTPRoute \<Rightarrow> bool" where
  "routeHasEmptyRedirectScheme route = list_ex isEmptySchemeRedirect (redirectFilters route)"

definition default_scheme :: "string \<Rightarrow> HTTPRouteFilter \<Rightarrow> HTTPRouteFilter" where
  "default_scheme scheme f =
     (if isEmptySchemeRedirect f
      then f \<lparr> hf_RequestRedirect := map_option (\<lambda>r. r \<lparr> hrr_Scheme := Some scheme \<rparr>) (hf_RequestRedirect f) \<rparr> else f)"

definition applyDefaultRedirectScheme :: "string \<Rightarrow> HTTPRoute \<Rightarrow> HTTPRoute" where
  "applyDefaultRedirectScheme scheme route =
     route \<lparr> rt_Rules := map (\<lambda>rule. rule
        \<lparr> hrl_Filters := map (default_scheme scheme) (hrl_Filters rule),
          hrl_BackendRefs := map (\<lambda>b. b \<lparr> hb_Filters := map (default_scheme scheme) (hb_Filters b) \<rparr>) (hrl_BackendRefs rule) \<rparr>)
        (rt_Rules route) \<rparr>"

definition protocolsForSections :: "string list \<Rightarrow> (string \<Rightarrow> string option) \<Rightarrow> string list" where
  "protocolsForSections sections protoByName =
     List.map_filter (\<lambda>section. case protoByName section of
         None \<Rightarrow> None | Some protocol \<Rightarrow> if protocol \<noteq> '''' then Some protocol else None) sections"

definition gatewayAcceptedProtocols :: "'sel Cluster \<Rightarrow> string \<Rightarrow> string \<Rightarrow> RouteInfo \<Rightarrow> string list" where
  "gatewayAcceptedProtocols cl namespace name info =
     (case k_gateway cl namespace name of
        None \<Rightarrow> []
      | Some gateway \<Rightarrow>
          (case ValidateBinding (k_env cl) gateway info of
             Inl _ \<Rightarrow> []
           | Inr result \<Rightarrow>
               if \<not> br_Accepted result then []
               else protocolsForSections (br_MatchedListeners result) (listeners_by_name li_Protocol (gw_Listeners gateway))))"

definition listenerSetAcceptedProtocols :: "'sel Cluster \<Rightarrow> string \<Rightarrow> string \<Rightarrow> RouteInfo \<Rightarrow> string list" where
  "listenerSetAcceptedProtocols cl namespace name info =
     (case k_listenerSet cl namespace name of
        None \<Rightarrow> []
      | Some ls \<Rightarrow>
          (case ValidateBindingForListenerSet (k_env cl) ls info of
             Inl _ \<Rightarrow> []
           | Inr result \<Rightarrow>
               if \<not> br_Accepted result then []
               else protocolsForSections (nonConflictedSections cl ls (br_MatchedListeners result))
                      (listeners_by_name li_Protocol (ls_Listeners ls))))"

definition acceptedProtocolsForParentRef :: "'sel Cluster \<Rightarrow> 'r Route \<Rightarrow> ParentReference \<Rightarrow> string list" where
  "acceptedProtocolsForParentRef cl route ref =
     resolveParentRefListeners route ref (gatewayAcceptedProtocols cl) (listenerSetAcceptedProtocols cl)"

fun scheme_of_protocols :: "bool \<Rightarrow> string list \<Rightarrow> string" where
  "scheme_of_protocols sawHTTP [] = (if sawHTTP then ''http'' else '''')"
| "scheme_of_protocols sawHTTP (protocol # ps) =
     (if protocol = ''HTTPS'' then ''https'' else scheme_of_protocols (sawHTTP \<or> protocol = ''HTTP'') ps)"

definition acceptedListenerScheme :: "'sel Cluster \<Rightarrow> 'r Route \<Rightarrow> string" where
  "acceptedListenerScheme cl route =
     scheme_of_protocols False (concat (map (acceptedProtocolsForParentRef cl route) (rt_ParentRefs route)))"

definition defaultRedirectSchemeForRoute :: "'sel Cluster \<Rightarrow> HTTPRoute \<Rightarrow> HTTPRoute" where
  "defaultRedirectSchemeForRoute cl route =
     (if \<not> routeHasEmptyRedirectScheme route then route
      else (let scheme = acceptedListenerScheme cl route in
            if scheme = '''' then route else applyDefaultRedirectScheme scheme route))"

definition withDefaultRedirectScheme :: "'sel Cluster \<Rightarrow> HTTPRoute list \<Rightarrow> HTTPRoute list" where
  "withDefaultRedirectScheme cl routes = (if routes = [] then routes else map (defaultRedirectSchemeForRoute cl) routes)"

section \<open>The scheme is that of the serving listeners\<close>

lemma sections_protocols:
  assumes "distinct (map li_Name ls)" and "set xs \<subseteq> set ls"
  shows "set (protocolsForSections (map li_Name xs) (listeners_by_name li_Protocol ls)) = li_Protocol ` set xs - {''''}"
proof -
  have "protocolsForSections (map li_Name xs) (listeners_by_name li_Protocol ls) = filter (\<lambda>p. p \<noteq> '''') (map li_Protocol xs)"
    using assms(2)
  proof (induction xs)
    case (Cons l xs)
    then have "listeners_by_name li_Protocol ls (li_Name l) = Some (li_Protocol l)"
      using assms(1) by (intro listeners_by_name_mem) auto
    with Cons show ?case by (simp add: protocolsForSections_def List.map_filter_def)
  qed (simp add: protocolsForSections_def List.map_filter_def)
  then show ?thesis by auto
qed

lemma parent_ref_protocols:
  assumes "wf_cluster cl"
  shows "set (acceptedProtocolsForParentRef cl route ref) = li_Protocol ` set (serving_listeners cl route ref) - {''''}"
proof -
  let ?info = "route_info route ref"
  have gateway: "set (gatewayAcceptedProtocols cl ns name ?info) =
      li_Protocol ` set (case k_gateway cl ns name of None \<Rightarrow> []
         | Some g \<Rightarrow> if isl (ValidateBinding (k_env cl) g ?info) then []
                     else filter (\<lambda>l. binds (k_env cl) l (gw_Namespace g) ?info) (gw_Listeners g)) - {''''}" for ns name
  proof (cases "k_gateway cl ns name")
    case (Some g)
    then have wf: "distinct (map li_Name (gw_Listeners g))" using assms by (auto simp: wf_cluster_def wf_listeners_def)
    show ?thesis
    proof (cases "ValidateBinding (k_env cl) g ?info")
      case (Inr res)
      from bound_names [OF this [unfolded ValidateBinding_def]] Some Inr sections_protocols [OF wf]
      show ?thesis by (simp add: gatewayAcceptedProtocols_def filter_empty_conv) blast
    qed (use Some in \<open>simp add: gatewayAcceptedProtocols_def\<close>)
  qed (simp add: gatewayAcceptedProtocols_def)
  have listener_set: "set (listenerSetAcceptedProtocols cl ns name ?info) =
      li_Protocol ` set (case k_listenerSet cl ns name of None \<Rightarrow> []
         | Some ls \<Rightarrow> if isl (ValidateBindingForListenerSet (k_env cl) ls ?info) then []
                  else filter (\<lambda>l. binds (k_env cl) l (ls_Namespace ls) ?info
                          \<and> (\<forall>g. listenerSetParentGateway cl ls = Some g \<longrightarrow>
                                 \<not> parent_conflict cl (OnListenerSet g ls) (li_Name l))) (ls_Listeners ls)) - {''''}" for ns name
  proof (cases "k_listenerSet cl ns name")
    case (Some ls)
    then have wf: "distinct (map li_Name (ls_Listeners ls))" using assms by (auto simp: wf_cluster_def wf_listeners_def)
    show ?thesis
    proof (cases "ValidateBindingForListenerSet (k_env cl) ls ?info")
      case (Inr res)
      let ?bound = "filter (\<lambda>l. binds (k_env cl) l (ls_Namespace ls) ?info) (ls_Listeners ls)"
      note b = bound_names [OF Inr [unfolded ValidateBindingForListenerSet_def]]
      show ?thesis
      proof (cases "?bound = []")
        case True
        with b Some Inr show ?thesis by (auto simp: listenerSetAcceptedProtocols_def filter_empty_conv)
      next
        case False
        let ?free = "filter (\<lambda>l. \<forall>g. listenerSetParentGateway cl ls = Some g \<longrightarrow>
                                 \<not> parent_conflict cl (OnListenerSet g ls) (li_Name l)) ?bound"
        have "set (protocolsForSections (map li_Name ?free) (listeners_by_name li_Protocol (ls_Listeners ls))) =
              li_Protocol ` set ?free - {''''}"
          by (rule sections_protocols [OF wf]) auto
        moreover have "listenerSetAcceptedProtocols cl ns name ?info =
            protocolsForSections (map li_Name ?free) (listeners_by_name li_Protocol (ls_Listeners ls))"
          unfolding listenerSetAcceptedProtocols_def Some Inr option.case sum.case b(1) nonConflictedSections_filter
          using False b by simp
        ultimately show ?thesis unfolding Some Inr option.case filter_filter by simp
      qed
    qed (use Some in \<open>simp add: listenerSetAcceptedProtocols_def\<close>)
  qed (simp add: listenerSetAcceptedProtocols_def)
  show ?thesis
    unfolding acceptedProtocolsForParentRef_def resolveParentRefListeners_def serving_listeners_def Let_def
    using gateway [of "ref_namespace ref (rt_Namespace route)" "pr_Name ref"]
      listener_set [of "ref_namespace ref (rt_Namespace route)" "pr_Name ref"]
    by (simp only: if_distrib [of set] if_distrib [of "\<lambda>A. li_Protocol ` A - {''''}"]
        list.set image_empty empty_Diff refl if_cancel split: if_split)
qed

lemma scheme_of_protocols_eq:
  "scheme_of_protocols seen ps =
     (if ''HTTPS'' \<in> set ps then ''https'' else if seen \<or> ''HTTP'' \<in> set ps then ''http'' else '''')"
  by (induction ps arbitrary: seen) auto

lemma acceptedListenerScheme_eq:
  assumes "wf_cluster cl"
  shows "acceptedListenerScheme cl route =
    (if \<exists>l \<in> all_serving cl route. li_Protocol l = ''HTTPS'' then ''https''
     else if \<exists>l \<in> all_serving cl route. li_Protocol l = ''HTTP'' then ''http'' else '''')"
proof -
  have "set (concat (map (acceptedProtocolsForParentRef cl route) (rt_ParentRefs route))) =
      li_Protocol ` all_serving cl route - {''''}"
    using parent_ref_protocols [OF assms, of route] by (auto simp: all_serving_def)
  then show ?thesis
    by (auto simp: acceptedListenerScheme_def scheme_of_protocols_eq image_iff simp del: set_concat)
qed

lemma default_scheme_other:
  "\<not> isEmptySchemeRedirect f \<Longrightarrow> default_scheme scheme f = f"
  by (simp add: default_scheme_def)

lemma redirectFilters_default:
  "redirectFilters (applyDefaultRedirectScheme scheme route) = map (default_scheme scheme) (redirectFilters route)"
  by (simp add: redirectFilters_def applyDefaultRedirectScheme_def comp_def map_concat)


definition login_redirect :: HTTPRouteFilter where
  "login_redirect = \<lparr> hf_Type = ''RequestRedirect'', hf_RequestHeaderModifier = None, hf_ResponseHeaderModifier = None,
     hf_RequestMirror = None, hf_RequestRedirect = Some \<lparr> hrr_Scheme = None, hrr_Hostname = Some ''login.org'', hrr_Port = None,
       hrr_Path = None, hrr_StatusCode = None \<rparr>, hf_URLRewrite = None, hf_CORS = None \<rparr>"

definition redirecting_route :: HTTPRoute where
  "redirecting_route =
     \<lparr> rt_Namespace = ''infra'', rt_Name = ''r'', rt_Kind = ''HTTPRoute'', rt_Created = 0, rt_Hostnames = [],
       rt_ParentRefs = [plain_ref ''Gateway'' ''gw'', plain_ref ''ListenerSet'' ''ls''],
       rt_Rules = [\<lparr> hrl_Matches = [], hrl_Filters = [login_redirect], hrl_BackendRefs = [], hrl_Timeouts = None \<rparr>] \<rparr>"

lemma redirecting_serving:
  "all_serving two_parent_cluster redirecting_route =
     {sample_listener ''a'' ''app.example.com'', sample_listener ''v'' ''victim.org''}"
proof -
  have "serving_listeners two_parent_cluster redirecting_route ref = serving_listeners two_parent_cluster two_parent_route ref" for ref
    by (simp add: serving_listeners_def route_info_def redirecting_route_def two_parent_route_def Let_def)
  moreover have "rt_ParentRefs redirecting_route = [plain_ref ''Gateway'' ''gw'', plain_ref ''ListenerSet'' ''ls'']"
    by (simp add: redirecting_route_def)
  ultimately show ?thesis by (auto simp: all_serving_def two_parent_serving)
qed



end
