(* ===== verification/BackendPolicy.thy ===== *)
theory BackendPolicy
  imports Ingress BackendConn
begin

text \<open>
  What the proxy syncer looks up for a backend (\<^verbatim>\<open>src/internal/controller/proxy_syncer.go\<close>): the grants of a
  cross-namespace reference, the protocol of a Service port, the TLS policy of a Service port with its CA bundle, and the
  client certificate of a Gateway (\<^verbatim>\<open>gateway_client_cert.go\<close>). Reads of the cluster, \<^verbatim>\<open>encoding/pem\<close> and
  \<^verbatim>\<open>crypto/x509\<close> are parameters.
\<close>

section \<open>Grants and protocols\<close>

definition newBackendRefValidator ::
    "(string \<Rightarrow> gerr + Grant list) \<Rightarrow> string \<Rightarrow> string \<Rightarrow> BackendObjectReference \<Rightarrow> bool" where
  "newBackendRefValidator grants fromKind fromNamespace ref =
     (let toGroup = (case bo_Group ref of None \<Rightarrow> '''' | Some g \<Rightarrow> g);
          toKind = (case bo_Kind ref of None \<Rightarrow> ''Service'' | Some k \<Rightarrow> k);
          toNamespace = (case bo_Namespace ref of None \<Rightarrow> fromNamespace | Some ns \<Rightarrow> ns) in
      case IsReferenceAllowed grants
             \<lparr> ref_Group = ''gateway.networking.k8s.io'', ref_Kind = fromKind, ref_Namespace = fromNamespace, ref_Name = '''' \<rparr>
             \<lparr> ref_Group = toGroup, ref_Kind = toKind, ref_Namespace = toNamespace, ref_Name = bo_Name ref \<rparr> of
        Inl _ \<Rightarrow> False
      | Inr allowed \<Rightarrow> allowed)"

definition portAppProtocol :: "Service \<Rightarrow> int \<Rightarrow> string" where
  "portAppProtocol svc port =
     (case List.find (\<lambda>p. sp_Port p = port \<and> sp_AppProtocol p \<noteq> None) (svc_Ports svc) of
        None \<Rightarrow> '''' | Some p \<Rightarrow> the (sp_AppProtocol p))"

definition newBackendProtocolResolver :: "BackendReader \<Rightarrow> string \<Rightarrow> string \<Rightarrow> int \<Rightarrow> string" where
  "newBackendProtocolResolver cli namespace serviceName port =
     (case rd_Service cli namespace serviceName of Inl _ \<Rightarrow> '''' | Inr svc \<Rightarrow> portAppProtocol svc port)"

section \<open>TLS policies\<close>

record SubjectAltName =
  san_Type :: string
  san_Hostname :: string
  san_URI :: string

record PolicyTarget =
  pt_TargetKind :: string
  pt_TargetName :: string
  pt_SectionName :: "string option"

record LocalObjectReference =
  lo_Group :: string
  lo_Kind :: string
  lo_Name :: string

record BackendTLSPolicy =
  btp_Namespace :: string
  btp_Name :: string
  btp_CreationTimestamp :: int
  btp_TargetRefs :: "PolicyTarget list"
  btp_CACertificateRefs :: "LocalObjectReference list"
  btp_Hostname :: string
  btp_SubjectAltNames :: "SubjectAltName list"

text \<open>The reads of a resolver. \<open>plr_blocks\<close> gives the blocks (type and content) that \<^verbatim>\<open>pem.Decode\<close> finds one after
  another, \<open>plr_isCertificate\<close> whether \<^verbatim>\<open>x509.ParseCertificate\<close> accepts a content.\<close>

record PolicyReader =
  plr_policies :: "string \<Rightarrow> gerr + BackendTLSPolicy list"
  plr_configMap :: "string \<Rightarrow> string \<Rightarrow> gerr + (string \<rightharpoonup> string)"
  plr_blocks :: "string \<Rightarrow> (string \<times> string) list"
  plr_isCertificate :: "string \<Rightarrow> bool"

datatype ca_error = errBackendTLSCABundleMalformed nat | errBackendTLSCABundleNoCerts

fun parse_blocks :: "(string \<Rightarrow> bool) \<Rightarrow> nat \<Rightarrow> (string \<times> string) list \<Rightarrow> ca_error + nat" where
  "parse_blocks isCertificate parsed [] = (if parsed = 0 then Inl errBackendTLSCABundleNoCerts else Inr parsed)"
| "parse_blocks isCertificate parsed ((typ, content) # blocks) =
     (if typ \<noteq> ''CERTIFICATE'' then parse_blocks isCertificate parsed blocks
      else if \<not> isCertificate content then Inl (errBackendTLSCABundleMalformed parsed)
      else parse_blocks isCertificate (parsed + 1) blocks)"

definition parseCABundle :: "PolicyReader \<Rightarrow> string \<Rightarrow> ca_error + nat" where
  "parseCABundle rd bundle = parse_blocks (plr_isCertificate rd) 0 (plr_blocks rd bundle)"

definition configMapCAKey :: string where
  "configMapCAKey = ''ca.crt''"

fun ca_bundle :: "PolicyReader \<Rightarrow> string \<Rightarrow> string \<Rightarrow> LocalObjectReference list \<Rightarrow> string option" where
  "ca_bundle rd namespace bundle [] = Some bundle"
| "ca_bundle rd namespace bundle (ref # refs) =
     (if lo_Group ref \<noteq> '''' \<and> lo_Group ref \<noteq> ''core'' then None
      else if lo_Kind ref \<noteq> ''ConfigMap'' then None
      else case plr_configMap rd namespace (lo_Name ref) of
             Inl _ \<Rightarrow> None
           | Inr data \<Rightarrow>
               (case data configMapCAKey of
                  None \<Rightarrow> None
                | Some caPEM \<Rightarrow>
                    if caPEM = '''' then None
                    else if isl (parseCABundle rd caPEM) then None
                    else ca_bundle rd namespace
                           (bundle @ caPEM @ (if has_suffix caPEM [CHR 0x0A] then '''' else [CHR 0x0A])) refs))"

definition resolveCABundlePEM :: "PolicyReader \<Rightarrow> BackendTLSPolicy \<Rightarrow> string option" where
  "resolveCABundlePEM rd policy =
     (if btp_CACertificateRefs policy = [] then None
      else ca_bundle rd (btp_Namespace policy) '''' (btp_CACertificateRefs policy))"

definition isPolicyOlder :: "BackendTLSPolicy \<Rightarrow> BackendTLSPolicy \<Rightarrow> bool" where
  "isPolicyOlder policy incumbent =
     (if btp_CreationTimestamp policy < btp_CreationTimestamp incumbent then True
      else if btp_CreationTimestamp incumbent < btp_CreationTimestamp policy then False
      else btp_Name policy < btp_Name incumbent)"

definition lookupServicePortName :: "BackendReader \<Rightarrow> string \<Rightarrow> string \<Rightarrow> int \<Rightarrow> string" where
  "lookupServicePortName cli namespace serviceName port =
     (case rd_Service cli namespace serviceName of
        Inl _ \<Rightarrow> ''''
      | Inr svc \<Rightarrow> (case List.find (\<lambda>p. sp_Port p = port) (svc_Ports svc) of None \<Rightarrow> '''' | Some p \<Rightarrow> sp_Name p))"

definition policyTargetsServicePort :: "BackendTLSPolicy \<Rightarrow> string \<Rightarrow> string \<Rightarrow> bool" where
  "policyTargetsServicePort policy serviceName portName =
     list_ex (\<lambda>target. pt_TargetName target = serviceName
         \<and> (pt_TargetKind target = '''' \<or> pt_TargetKind target = ''Service'')
         \<and> (pt_SectionName target = None \<or> pt_SectionName target = Some '''' \<or> pt_SectionName target = Some portName))
       (btp_TargetRefs policy)"

fun best_policy :: "BackendTLSPolicy option \<Rightarrow> BackendTLSPolicy list \<Rightarrow> BackendTLSPolicy option" where
  "best_policy best [] = best"
| "best_policy best (policy # policies) =
     best_policy (case best of None \<Rightarrow> Some policy | Some b \<Rightarrow> if isPolicyOlder policy b then Some policy else best) policies"

definition selectPolicyForServicePort ::
    "BackendReader \<Rightarrow> BackendTLSPolicy list \<Rightarrow> string \<Rightarrow> string \<Rightarrow> int \<Rightarrow> BackendTLSPolicy option" where
  "selectPolicyForServicePort cli policies namespace serviceName port =
     best_policy None
       (filter (\<lambda>policy. policyTargetsServicePort policy serviceName (lookupServicePortName cli namespace serviceName port)) policies)"

definition splitSANsByType :: "BackendTLSPolicy \<Rightarrow> string list \<times> string list \<times> bool" where
  "splitSANsByType policy =
     (let sans = btp_SubjectAltNames policy in
      (filter (\<lambda>h. h \<noteq> '''') (map san_Hostname (filter (\<lambda>s. san_Type s = ''Hostname'') sans)),
       filter (\<lambda>u. u \<noteq> '''') (map san_URI (filter (\<lambda>s. san_Type s = ''URI'') sans)),
       list_ex (\<lambda>s. san_Type s \<noteq> ''Hostname'' \<and> san_Type s \<noteq> ''URI'') sans))"

definition poisonedBackendTLS :: "BackendTLSPolicy \<Rightarrow> BackendTLSConfig" where
  "poisonedBackendTLS policy =
     \<lparr> tls_CABundlePEM = '''', tls_ServerName = btp_Hostname policy, tls_SubjectAltNames = [], tls_SubjectAltNameURIs = [],
       tls_ClientCertPEM = '''', tls_ClientKeyPEM = '''' \<rparr>"

definition newBackendTLSResolver ::
    "BackendReader \<Rightarrow> PolicyReader \<Rightarrow> string \<Rightarrow> string \<Rightarrow> int \<Rightarrow> BackendTLSConfig option" where
  "newBackendTLSResolver cli rd namespace serviceName port =
     (case plr_policies rd namespace of
        Inl _ \<Rightarrow> None
      | Inr policies \<Rightarrow>
          (case selectPolicyForServicePort cli policies namespace serviceName port of
             None \<Rightarrow> None
           | Some policy \<Rightarrow>
               (case resolveCABundlePEM rd policy of
                  None \<Rightarrow> Some (poisonedBackendTLS policy)
                | Some caBundle \<Rightarrow>
                    (case splitSANsByType policy of
                       (dnsSANs, uriSANs, hasUnknown) \<Rightarrow>
                         if hasUnknown then Some (poisonedBackendTLS policy)
                         else Some \<lparr> tls_CABundlePEM = caBundle, tls_ServerName = btp_Hostname policy,
                                tls_SubjectAltNames = dnsSANs, tls_SubjectAltNameURIs = uriSANs,
                                tls_ClientCertPEM = '''', tls_ClientKeyPEM = '''' \<rparr>))))"

section \<open>Client certificates of Gateways\<close>

record SecretObjectReference =
  so_Group :: "string option"
  so_Kind :: "string option"
  so_Name :: string
  so_Namespace :: "string option"

record TLSSecret =
  tsec_Type :: string
  tsec_Data :: "string \<rightharpoonup> string"

text \<open>The part of a Gateway this code reads; the field of \<^verbatim>\<open>spec.tls\<close> holds its \<^verbatim>\<open>backend\<close>, that one its reference.\<close>

record CertGateway =
  cg_Namespace :: string
  cg_GatewayClassName :: string
  cg_TLS :: "SecretObjectReference option option option"

record CertReader =
  crd_gateway :: "string \<Rightarrow> string \<Rightarrow> gerr + CertGateway"
  crd_classController :: "string \<Rightarrow> gerr + string"
  crd_grants :: "string \<Rightarrow> gerr + Grant list"
  crd_secret :: "string \<Rightarrow> string \<Rightarrow> gerr + TLSSecret"
  crd_isKeyPair :: "string \<Rightarrow> string \<Rightarrow> bool"

datatype client_cert_error =
    errGatewayClientCertUnsupportedRef | errGatewayClientCertRefNotPermitted | errGatewayClientCertSecretNotFound
  | errGatewayClientCertWrongType | errGatewayClientCertMissingKey | errGatewayClientCertInvalidPEM
  | errGatewayClientCertTransientError

definition gatewayClientCertRef :: "CertGateway \<Rightarrow> SecretObjectReference option" where
  "gatewayClientCertRef gateway =
     (case cg_TLS gateway of None \<Rightarrow> None | Some tls \<Rightarrow> (case tls of None \<Rightarrow> None | Some backend \<Rightarrow> backend))"

definition isCoreSecretRef :: "SecretObjectReference \<Rightarrow> bool" where
  "isCoreSecretRef ref \<longleftrightarrow>
     (case so_Group ref of None \<Rightarrow> '''' | Some g \<Rightarrow> g) = '''' \<and> (case so_Kind ref of None \<Rightarrow> ''Secret'' | Some k \<Rightarrow> k) = ''Secret''"

definition grantAllowsGatewayFromNamespace :: "Grant \<Rightarrow> string \<Rightarrow> bool" where
  "grantAllowsGatewayFromNamespace grant gatewayNamespace =
     list_ex (\<lambda>f. gf_Group f = ''gateway.networking.k8s.io'' \<and> gf_Kind f = ''Gateway'' \<and> gf_Namespace f = gatewayNamespace)
       (gr_From grant)"

definition checkSecretReferenceGrantForGateway ::
    "CertReader \<Rightarrow> CertGateway \<Rightarrow> string \<Rightarrow> SecretObjectReference \<Rightarrow> client_cert_error + bool" where
  "checkSecretReferenceGrantForGateway rd gateway targetNamespace ref =
     (case crd_grants rd targetNamespace of
        Inl _ \<Rightarrow> Inl errGatewayClientCertTransientError
      | Inr grants \<Rightarrow>
          Inr (list_ex (\<lambda>grant. grantAllowsGatewayFromNamespace grant (cg_Namespace gateway)
                 \<and> list_ex (\<lambda>to. gt_Group to = '''' \<and> gt_Kind to = ''Secret''
                        \<and> (gt_Name to = None \<or> gt_Name to = Some '''' \<or> gt_Name to = Some (so_Name ref))) (gr_To grant))
               grants))"

text \<open>The result is the pair of certificate and key, or \<open>None\<close> where the Gateway configures none.\<close>

definition loadGatewayClientCertPEM :: "CertReader \<Rightarrow> CertGateway \<Rightarrow> client_cert_error + (string \<times> string) option" where
  "loadGatewayClientCertPEM rd gateway =
     (case gatewayClientCertRef gateway of
        None \<Rightarrow> Inr None
      | Some ref \<Rightarrow>
          if \<not> isCoreSecretRef ref then Inl errGatewayClientCertUnsupportedRef
          else let targetNS = (case so_Namespace ref of None \<Rightarrow> cg_Namespace gateway | Some ns \<Rightarrow> ns) in
            case (if targetNS \<noteq> cg_Namespace gateway then checkSecretReferenceGrantForGateway rd gateway targetNS ref else Inr True) of
              Inl e \<Rightarrow> Inl e
            | Inr allowed \<Rightarrow>
                if \<not> allowed then Inl errGatewayClientCertRefNotPermitted
                else (case crd_secret rd targetNS (so_Name ref) of
                        Inl e \<Rightarrow> Inl (if isNotFound e then errGatewayClientCertSecretNotFound else errGatewayClientCertTransientError)
                      | Inr secret \<Rightarrow>
                          if tsec_Type secret \<noteq> ''kubernetes.io/tls'' then Inl errGatewayClientCertWrongType
                          else (case (tsec_Data secret ''tls.crt'', tsec_Data secret ''tls.key'') of
                                  (Some certPEM, Some keyPEM) \<Rightarrow>
                                    if certPEM = '''' \<or> keyPEM = '''' then Inl errGatewayClientCertMissingKey
                                    else if \<not> crd_isKeyPair rd certPEM keyPEM then Inl errGatewayClientCertInvalidPEM
                                    else Inr (Some (certPEM, keyPEM))
                                | _ \<Rightarrow> Inl errGatewayClientCertMissingKey)))"

definition gatewayManagedByController :: "CertReader \<Rightarrow> CertGateway \<Rightarrow> string \<Rightarrow> bool" where
  "gatewayManagedByController rd gateway controllerName =
     (if controllerName = '''' then True
      else case crd_classController rd (cg_GatewayClassName gateway) of Inl _ \<Rightarrow> False | Inr c \<Rightarrow> c = controllerName)"

definition newGatewayClientCertResolver :: "CertReader \<Rightarrow> string \<Rightarrow> string \<Rightarrow> string \<Rightarrow> ClientCertConfig option" where
  "newGatewayClientCertResolver rd controllerName namespace name =
     (case crd_gateway rd namespace name of
        Inl _ \<Rightarrow> None
      | Inr gateway \<Rightarrow>
          if \<not> gatewayManagedByController rd gateway controllerName then None
          else (case loadGatewayClientCertPEM rd gateway of
                  Inl _ \<Rightarrow> None
                | Inr None \<Rightarrow> None
                | Inr (Some (certPEM, keyPEM)) \<Rightarrow> Some \<lparr> cc_CertPEM = certPEM, cc_KeyPEM = keyPEM \<rparr>))"

text \<open>The condition \<^verbatim>\<open>ResolvedRefs\<close> of the Gateway: its status and reason, or nothing where the previous one is kept.\<close>

definition buildClientCertResolvedRefsCondition :: "client_cert_error option \<Rightarrow> (bool \<times> string) option" where
  "buildClientCertResolvedRefsCondition err =
     (case err of
        None \<Rightarrow> Some (True, ''ResolvedRefs'')
      | Some e \<Rightarrow>
          if e = errGatewayClientCertTransientError then None
          else Some (False, if e = errGatewayClientCertRefNotPermitted then ''RefNotPermitted'' else ''InvalidClientCertificateRef''))"

section \<open>The policy that applies\<close>

interpretation policy_order: strict_weak_order isPolicyOlder
  by unfold_locales (auto simp: isPolicyOlder_def split: if_splits)

lemma best_policy_first:
  assumes "\<forall>q \<in> set ps. q = p \<or> isPolicyOlder p q" and "best = Some p \<or> (p \<in> set ps \<and> (\<forall>b. best = Some b \<longrightarrow> isPolicyOlder p b))"
  shows "best_policy best ps = Some p"
  using assms
proof (induction ps arbitrary: best)
  case (Cons q ps)
  consider "best = Some p" | "best \<noteq> Some p" "p \<in> set (q # ps)" "\<forall>b. best = Some b \<longrightarrow> isPolicyOlder p b" using Cons.prems(2) by blast
  then show ?case
  proof cases
    case 1
    then have "\<not> isPolicyOlder q p" using Cons.prems(1) by (auto simp: isPolicyOlder_def split: if_splits)
    then show ?thesis using 1 Cons by simp
  next
    case 2
    let ?next = "case best of None \<Rightarrow> Some q | Some b \<Rightarrow> if isPolicyOlder q b then Some q else best"
    have "?next = Some p \<or> (p \<in> set ps \<and> (\<forall>b. ?next = Some b \<longrightarrow> isPolicyOlder p b))"
      using 2 Cons.prems(1) by (cases best) auto
    then show ?thesis using Cons.IH [of ?next] Cons.prems(1) by simp
  qed
qed auto

text \<open>What a policy asks for: every reference names a ConfigMap with parseable certificates, and every alternative name is
  of a known type.\<close>

definition enforceable :: "PolicyReader \<Rightarrow> BackendTLSPolicy \<Rightarrow> bool" where
  "enforceable rd policy \<longleftrightarrow> resolveCABundlePEM rd policy \<noteq> None
     \<and> (\<forall>s \<in> set (btp_SubjectAltNames policy). san_Type s = ''Hostname'' \<or> san_Type s = ''URI'')"

lemma poisoned_refuses:
  assumes "\<And>intermediates leaf. \<not> x_Verify x (fst (x_Pool x '''')) intermediates leaf"
  shows "\<not> handshake_accepts x system (fst (newTLSTransport x (poisonedBackendTLS policy) timeout)) peers"
  using assms by (auto simp: newTLSTransport_def poisonedBackendTLS_def backend_handshake)


section \<open>Grants\<close>

text \<open>C36: the status of a route and its traffic disagree on one spelling of a reference. For a cross-namespace reference of
  a supported kind the proxy decides on the grant exactly as the status does, unless the reference writes the core group
  as \<^verbatim>\<open>core\<close>: then the traffic is refused under every list of grants, whatever the status says.\<close>

theorem core_alias_is_never_granted:
  assumes "validateBackendGroupKind ref (prm_routeNS params) (prm_routeName params) = Inr kind"
    and "prm_svcName params = bo_Name (ab_Ref ref)"
    and "bo_Namespace (ab_Ref ref) = Some (prm_svcNS params)" and "prm_routeNS params \<noteq> prm_svcNS params"
  shows "newBackendRefValidator grants (prm_routeKind params) (prm_routeNS params) (ab_Ref ref) =
    (if bo_Group (ab_Ref ref) = Some ''core'' then False
     else case kind of
       backendTargetService \<Rightarrow> validateCrossNamespaceRef (Some grants) params '''' ''Service''
     | backendTargetServiceImport \<Rightarrow> validateCrossNamespaceRef (Some grants) params ''multicluster.x-k8s.io'' ''ServiceImport''
     | backendTargetExternal \<Rightarrow> validateCrossNamespaceRef (Some grants) params ''cf.k8s.lex.la'' ''ExternalBackend'')"
proof -
  have from_name: "grantAllowsReference g (f \<lparr> ref_Name := n \<rparr>) t = grantAllowsReference g f t" for g f n t
    by (simp add: grantAllowsReference_def matchesFrom_def)
  have from_eq: "grantAllowsReference g \<lparr> ref_Group = a, ref_Kind = k, ref_Namespace = ns, ref_Name = n \<rparr> t =
      grantAllowsReference g \<lparr> ref_Group = a, ref_Kind = k, ref_Namespace = ns, ref_Name = '''' \<rparr> t" for g a k ns n t
    using from_name [of g n "\<lparr> ref_Group = a, ref_Kind = k, ref_Namespace = ns, ref_Name = '''' \<rparr>" t] by simp
  have core: "\<not> grantAllowsReference g f \<lparr> ref_Group = ''core'', ref_Kind = k, ref_Namespace = ns, ref_Name = n \<rparr>" for g f k ns n
    by (auto simp: grantAllowsReference_def matchesTo_def Let_def list_ex_iff)
  show ?thesis
    using assms
    by (auto simp: newBackendRefValidator_def validateCrossNamespaceRef_def validateBackendGroupKind_def backend_group_def
        backend_kind_def IsReferenceAllowed_def Let_def from_eq [of _ _ _ _ "prm_routeName params"] core list_ex_iff
        split: option.splits if_splits sum.splits)
qed


section \<open>Examples\<close>

definition list_x509 :: "(string, string list, string) x509_env" where
  "list_x509 = \<lparr> x_EmptyPool = [], x_Pool = \<lambda>pem. if pem = '''' then ([], False) else ([pem], True), x_KeyPair = \<lambda>c k. None,
     x_Verify = \<lambda>pool intermediates leaf. leaf \<in> set pool, x_VerifyHostname = \<lambda>leaf h. True, x_URIs = \<lambda>leaf. [] \<rparr>"

definition orphan_policy :: BackendTLSPolicy where
  "orphan_policy = \<lparr> btp_Namespace = ''shop'', btp_Name = ''p'', btp_CreationTimestamp = 0,
     btp_TargetRefs = [\<lparr> pt_TargetKind = ''Service'', pt_TargetName = ''cart'', pt_SectionName = None \<rparr>],
     btp_CACertificateRefs = [\<lparr> lo_Group = '''', lo_Kind = ''ConfigMap'', lo_Name = ''gone'' \<rparr>],
     btp_Hostname = ''cart.shop'', btp_SubjectAltNames = [] \<rparr>"

definition orphan_reader :: PolicyReader where
  "orphan_reader = \<lparr> plr_policies = \<lambda>ns. Inr [orphan_policy \<lparr> btp_CreationTimestamp := 5 \<rparr>, orphan_policy],
     plr_configMap = \<lambda>ns name. Inl (Sentinel (errK8s NotFound)), plr_blocks = \<lambda>s. [], plr_isCertificate = \<lambda>s. True \<rparr>"

definition empty_reader :: BackendReader where
  "empty_reader = \<lparr> rd_Service = \<lambda>ns name. Inl (Sentinel (errK8s NotFound)), rd_Slices = \<lambda>ns name. Inr [],
     rd_Import = \<lambda>ns name. Inl (Sentinel (errK8s NotFound)), rd_External = \<lambda>ns name. Inl (Sentinel (errK8s NotFound)) \<rparr>"


definition core_ref :: APIBackendRef where
  "core_ref = \<lparr> ab_Ref = \<lparr> bo_Group = Some ''core'', bo_Kind = None, bo_Name = ''db'', bo_Namespace = Some ''b'', bo_Port = Some 80 \<rparr>,
     ab_Weight = None \<rparr>"

definition core_params :: serviceResolveParams where
  "core_params = \<lparr> prm_routeKind = ''HTTPRoute'', prm_routeNS = ''a'', prm_routeName = ''r'', prm_svcName = ''db'', prm_svcNS = ''b'',
     prm_port = 80 \<rparr>"

definition open_grants :: "string \<Rightarrow> gerr + Grant list" where
  "open_grants ns = Inr [\<lparr> gr_From = [\<lparr> gf_Group = ''gateway.networking.k8s.io'', gf_Kind = ''HTTPRoute'', gf_Namespace = ''a'' \<rparr>],
     gr_To = [\<lparr> gt_Group = ''core'', gt_Kind = ''Service'', gt_Name = None \<rparr>] \<rparr>]"

theorem core_alias_is_never_granted_witness:
  "validateCrossNamespaceRef (Some open_grants) core_params '''' ''Service''
   \<and> \<not> newBackendRefValidator open_grants ''HTTPRoute'' ''a'' (ab_Ref core_ref)"
proof -
  have "validateCrossNamespaceRef (Some open_grants) core_params '''' ''Service''" by code_simp
  moreover have "validateBackendGroupKind core_ref (prm_routeNS core_params) (prm_routeName core_params) = Inr backendTargetService"
    by code_simp
  ultimately show ?thesis
    using core_alias_is_never_granted [of core_ref core_params backendTargetService open_grants]
    by (simp add: core_ref_def core_params_def)
qed

section \<open>Client certificates\<close>

text \<open>Whether a grant of the Secret's namespace opens it to the Gateways of a namespace.\<close>

definition secret_opened :: "CertReader \<Rightarrow> string \<Rightarrow> string \<Rightarrow> string \<Rightarrow> bool" where
  "secret_opened rd from target name \<longleftrightarrow> from = target \<or>
     (\<exists>grants. crd_grants rd target = Inr grants \<and> (\<exists>g \<in> set grants.
        (\<exists>f \<in> set (gr_From g). gf_Group f = ''gateway.networking.k8s.io'' \<and> gf_Kind f = ''Gateway'' \<and> gf_Namespace f = from)
        \<and> (\<exists>t \<in> set (gr_To g). gt_Group t = '''' \<and> gt_Kind t = ''Secret'' \<and> gt_Name t \<in> {None, Some '''', Some name})))"

lemma load_cert_iff:
  "loadGatewayClientCertPEM rd gateway = Inr (Some (cert, key)) \<longleftrightarrow>
    (\<exists>ref secret. gatewayClientCertRef gateway = Some ref \<and> isCoreSecretRef ref
      \<and> (let target = (case so_Namespace ref of None \<Rightarrow> cg_Namespace gateway | Some ns \<Rightarrow> ns) in
         secret_opened rd (cg_Namespace gateway) target (so_Name ref) \<and> crd_secret rd target (so_Name ref) = Inr secret)
      \<and> tsec_Type secret = ''kubernetes.io/tls'' \<and> tsec_Data secret ''tls.crt'' = Some cert \<and> tsec_Data secret ''tls.key'' = Some key
      \<and> cert \<noteq> '''' \<and> key \<noteq> '''' \<and> crd_isKeyPair rd cert key)"
proof (cases "gatewayClientCertRef gateway")
  case (Some ref)
  let ?target = "case so_Namespace ref of None \<Rightarrow> cg_Namespace gateway | Some ns \<Rightarrow> ns"
  have grant: "checkSecretReferenceGrantForGateway rd gateway ns ref = Inr True \<longleftrightarrow> secret_opened rd (cg_Namespace gateway) ns (so_Name ref)"
    if "ns \<noteq> cg_Namespace gateway" for ns
    using that by (auto simp: checkSecretReferenceGrantForGateway_def secret_opened_def grantAllowsGatewayFromNamespace_def
        list_ex_iff split: sum.splits)
  define target where "target = ?target"
  define verdict where "verdict =
    (if target \<noteq> cg_Namespace gateway then checkSecretReferenceGrantForGateway rd gateway target ref else Inr True)"
  have v: "secret_opened rd (cg_Namespace gateway) target (so_Name ref) \<longleftrightarrow> verdict = Inr True"
    by (cases "target = cg_Namespace gateway") (simp_all add: verdict_def grant, simp add: secret_opened_def)
  have "loadGatewayClientCertPEM rd gateway = Inr (Some (cert, key)) \<longleftrightarrow>
    (\<exists>secret. isCoreSecretRef ref \<and> verdict = Inr True \<and> crd_secret rd target (so_Name ref) = Inr secret
      \<and> tsec_Type secret = ''kubernetes.io/tls'' \<and> tsec_Data secret ''tls.crt'' = Some cert \<and> tsec_Data secret ''tls.key'' = Some key
      \<and> cert \<noteq> [] \<and> key \<noteq> [] \<and> crd_isKeyPair rd cert key)"
    unfolding loadGatewayClientCertPEM_def Some option.case Let_def target_def [symmetric] verdict_def [symmetric]
    by (auto split: sum.splits option.splits if_splits)
  then show ?thesis unfolding v [symmetric] target_def Some Let_def by auto
qed (simp add: loadGatewayClientCertPEM_def)

text \<open>C37: the proxy presents the client certificate of a Gateway exactly when the Gateway is managed by this controller, the
  reference names a Secret of the core group that lies in the Gateway's namespace or is opened to it by a grant of its
  own namespace, and the Secret is of the TLS type with a certificate and a key that belong together. A Secret of another
  tenant is never presented without that tenant's grant.\<close>

theorem client_cert_exact:
  "newGatewayClientCertResolver rd controller ns name = Some c \<longleftrightarrow>
    (\<exists>gateway ref secret. crd_gateway rd ns name = Inr gateway \<and> gatewayManagedByController rd gateway controller
      \<and> gatewayClientCertRef gateway = Some ref \<and> isCoreSecretRef ref
      \<and> (let target = (case so_Namespace ref of None \<Rightarrow> cg_Namespace gateway | Some ns \<Rightarrow> ns) in
         secret_opened rd (cg_Namespace gateway) target (so_Name ref) \<and> crd_secret rd target (so_Name ref) = Inr secret)
      \<and> tsec_Type secret = ''kubernetes.io/tls''
      \<and> tsec_Data secret ''tls.crt'' = Some (cc_CertPEM c) \<and> tsec_Data secret ''tls.key'' = Some (cc_KeyPEM c)
      \<and> cc_CertPEM c \<noteq> '''' \<and> cc_KeyPEM c \<noteq> '''' \<and> crd_isKeyPair rd (cc_CertPEM c) (cc_KeyPEM c))"
proof (cases "crd_gateway rd ns name")
  case (Inr gateway)
  have "newGatewayClientCertResolver rd controller ns name = Some c \<longleftrightarrow>
      gatewayManagedByController rd gateway controller \<and> loadGatewayClientCertPEM rd gateway = Inr (Some (cc_CertPEM c, cc_KeyPEM c))"
    unfolding newGatewayClientCertResolver_def Inr sum.case
    by (cases "loadGatewayClientCertPEM rd gateway") (auto split: option.splits)
  then show ?thesis unfolding load_cert_iff Inr by simp
qed (simp add: newGatewayClientCertResolver_def)

text \<open>A certificate is presented only where the Gateway's condition reports its reference as resolved.\<close>

lemma presented_cert_is_resolved:
  assumes "crd_gateway rd ns name = Inr gateway" and "newGatewayClientCertResolver rd controller ns name = Some c"
  shows "buildClientCertResolvedRefsCondition
    (case loadGatewayClientCertPEM rd gateway of Inl e \<Rightarrow> Some e | Inr _ \<Rightarrow> None) = Some (True, ''ResolvedRefs'')"
  using assms
  by (auto simp: newGatewayClientCertResolver_def buildClientCertResolvedRefsCondition_def split: sum.splits if_splits)


end
