(* ===== verification/ProxySync.thy ===== *)
theory ProxySync
  imports BackendMarks RedirectScheme BackendPolicy Shadow ConfigPush RoutePartition
begin

text \<open>
  The proxy syncer (\<^verbatim>\<open>src/internal/controller/proxy_syncer.go\<close>): the sequence of passes that builds the configuration of a
  data plane, and the push state of every plane with the test that skips a push. The version counter is shared with the
  pusher; DNS, SHA-256 and JSON are parameters.
\<close>

section \<open>Building a configuration\<close>

record 'sel ProxySyncer =
  pxs_clusterDomain :: string
  pxs_defaultAuthToken :: string
  pxs_controllerName :: string
  pxs_cluster :: "'sel Cluster"
  pxs_backends :: BackendReader
  pxs_policies :: PolicyReader
  pxs_certs :: CertReader
  pxs_grants :: "string \<Rightarrow> gerr + Grant list"
  pxs_parseDuration :: "string \<Rightarrow> gerr + int"
  pxs_marshalMatch :: "RouteMatch \<Rightarrow> string"
  pxs_codec :: json_codec
  pxs_sha :: "string \<Rightarrow> string"
  pxs_LookupHost :: "string \<Rightarrow> string list option"

definition converter_env :: "'sel ProxySyncer \<Rightarrow> string \<Rightarrow> ConverterEnv" where
  "converter_env s routeKind =
     \<lparr> ce_clusterDomain = pxs_clusterDomain s,
       ce_validator = Some (newBackendRefValidator (pxs_grants s) routeKind),
       ce_protocolResolver = Some (newBackendProtocolResolver (pxs_backends s)),
       ce_tlsResolver = Some (newBackendTLSResolver (pxs_backends s) (pxs_policies s)),
       ce_certResolver = Some (newGatewayClientCertResolver (pxs_certs s) (pxs_controllerName s)),
       ce_parseDuration = pxs_parseDuration s \<rparr>"

definition append_grpc_config :: "Config \<Rightarrow> Config \<Rightarrow> Config" where
  "append_grpc_config cfg grpcCfg =
     cfg \<lparr> cfg_Rules := cfg_Rules cfg @ cfg_Rules grpcCfg, cfg_Provenance := cfg_Provenance cfg @ cfg_Provenance grpcCfg,
           cfg_Diagnostics := cfg_Diagnostics cfg @ cfg_Diagnostics grpcCfg \<rparr>"

text \<open>The second component is the version counter afterwards.\<close>

definition buildProxyConfig ::
    "'sel ProxySyncer \<Rightarrow> HTTPRoute list \<Rightarrow> GRPCRoute list \<Rightarrow> BackendRefError list \<Rightarrow> BackendRefError list \<Rightarrow> int
     \<Rightarrow> Config \<times> int" where
  "buildProxyConfig s routes grpcRoutes failedRefs grpcFailedRefs counter =
     (let domain = pxs_clusterDomain s;
          routes = withEffectiveHostnames (pxs_cluster s) routes;
          routes = withDefaultRedirectScheme (pxs_cluster s) routes;
          counter = wrap64 (counter + 1);
          cfg = ConvertHTTPRoutes (converter_env s ''HTTPRoute'') counter routes;
          cfg = markUnavailableBackends cfg domain failedRefs;
          (cfg, grpcRoutes, counter) =
            (if grpcRoutes \<noteq> []
             then let grpcRoutes = withEffectiveHostnames (pxs_cluster s) grpcRoutes;
                      counter = wrap64 (counter + 1);
                      grpcCfg = ConvertGRPCRoutes (converter_env s ''GRPCRoute'') counter grpcRoutes
                  in (markUnavailableBackends (append_grpc_config cfg grpcCfg) domain grpcFailedRefs, grpcRoutes, counter)
             else (cfg, grpcRoutes, counter));
          cfg = expandHeadlessBackends (pxs_backends s) domain routes grpcRoutes cfg;
          cfg = markZeroEndpointBackends (pxs_backends s) domain routes grpcRoutes cfg;
          cfg = resolveExternalBackends (pxs_backends s) cfg;
          cfg = cfg \<lparr> cfg_HasGRPCRoute := grpcRoutes \<noteq> [] \<rparr>
      in (cfg \<lparr> cfg_Diagnostics := cfg_Diagnostics cfg @ DetectShadowedRules (pxs_marshalMatch s) cfg \<rparr>, counter))"

section \<open>Push state\<close>

record pushTarget =
  tgt_lastCfg :: "Config option"
  tgt_lastPushedHash :: string
  tgt_lastPushedToken :: string
  tgt_lastPushedEndpoints :: "string set"
  tgt_endpointURLs :: "string list"
  tgt_authToken :: string
  tgt_consecutivePushFail :: int

type_synonym push_targets = "string \<rightharpoonup> pushTarget"

definition empty_target :: pushTarget where
  "empty_target = \<lparr> tgt_lastCfg = None, tgt_lastPushedHash = '''', tgt_lastPushedToken = '''', tgt_lastPushedEndpoints = {},
     tgt_endpointURLs = [], tgt_authToken = '''', tgt_consecutivePushFail = 0 \<rparr>"

definition targetLocked :: "push_targets \<Rightarrow> string \<Rightarrow> pushTarget" where
  "targetLocked targets key = (case targets key of None \<Rightarrow> empty_target | Some target \<Rightarrow> target)"

definition hashProxyConfig :: "'sel ProxySyncer \<Rightarrow> Config \<Rightarrow> string" where
  "hashProxyConfig s cfg =
     (case js_Marshal (pxs_codec s) (cfg \<lparr> cfg_Version := 0 \<rparr>) of None \<Rightarrow> '''' | Some payload \<Rightarrow> pxs_sha s payload)"

definition endpointSetsEqual :: "string set \<Rightarrow> string list \<Rightarrow> bool" where
  "endpointSetsEqual previous resolved =
     (if card previous \<noteq> length resolved then False else list_all (\<lambda>endpoint. endpoint \<in> previous) resolved)"

definition shouldSkipPush :: "string \<Rightarrow> string \<Rightarrow> string \<Rightarrow> string \<Rightarrow> string set \<Rightarrow> string list \<Rightarrow> bool" where
  "shouldSkipPush cfgHash lastPushedHash authToken lastPushedToken lastPushedEndpoints resolved \<longleftrightarrow>
     cfgHash \<noteq> '''' \<and> cfgHash = lastPushedHash \<and> authToken = lastPushedToken \<and> endpointSetsEqual lastPushedEndpoints resolved"

record preparedPush =
  pp_cfg :: Config
  pp_cfgHash :: string
  pp_diagnostics :: "RouteDiagnostic list"
  pp_skip :: bool

text \<open>The locked phase after the configuration is built.\<close>

definition prepare_built ::
    "'sel ProxySyncer \<Rightarrow> string \<Rightarrow> string \<Rightarrow> string list \<Rightarrow> string list \<Rightarrow> Config \<Rightarrow> push_targets \<Rightarrow> preparedPush \<times> push_targets" where
  "prepare_built s key authToken endpoints resolved cfg targets =
     (let target = (targetLocked targets key) \<lparr> tgt_endpointURLs := endpoints, tgt_authToken := authToken \<rparr>;
          cfgHash = hashProxyConfig s cfg;
          skip = shouldSkipPush cfgHash (tgt_lastPushedHash target) authToken (tgt_lastPushedToken target)
                   (tgt_lastPushedEndpoints target) resolved
      in (\<lparr> pp_cfg = cfg, pp_cfgHash = cfgHash, pp_diagnostics = cfg_Diagnostics cfg, pp_skip = skip \<rparr>,
          targets(key \<mapsto> if skip then target \<lparr> tgt_consecutivePushFail := 0 \<rparr> else target)))"

definition preparePush ::
    "'sel ProxySyncer \<Rightarrow> string \<Rightarrow> string \<Rightarrow> string list \<Rightarrow> string list \<Rightarrow> HTTPRoute list \<Rightarrow> GRPCRoute list
     \<Rightarrow> BackendRefError list \<Rightarrow> BackendRefError list \<Rightarrow> push_targets \<times> int \<Rightarrow> preparedPush \<times> push_targets \<times> int" where
  "preparePush s key authToken endpoints resolved routes grpcRoutes failedRefs grpcFailedRefs st =
     (case st of (targets, counter) \<Rightarrow>
       (case buildProxyConfig s routes grpcRoutes failedRefs grpcFailedRefs counter of
          (cfg, counter) \<Rightarrow>
            (case prepare_built s key authToken endpoints resolved cfg targets of
               (prep, targets) \<Rightarrow> (prep, targets, counter))))"

text \<open>An error of several endpoints is the list of their errors; the empty list is success.\<close>

definition recordPush ::
    "string \<Rightarrow> string \<Rightarrow> string \<Rightarrow> Config \<Rightarrow> string list \<Rightarrow> gerr list \<Rightarrow> push_targets \<Rightarrow> push_targets" where
  "recordPush key authToken cfgHash cfg resolved pushErr targets =
     (case targets key of
        None \<Rightarrow> targets
      | Some target \<Rightarrow>
          (if pushErr \<noteq> []
           then targets(key \<mapsto> target \<lparr> tgt_lastPushedHash := '''', tgt_lastPushedEndpoints := {},
                  tgt_consecutivePushFail := tgt_consecutivePushFail target + 1 \<rparr>)
           else targets(key \<mapsto> target \<lparr> tgt_lastCfg := Some cfg, tgt_lastPushedHash := cfgHash, tgt_lastPushedToken := authToken,
                  tgt_lastPushedEndpoints := set resolved, tgt_consecutivePushFail := 0 \<rparr>)))"

definition pushFailureStreak :: "push_targets \<Rightarrow> string \<Rightarrow> int" where
  "pushFailureStreak targets key = (case targets key of None \<Rightarrow> 0 | Some target \<Rightarrow> tgt_consecutivePushFail target)"

definition RetainPartitions :: "(string \<Rightarrow> bool) \<Rightarrow> push_targets \<Rightarrow> push_targets" where
  "RetainPartitions keep targets = (\<lambda>key. if key = sharedPartitionKey \<or> keep key then targets key else None)"

section \<open>Pushing\<close>

text \<open>\<^verbatim>\<open>URL.Port\<close>.\<close>

definition url_Port :: "URL \<Rightarrow> string" where
  "url_Port u =
     (case last_index (url_Host u) (CHR '':'') of
        None \<Rightarrow> ''''
      | Some i \<Rightarrow> if valid_optional_port (drop i (url_Host u)) then drop (Suc i) (url_Host u) else '''')"

definition resolve_endpoint :: "(string \<Rightarrow> string list option) \<Rightarrow> string \<Rightarrow> string list" where
  "resolve_endpoint lookup endpoint =
     (case url_Parse endpoint of
        None \<Rightarrow> [endpoint]
      | Some parsed \<Rightarrow>
          (case lookup (url_Hostname parsed) of
             None \<Rightarrow> [endpoint]
           | Some addrs \<Rightarrow>
               (if addrs = [] then [endpoint]
                else map (\<lambda>addr. url_String (empty_url \<lparr> url_Scheme := url_Scheme parsed, url_Path := url_Path parsed,
                        url_Host := (if url_Port parsed \<noteq> '''' then JoinHostPort addr (url_Port parsed) else addr) \<rparr>)) addrs)))"

definition resolveEndpoints :: "(string \<Rightarrow> string list option) \<Rightarrow> string list \<Rightarrow> string list" where
  "resolveEndpoints lookup endpoints = concat (map (resolve_endpoint lookup) endpoints)"

text \<open>A world is the version counter and the replica behind every endpoint.\<close>

type_synonym 'r world = "int \<times> (string \<Rightarrow> 'r)"

definition pushToEndpoints ::
    "'sel ProxySyncer \<Rightarrow> 'r server \<Rightarrow> (string \<Rightarrow> nat \<Rightarrow> NetFate) \<Rightarrow> Config \<Rightarrow> string list \<Rightarrow> string \<Rightarrow> 'r world \<Rightarrow> gerr list \<times> 'r world" where
  "pushToEndpoints s serve fates cfg resolved authToken world =
     (case PushWithToken (pxs_codec s) serve fates cfg resolved authToken world of
        (results, world) \<Rightarrow> (List.map_filter pr_Err results, world))"

definition SyncPartition ::
    "'sel ProxySyncer \<Rightarrow> 'r server \<Rightarrow> (string \<Rightarrow> nat \<Rightarrow> NetFate) \<Rightarrow> string \<Rightarrow> string \<Rightarrow> string list \<Rightarrow> HTTPRoute list \<Rightarrow> GRPCRoute list
     \<Rightarrow> BackendRefError list \<Rightarrow> BackendRefError list \<Rightarrow> push_targets \<times> 'r world
     \<Rightarrow> (RouteDiagnostic list \<times> gerr list) \<times> push_targets \<times> 'r world" where
  "SyncPartition s serve fates key authToken endpoints routes grpcRoutes failedRefs grpcFailedRefs st =
     (case st of (targets, counter, replicas) \<Rightarrow>
       (let resolved = resolveEndpoints (pxs_LookupHost s) endpoints in
        case preparePush s key authToken endpoints resolved routes grpcRoutes failedRefs grpcFailedRefs (targets, counter) of
          (prep, targets, counter) \<Rightarrow>
            (if pp_skip prep then ((pp_diagnostics prep, []), targets, counter, replicas)
             else case pushToEndpoints s serve fates (pp_cfg prep) resolved authToken (counter, replicas) of
                    (pushErr, world) \<Rightarrow>
                      ((pp_diagnostics prep, pushErr),
                       recordPush key authToken (pp_cfgHash prep) (pp_cfg prep) resolved pushErr targets, world))))"

definition SyncRoutes ::
    "'sel ProxySyncer \<Rightarrow> 'r server \<Rightarrow> (string \<Rightarrow> nat \<Rightarrow> NetFate) \<Rightarrow> string list \<Rightarrow> HTTPRoute list \<Rightarrow> GRPCRoute list
     \<Rightarrow> BackendRefError list \<Rightarrow> BackendRefError list \<Rightarrow> push_targets \<times> 'r world
     \<Rightarrow> (RouteDiagnostic list \<times> gerr list) \<times> push_targets \<times> 'r world" where
  "SyncRoutes s serve fates endpoints routes grpcRoutes failedRefs grpcFailedRefs st =
     SyncPartition s serve fates sharedPartitionKey (pxs_defaultAuthToken s) endpoints routes grpcRoutes failedRefs grpcFailedRefs st"

definition replayableTarget :: "push_targets \<Rightarrow> string \<Rightarrow> (pushTarget \<times> Config) option" where
  "replayableTarget targets key =
     (case targets key of
        None \<Rightarrow> None
      | Some target \<Rightarrow> (case tgt_lastCfg target of None \<Rightarrow> None | Some cfg \<Rightarrow> Some (target, cfg)))"

definition resyncTarget ::
    "'sel ProxySyncer \<Rightarrow> 'r server \<Rightarrow> (string \<Rightarrow> nat \<Rightarrow> NetFate) \<Rightarrow> string \<Rightarrow> string list \<Rightarrow> string \<Rightarrow> push_targets \<times> 'r world
     \<Rightarrow> gerr list \<times> push_targets \<times> 'r world" where
  "resyncTarget s serve fates key endpoints authToken st =
     (case st of (targets, world) \<Rightarrow>
       (let resolved = resolveEndpoints (pxs_LookupHost s) endpoints in
        case replayableTarget targets key of
          None \<Rightarrow> ([], targets, world)
        | Some (target, cfg) \<Rightarrow>
            (case pushToEndpoints s serve fates cfg resolved authToken world of
               (pushErr, world) \<Rightarrow>
                 (if pushErr \<noteq> []
                  then (pushErr, targets(key \<mapsto> target \<lparr> tgt_lastPushedHash := '''', tgt_lastPushedEndpoints := {} \<rparr>), world)
                  else ([], targets(key \<mapsto> target \<lparr> tgt_lastPushedHash := hashProxyConfig s cfg, tgt_lastPushedToken := authToken,
                               tgt_lastPushedEndpoints := set resolved \<rparr>), world)))))"

definition ResyncPartition ::
    "'sel ProxySyncer \<Rightarrow> 'r server \<Rightarrow> (string \<Rightarrow> nat \<Rightarrow> NetFate) \<Rightarrow> string \<Rightarrow> push_targets \<times> 'r world
     \<Rightarrow> gerr list \<times> push_targets \<times> 'r world" where
  "ResyncPartition s serve fates key st =
     (case fst st key of
        None \<Rightarrow> ([], st)
      | Some target \<Rightarrow> resyncTarget s serve fates key (tgt_endpointURLs target) (tgt_authToken target) st)"

text \<open>\<open>keys\<close> are the keys of the map in the order of its iteration.\<close>

fun ResyncAllPartitions ::
    "'sel ProxySyncer \<Rightarrow> 'r server \<Rightarrow> (string \<Rightarrow> nat \<Rightarrow> NetFate) \<Rightarrow> string list \<Rightarrow> push_targets \<times> 'r world
     \<Rightarrow> gerr list \<times> push_targets \<times> 'r world" where
  "ResyncAllPartitions s serve fates [] st = ([], st)"
| "ResyncAllPartitions s serve fates (key # keys) st =
     (case ResyncPartition s serve fates key st of
        (errs, st) \<Rightarrow> (case ResyncAllPartitions s serve fates keys st of (rest, st) \<Rightarrow> (errs @ rest, st)))"

definition ResyncEndpoints ::
    "'sel ProxySyncer \<Rightarrow> 'r server \<Rightarrow> (string \<Rightarrow> nat \<Rightarrow> NetFate) \<Rightarrow> string list \<Rightarrow> push_targets \<times> 'r world
     \<Rightarrow> gerr list \<times> push_targets \<times> 'r world" where
  "ResyncEndpoints s serve fates endpoints st = resyncTarget s serve fates sharedPartitionKey endpoints (pxs_defaultAuthToken s) st"

section \<open>What the passes keep\<close>

text \<open>A pass over a converted configuration passes_to the backends of every rule alike and keeps them well formed.\<close>

definition passes_to :: "Config \<Rightarrow> Config \<Rightarrow> bool" where
  "passes_to cfg cfg' \<longleftrightarrow> (\<exists>g. cfg' = map_backends g cfg
     \<and> (\<forall>bs. list_all wf_backend bs \<longrightarrow> list_all wf_backend (g bs)))"

lemma passes_toI: "(\<And>bs. list_all wf_backend bs \<Longrightarrow> list_all wf_backend (g bs)) \<Longrightarrow> passes_to cfg (map_backends g cfg)"
  unfolding passes_to_def by blast

lemma passes_to_refl [simp]: "passes_to cfg cfg"
proof -
  have "map_backends id cfg = cfg" by (simp add: map_backends_def)
  then show ?thesis using passes_toI [of id cfg] by simp
qed

lemma passes_to_trans [trans]:
  assumes "passes_to a b" and "passes_to b c"
  shows "passes_to a c"
proof -
  obtain f g where fg: "b = map_backends f a" "c = map_backends g b" "\<And>bs. list_all wf_backend bs \<Longrightarrow> list_all wf_backend (f bs)"
    "\<And>bs. list_all wf_backend bs \<Longrightarrow> list_all wf_backend (g bs)" using assms unfolding passes_to_def by blast
  then have "c = map_backends (g \<circ> f) a" by (simp add: map_backends_def comp_def)
  then show ?thesis using fg(3,4) passes_toI [of "g \<circ> f" a] by simp
qed

lemma passes_keep:
  assumes "passes_to cfg cfg'"
  shows "cfg_Version cfg' = cfg_Version cfg" "cfg_Provenance cfg' = cfg_Provenance cfg" "length (cfg_Rules cfg') = length (cfg_Rules cfg)"
    "list_all wf_rule (cfg_Rules cfg) \<Longrightarrow> list_all wf_rule (cfg_Rules cfg')"
proof -
  obtain g where g: "cfg' = map_backends g cfg" "\<And>bs. list_all wf_backend bs \<Longrightarrow> list_all wf_backend (g bs)"
    using assms unfolding passes_to_def by blast
  show "cfg_Version cfg' = cfg_Version cfg" "cfg_Provenance cfg' = cfg_Provenance cfg" "length (cfg_Rules cfg') = length (cfg_Rules cfg)"
    by (simp_all add: g(1) map_backends_def)
  have "wf_rule (r \<lparr> rule_Backends := g (rule_Backends r) \<rparr>)" if "wf_rule r" for r
    using that g(2) [of "rule_Backends r"] by (simp add: wf_rule_def list_all_iff)
  then show "list_all wf_rule (cfg_Rules cfg) \<Longrightarrow> list_all wf_rule (cfg_Rules cfg')"
    by (auto simp: g(1) map_backends_def list_all_iff)
qed

lemma MarkUnavailableBackends_passes: "passes_to cfg (MarkUnavailableBackends cfg domain ns name port status)"
proof -
  have "wf_backend (mark_backend target st b) = wf_backend b" for target st b
    by (simp add: mark_backend_def wf_backend_def split: option.split)
  then show ?thesis
    by (auto simp: MarkUnavailableBackends_def Let_def list_all_iff intro!: passes_toI)
qed

lemma markUnavailableBackends_passes: "passes_to cfg (markUnavailableBackends cfg domain refs)"
  unfolding markUnavailableBackends_def
  by (induction refs arbitrary: cfg) (auto intro: passes_to_trans [OF MarkUnavailableBackends_passes])

lemma wf_expandRuleBackends:
  assumes "list_all wf_backend bs"
  shows "list_all wf_backend (expandRuleBackends target (int (length endpoints)) endpoints bs)"
proof -
  let ?xs = "concat (map (expand_backend target (int (length endpoints)) endpoints) bs)"
  have "wf_backend x" if "b \<in> set bs" "x \<in> set (expand_backend target (int (length endpoints)) endpoints b)" for b x
  proof -
    have "wf_backend b" using that(1) assms by (auto simp: list_all_iff)
    then show ?thesis using that(2)
      by (auto simp: expand_backend_def endpointBackends_def wf_backend_def scaleWeight_def Let_def split: if_splits)
  qed
  then have xs: "list_all wf_backend ?xs" by (auto simp: list_all_iff)
  then have "\<forall>b \<in> set ?xs. 0 \<le> be_Weight b" by (auto simp: list_all_iff wf_backend_def)
  then obtain g where "0 < g" "reduceWeightsByGCD ?xs = map (\<lambda>b. b \<lparr> be_Weight := be_Weight b div g \<rparr>) ?xs"
    by (rule reduceWeightsByGCD_scaled)
  with xs have "list_all wf_backend (reduceWeightsByGCD ?xs)"
    by (auto simp: list_all_iff wf_backend_def pos_imp_zdiv_nonneg_iff)
  then show ?thesis using assms by (simp add: expandRuleBackends_def)
qed

lemma visit_refs_passes:
  assumes "\<And>ns name port c. passes_to c (action ns name port c)"
  shows "passes_to cfg (visit_refs action domain authorized refs seen cfg)"
proof (induction refs arbitrary: seen cfg)
  case (Cons r refs)
  obtain ns ref where "r = (ns, ref)" by (cases r)
  then show ?case using Cons by (auto simp: Let_def intro: passes_to_trans [OF assms])
qed simp

lemma endpoint_passes_rewrite:
  "passes_to cfg (expandHeadlessBackends cli domain routes grpcRoutes cfg)"
  "passes_to cfg (markZeroEndpointBackends cli domain routes grpcRoutes cfg)"
proof -
  have "passes_to c (ExpandHeadlessBackend c domain ns name port endpoints)" for c ns name port endpoints
    by (auto simp: ExpandHeadlessBackend_def Let_def intro: passes_toI wf_expandRuleBackends)
  then have "passes_to c (expandBackendIfHeadless cli domain ns name port c)" for ns name port c
    by (auto simp: expandBackendIfHeadless_def MarkUnavailableBackends_passes split: sum.split prod.split)
  then show "passes_to cfg (expandHeadlessBackends cli domain routes grpcRoutes cfg)"
    by (auto simp: expandHeadlessBackends_def visitAuthorizedServiceBackends_def Let_def intro: visit_refs_passes)
  have "passes_to c (markBackendIfZeroEndpoints cli domain ns name port c)" for ns name port c
    by (auto simp: markBackendIfZeroEndpoints_def MarkUnavailableBackends_passes split: sum.split)
  then show "passes_to cfg (markZeroEndpointBackends cli domain routes grpcRoutes cfg)"
    by (auto simp: markZeroEndpointBackends_def visitAuthorizedServiceBackends_def Let_def intro: visit_refs_passes)
qed

lemma resolveExternalBackends_passes: "passes_to cfg (resolveExternalBackends cli cfg)"
proof -
  have url: "ExternalBackendSpec_URL spec \<noteq> ''''" for spec by (simp add: ExternalBackendSpec_URL_def Let_def)
  have "wf_backend (resolve_external cli b)" if "wf_backend b" for b
  proof (cases "ParseExternalBackendSentinel (be_URL b)")
    case (Some nn)
    obtain ns name where "nn = (ns, name)" by (cases nn)
    then show ?thesis using that Some url
      by (cases "rd_External cli ns name") (auto simp: resolve_external_def wf_backend_def isKnownBackendProtocol_def Let_def)
  qed (simp add: resolve_external_def that)
  then show ?thesis unfolding resolveExternalBackends_def by (auto simp: list_all_iff intro!: passes_toI)
qed


section \<open>The configuration that is built\<close>

text \<open>What the API guarantees of a gRPC rule.\<close>

definition api_grpc_rule :: "GRPCRouteRule \<Rightarrow> bool" where
  "api_grpc_rule r \<longleftrightarrow> (\<forall>m \<in> set (grl_Matches r). \<forall>h \<in> set (grm_Headers m). ghm_Name h \<noteq> '''')"

lemma wf_grpc_filter: "fst (grpc_filter_outcome f) = Some g \<Longrightarrow> wf_filter g"
  by (auto simp: grpc_filter_outcome_def convertGRPCFilter_def convertRequestHeaderFilter_def convertResponseHeaderFilter_def
      wf_filter_def empty_filter_def split: if_splits)

lemma wf_grpc_match:
  assumes "\<forall>h \<in> set (grm_Headers m). ghm_Name h \<noteq> ''''" and "convertGRPCMatch m = Some x"
  shows "wf_match x"
proof -
  have "(\<forall>t. pm_Type p \<noteq> PathMatchOther t) \<and> pm_Value p \<noteq> ''''" if "grpcMethodToPath mm = Some p" for mm p
    using that by (auto simp: grpcMethodToPath_def Let_def split: option.splits if_splits)
  then show ?thesis using assms
    by (auto simp: convertGRPCMatch_def wf_match_def convertGRPCHeaderMatch_def Let_def split: option.splits if_splits)
qed

lemma wf_grpc_backend_outcome:
  assumes "grpc_backend_outcome env ns cc b = (be, True)"
  shows "wf_backend be"
proof -
  let ?r = "gb_BackendRef b" and ?o = "ab_Ref (gb_BackendRef b)" and ?c = "resolveCommonBackendRef env (gb_BackendRef b) ns"
  note cases = resolveCommonBackendRef_cases [of ?r env ns]
  have fs: "wf_filter g" if "g \<in> set (List.map_filter (\<lambda>f. fst (grpc_filter_outcome f)) (gb_Filters b))" for g
    using that wf_grpc_filter by (auto simp: List.map_filter_def)
  have out: "fst (convertGRPCBackendRef env b ns cc no_sink) = (be, True)" using assms by (simp add: grpc_backend_outcome_def)
  have marked: "wf_backend be" if "markInvalidBackend w n sns p d = (be, True)" for w n sns p d
    using that by (auto simp: markInvalidBackend_def wf_backend_def empty_backend_def isKnownBackendProtocol_def Let_def
        buildServiceURL_not_empty split: if_splits)
  have w: "0 \<le> ref_weight ?r" using cases(1) out by (force simp: convertGRPCBackendRef_fst Let_def)
  consider (external) "IsExternalBackendRef ?o" | (invalid) "\<not> IsExternalBackendRef ?o" "\<not> valid_ref env ns ?o"
    | (resolved) "\<not> IsExternalBackendRef ?o" "valid_ref env ns ?o" by blast
  then show ?thesis
  proof cases
    case external
    then have "fst (convertGRPCExternalBackendRef env (ref_weight ?r) b ns (target_namespace ns ?o) (bo_Name ?o) no_sink) = (be, True)"
      using cases(2,5) [OF w] out by (simp add: convertGRPCBackendRef_fst Let_def)
    then consider "markInvalidBackend (ref_weight ?r) (bo_Name ?o) (target_namespace ns ?o) defaultServicePort (ce_clusterDomain env) = (be, True)"
      | "be = fst (applyGRPCBackendFilters (empty_backend \<lparr> be_Weight := ref_weight ?r,
          be_URL := ExternalBackendSentinelURL (target_namespace ns ?o) (bo_Name ?o), be_Protocol := BackendProtocolH2C \<rparr>)
          (gb_Filters b) no_sink)"
      by (auto simp: convertGRPCExternalBackendRef_def case_prod_beta split: if_splits)
    then show ?thesis
    proof cases
      case 2
      then show ?thesis
        unfolding applyGRPCBackendFilters_fst using w fs
        by (simp add: wf_backend_def empty_backend_def isKnownBackendProtocol_def ExternalBackendSentinelURL_def)
    qed (rule marked)
  next
    case invalid
    then have b: "(rb_backend ?c, rb_keep ?c) = (be, True)" "rb_outcome ?c = backendRefFinal"
      using cases(3) [OF w invalid] out by (simp_all add: convertGRPCBackendRef_fst Let_def)
    then have "markInvalidBackend (ref_weight ?r) (bo_Name ?o) (target_namespace ns ?o) (target_port ?o) (ce_clusterDomain env) = (be, True)"
      unfolding resolveCommonBackendRef_def validateCommonBackendRef_def Let_def ref_weight_def [symmetric]
        target_namespace_def [symmetric] target_port_def [symmetric] defaultServicePort_def
      by (simp add: case_prod_beta prod_eq_iff split: if_splits)
    then show ?thesis by (rule marked)
  next
    case resolved
    have res: "rb_outcome ?c = backendRefResolved" using cases(4) [OF w resolved] by blast
    define f where "f = fst (applyGRPCBackendFilters (rb_backend ?c) (gb_Filters b) no_sink)"
    have be: "be = grpc_transport env cc ?c f"
      using out unfolding convertGRPCBackendRef_fst Let_def res backendRefOutcome.case f_def by auto
    have "be_Protocol (rb_backend ?c) = BackendProtocolHTTP \<and> be_Filters (rb_backend ?c) = []"
      using res unfolding resolveCommonBackendRef_def validateCommonBackendRef_def Let_def
      by (auto simp: empty_backend_def case_prod_beta split: if_splits)
    moreover have "be_URL (rb_backend ?c) \<noteq> ''''" using cases(4) [OF w resolved] by (simp add: buildServiceURL_not_empty)
    moreover have "be_Weight (rb_backend ?c) = ref_weight ?r" using cases(5) [OF w disjI2 [OF resolved(2)]] by blast
    ultimately have f: "wf_backend f"
      using w fs by (simp add: f_def applyGRPCBackendFilters_fst wf_backend_def isKnownBackendProtocol_def)
    have "wf_backend (grpc_transport env cc c f)" for c
    proof -
      obtain t u where t: "resolveBackendTLS (ce_tlsResolver env) (rb_svcNamespace c) (rb_serviceName c) (rb_port c)
          (be_URL f) = (t, u)" by (metis surj_pair)
      have "u \<noteq> ''''" using t f by (auto simp: resolveBackendTLS_def forceHTTPSScheme_def wf_backend_def split: option.splits)
      then show ?thesis using f
        by (auto simp: grpc_transport_def applyGRPCBackendTransport_def t Let_def wf_backend_def isKnownBackendProtocol_def
            replace_first_not_empty)
    qed
    then show ?thesis unfolding be .
  qed
qed


lemma converted_lockstep:
  assumes "\<And>route r s. fst (cr r (rt_Hostnames route) (rt_Namespace route)
      (resolveFirstParentClientCertFromRefs (rt_ParentRefs route) (rt_Namespace route) certs) s) = pr route r"
  shows "length (cfg_Provenance (convertRoutesGeneric kind version certs cr routes)) =
      length (cfg_Rules (convertRoutesGeneric kind version certs cr routes))"
    and "cfg_Rules (convertRoutesGeneric kind version certs cr routes) =
      concat (map (\<lambda>route. map (pr route) (rt_Rules route)) (sortRoutesByPrecedence routes))"
proof -
  show "length (cfg_Provenance (convertRoutesGeneric kind version certs cr routes)) =
      length (cfg_Rules (convertRoutesGeneric kind version certs cr routes))"
    by (simp add: convertRoutesGeneric_def case_prod_beta)
  show "cfg_Rules (convertRoutesGeneric kind version certs cr routes) =
      concat (map (\<lambda>route. map (pr route) (rt_Rules route)) (sortRoutesByPrecedence routes))"
    using convert_routes_fst(1) [where cr = cr and pr = pr, OF assms]
    by (simp add: convertRoutesGeneric_def case_prod_beta)
qed

lemma ConvertGRPCRoutes_wf:
  assumes "\<forall>route \<in> set routes. \<forall>rule \<in> set (rt_Rules route). api_grpc_rule rule"
  shows "list_all wf_rule (cfg_Rules (ConvertGRPCRoutes env version routes))"
    and "length (cfg_Provenance (ConvertGRPCRoutes env version routes)) = length (cfg_Rules (ConvertGRPCRoutes env version routes))"
proof -
  let ?rule = "\<lambda>route. converted_grpc_rule env (rt_Hostnames route) (rt_Namespace route)
      (resolveFirstParentClientCertFromRefs (rt_ParentRefs route) (rt_Namespace route) (ce_certResolver env))"
  note conv = converted_lockstep [where cr = "convertGRPCRouteRule env" and pr = ?rule, OF convertGRPCRouteRule_fst,
      where kind = "''GRPCRoute''" and version = version and routes = routes, folded ConvertGRPCRoutes_def]
  have "wf_rule (converted_grpc_rule env h ns cc rule)" if "api_grpc_rule rule" for h ns cc rule
    using that wf_grpc_backend_outcome wf_grpc_filter wf_grpc_match
    by (fastforce simp: wf_rule_def converted_grpc_rule_def api_grpc_rule_def List.map_filter_def)
  then show "list_all wf_rule (cfg_Rules (ConvertGRPCRoutes env version routes))"
    using assms by (auto simp: conv(2) list_all_iff sortRoutesByPrecedence_def)
  show "length (cfg_Provenance (ConvertGRPCRoutes env version routes)) = length (cfg_Rules (ConvertGRPCRoutes env version routes))"
    by (rule conv(1))
qed

lemma ConvertHTTPRoutes_lockstep:
  "length (cfg_Provenance (ConvertHTTPRoutes env version routes)) = length (cfg_Rules (ConvertHTTPRoutes env version routes))"
  by (simp add: ConvertHTTPRoutes_rules length_concat comp_def)

lemma narrowed_rules:
  fixes routes :: "'r Route list"
  shows "(\<forall>route \<in> set (withEffectiveHostnames cl routes). P (rt_Rules route)) \<longleftrightarrow> (\<forall>route \<in> set routes. P (rt_Rules route))"
proof -
  have "rt_Rules (effective_route cl r) = rt_Rules r" for r :: "'r Route" by (simp add: effective_route_def case_prod_beta)
  then show ?thesis by (simp add: withEffectiveHostnames_def)
qed

lemma redirect_default_api:
  assumes "\<forall>route \<in> set routes. \<forall>rule \<in> set (rt_Rules route). api_rule rule"
  shows "\<forall>route \<in> set (withDefaultRedirectScheme cl routes). \<forall>rule \<in> set (rt_Rules route). api_rule rule"
proof -
  have "api_filter (default_scheme sch f) = api_filter f" for sch f by (simp add: default_scheme_def api_filter_def)
  then have "\<forall>rule \<in> set (rt_Rules (applyDefaultRedirectScheme sch route)). api_rule rule"
    if "\<forall>rule \<in> set (rt_Rules route). api_rule rule" for sch route
    using that by (auto simp: applyDefaultRedirectScheme_def api_rule_def)
  then have "\<forall>rule \<in> set (rt_Rules (defaultRedirectSchemeForRoute cl route)). api_rule rule"
    if "\<forall>rule \<in> set (rt_Rules route). api_rule rule" for route
    using that by (simp add: defaultRedirectSchemeForRoute_def Let_def)
  then show ?thesis using assms by (auto simp: withDefaultRedirectScheme_def)
qed

text \<open>The configuration after both conversions, before the passes over the endpoints.\<close>

definition both_converted ::
    "'sel ProxySyncer \<Rightarrow> HTTPRoute list \<Rightarrow> GRPCRoute list \<Rightarrow> BackendRefError list \<Rightarrow> BackendRefError list \<Rightarrow> int \<Rightarrow> Config" where
  "both_converted s routes grpcRoutes failedRefs grpcFailedRefs counter =
     (let cfg = markUnavailableBackends (ConvertHTTPRoutes (converter_env s ''HTTPRoute'') (wrap64 (counter + 1))
            (withDefaultRedirectScheme (pxs_cluster s) (withEffectiveHostnames (pxs_cluster s) routes)))
            (pxs_clusterDomain s) failedRefs in
      if grpcRoutes = [] then cfg
      else markUnavailableBackends (append_grpc_config cfg (ConvertGRPCRoutes (converter_env s ''GRPCRoute'')
             (wrap64 (wrap64 (counter + 1) + 1)) (withEffectiveHostnames (pxs_cluster s) grpcRoutes)))
             (pxs_clusterDomain s) grpcFailedRefs)"

lemma buildProxyConfig_passes:
  obtains cfg diags grpc where "passes_to (both_converted s routes grpcRoutes failedRefs grpcFailedRefs counter) cfg"
    "fst (buildProxyConfig s routes grpcRoutes failedRefs grpcFailedRefs counter) = cfg \<lparr> cfg_HasGRPCRoute := grpc, cfg_Diagnostics := diags \<rparr>"
proof -
  define rs where "rs = withDefaultRedirectScheme (pxs_cluster s) (withEffectiveHostnames (pxs_cluster s) routes)"
  define gs where "gs = (if grpcRoutes = [] then [] else withEffectiveHostnames (pxs_cluster s) grpcRoutes)"
  define base where "base = both_converted s routes grpcRoutes failedRefs grpcFailedRefs counter"
  define c1 where "c1 = expandHeadlessBackends (pxs_backends s) (pxs_clusterDomain s) rs gs base"
  define c2 where "c2 = markZeroEndpointBackends (pxs_backends s) (pxs_clusterDomain s) rs gs c1"
  define c3 where "c3 = resolveExternalBackends (pxs_backends s) c2"
  have "passes_to base c1" "passes_to c1 c2" "passes_to c2 c3"
    by (simp_all add: c1_def c2_def c3_def endpoint_passes_rewrite resolveExternalBackends_passes)
  then have "passes_to base c3" by (blast intro: passes_to_trans)
  moreover have "\<exists>g d. fst (buildProxyConfig s routes grpcRoutes failedRefs grpcFailedRefs counter) = c3 \<lparr> cfg_HasGRPCRoute := g, cfg_Diagnostics := d \<rparr>"
    by (cases "grpcRoutes = []")
      (auto simp: buildProxyConfig_def Let_def c3_def c2_def c1_def base_def both_converted_def gs_def rs_def)
  ultimately show thesis using that unfolding base_def by blast
qed



section \<open>Skipped pushes\<close>

text \<open>A push of a plane: what was sent where, and whether every endpoint took it.\<close>

record PushEntry =
  pe_key :: string
  pe_cfg :: Config
  pe_token :: string
  pe_endpoints :: "string list"
  pe_ok :: bool

definition sync_pushes ::
    "'sel ProxySyncer \<Rightarrow> 'r server \<Rightarrow> (string \<Rightarrow> nat \<Rightarrow> NetFate) \<Rightarrow> string \<Rightarrow> string \<Rightarrow> string list \<Rightarrow> HTTPRoute list \<Rightarrow> GRPCRoute list
     \<Rightarrow> BackendRefError list \<Rightarrow> BackendRefError list \<Rightarrow> push_targets \<times> 'r world \<Rightarrow> PushEntry list" where
  "sync_pushes s serve fates key authToken endpoints routes grpcRoutes failedRefs grpcFailedRefs st =
     (let resolved = resolveEndpoints (pxs_LookupHost s) endpoints;
          (prep, _, counter) = preparePush s key authToken endpoints resolved routes grpcRoutes failedRefs grpcFailedRefs
             (fst st, fst (snd st)) in
      if pp_skip prep then []
      else [\<lparr> pe_key = key, pe_cfg = pp_cfg prep, pe_token = authToken, pe_endpoints = resolved,
              pe_ok = fst (pushToEndpoints s serve fates (pp_cfg prep) resolved authToken (counter, snd (snd st))) = [] \<rparr>])"

definition resync_pushes ::
    "'sel ProxySyncer \<Rightarrow> 'r server \<Rightarrow> (string \<Rightarrow> nat \<Rightarrow> NetFate) \<Rightarrow> string \<Rightarrow> string list \<Rightarrow> string \<Rightarrow> push_targets \<times> 'r world
     \<Rightarrow> PushEntry list" where
  "resync_pushes s serve fates key endpoints authToken st =
     (case replayableTarget (fst st) key of
        None \<Rightarrow> []
      | Some (target, cfg) \<Rightarrow>
          (let resolved = resolveEndpoints (pxs_LookupHost s) endpoints in
           [\<lparr> pe_key = key, pe_cfg = cfg, pe_token = authToken, pe_endpoints = resolved,
              pe_ok = fst (pushToEndpoints s serve fates cfg resolved authToken (snd st)) = [] \<rparr>]))"

text \<open>Runs of the syncer in which one call follows another, with the log of the pushes.\<close>

inductive sync_run :: "'sel ProxySyncer \<Rightarrow> 'r server \<Rightarrow> push_targets \<times> 'r world \<Rightarrow> PushEntry list \<Rightarrow> bool" for s serve where
  start: "sync_run s serve (Map.empty, world) []"
| sync: "sync_run s serve st log \<Longrightarrow>
     SyncPartition s serve fates key authToken endpoints routes grpcRoutes failedRefs grpcFailedRefs st = (result, st') \<Longrightarrow>
     sync_run s serve st'
       (log @ sync_pushes s serve fates key authToken endpoints routes grpcRoutes failedRefs grpcFailedRefs st)"
| resync: "sync_run s serve st log \<Longrightarrow> resyncTarget s serve fates key endpoints authToken st = (errs, st') \<Longrightarrow>
     sync_run s serve st' (log @ resync_pushes s serve fates key endpoints authToken st)"
| retain: "sync_run s serve (targets, world) log \<Longrightarrow> sync_run s serve (RetainPartitions keep targets, world) log"

definition last_push :: "string \<Rightarrow> PushEntry list \<Rightarrow> PushEntry option" where
  "last_push key log = (let es = filter (\<lambda>e. pe_key e = key) log in if es = [] then None else Some (last es))"

lemma last_push_append [simp]:
  "last_push key (log @ []) = last_push key log"
  "last_push key (log @ [e]) = (if pe_key e = key then Some e else last_push key log)"
  by (simp_all add: last_push_def Let_def)

text \<open>The key of a skip describes the last push of its plane, and that one succeeded.\<close>

definition skip_key_ok :: "'sel ProxySyncer \<Rightarrow> PushEntry list \<Rightarrow> string \<Rightarrow> pushTarget \<Rightarrow> bool" where
  "skip_key_ok s log key t \<longleftrightarrow> (tgt_lastPushedHash t \<noteq> '''' \<longrightarrow>
     (\<exists>e. last_push key log = Some e \<and> pe_ok e \<and> tgt_lastPushedHash t = hashProxyConfig s (pe_cfg e)
        \<and> tgt_lastPushedToken t = pe_token e \<and> tgt_lastPushedEndpoints t = set (pe_endpoints e)))"

definition skip_keys_ok :: "'sel ProxySyncer \<Rightarrow> PushEntry list \<Rightarrow> push_targets \<Rightarrow> bool" where
  "skip_keys_ok s log targets \<longleftrightarrow> (\<forall>key t. targets key = Some t \<longrightarrow> skip_key_ok s log key t)"

lemma skip_keys_update:
  assumes "skip_keys_ok s log targets" and "skip_key_ok s (log @ es) key t" and "\<forall>e \<in> set es. pe_key e = key"
    and "length es \<le> 1"
  shows "skip_keys_ok s (log @ es) (targets(key \<mapsto> t))"
proof -
  have "last_push k (log @ es) = last_push k log" if "k \<noteq> key" for k
    using assms(3,4) that by (cases es) auto
  then show ?thesis using assms(1,2) unfolding skip_keys_ok_def skip_key_ok_def by simp
qed

lemma skip_keys_target: "skip_keys_ok s log targets \<Longrightarrow> skip_key_ok s log key (targetLocked targets key)"
  by (auto simp: skip_keys_ok_def targetLocked_def skip_key_ok_def empty_target_def split: option.split)

lemma prepare_built_ok:
  assumes "skip_keys_ok s log targets" and "prepare_built s key tok eps resolved cfg targets = (prep, targets')"
  shows "skip_keys_ok s log targets'"
    and "pp_cfg prep = cfg" "pp_cfgHash prep = hashProxyConfig s cfg" and "\<exists>t. targets' key = Some t"
proof -
  define t where "t = (targetLocked targets key) \<lparr> tgt_endpointURLs := eps, tgt_authToken := tok \<rparr>"
  have t: "skip_key_ok s log key t" "skip_key_ok s log key (t \<lparr> tgt_consecutivePushFail := 0 \<rparr>)"
    using skip_keys_target [OF assms(1), of key] by (simp_all add: t_def skip_key_ok_def)
  from assms(2) consider "targets' = targets(key \<mapsto> t)" | "targets' = targets(key \<mapsto> t \<lparr> tgt_consecutivePushFail := 0 \<rparr>)"
    unfolding prepare_built_def Let_def t_def by (auto split: if_splits)
  then show "skip_keys_ok s log targets'" "\<exists>t. targets' key = Some t"
    using skip_keys_update [OF assms(1), of "[]" key] t by (cases; simp)+
  show "pp_cfg prep = cfg" "pp_cfgHash prep = hashProxyConfig s cfg" using assms(2) by (auto simp: prepare_built_def Let_def)
qed

lemma record_ok:
  assumes "skip_keys_ok s log targets" and "targets key = Some t"
  shows "skip_keys_ok s (log @ [\<lparr> pe_key = key, pe_cfg = cfg, pe_token = tok, pe_endpoints = resolved, pe_ok = errs = [] \<rparr>])
    (recordPush key tok (hashProxyConfig s cfg) cfg resolved errs targets)"
  by (cases "errs = []") (auto simp: recordPush_def assms(2) skip_key_ok_def intro!: skip_keys_update [OF assms(1)])

lemma sync_run_ok: "sync_run s serve st log \<Longrightarrow> skip_keys_ok s log (fst st)"
proof (induction rule: sync_run.induct)
  case (start world)
  then show ?case by (simp add: skip_keys_ok_def)
next
  case (sync st log fates key tok eps routes grpcRoutes failed gfailed result st')
  obtain targets counter replicas where st: "st = (targets, counter, replicas)" by (metis prod_cases3)
  let ?resolved = "resolveEndpoints (pxs_LookupHost s) eps"
  obtain cfg counter' where b: "buildProxyConfig s routes grpcRoutes failed gfailed counter = (cfg, counter')" by (metis surj_pair)
  obtain prep targets' where p: "prepare_built s key tok eps ?resolved cfg targets = (prep, targets')" by (metis surj_pair)
  obtain errs world where w: "pushToEndpoints s serve fates cfg ?resolved tok (counter', replicas) = (errs, world)" by (metis surj_pair)
  have prepare: "preparePush s key tok eps ?resolved routes grpcRoutes failed gfailed (targets, counter) = (prep, targets', counter')"
    by (simp add: preparePush_def b p)
  note ok = prepare_built_ok [OF sync.IH [unfolded st fst_conv] p]
  obtain t where t: "targets' key = Some t" using ok(4) by blast
  show ?case
  proof (cases "pp_skip prep")
    case True
    then show ?thesis using sync.hyps(2) ok(1) by (auto simp: st SyncPartition_def sync_pushes_def prepare Let_def)
  next
    case False
    have "fst st' = recordPush key tok (hashProxyConfig s cfg) cfg ?resolved errs targets'"
      using sync.hyps(2) False by (auto simp: st SyncPartition_def prepare Let_def ok(2,3) w)
    moreover have "sync_pushes s serve fates key tok eps routes grpcRoutes failed gfailed st =
        [\<lparr> pe_key = key, pe_cfg = cfg, pe_token = tok, pe_endpoints = ?resolved, pe_ok = errs = [] \<rparr>]"
      using False by (simp add: st sync_pushes_def prepare Let_def ok(2) w)
    ultimately show ?thesis using record_ok [OF ok(1) t, of cfg tok ?resolved errs] by simp
  qed
next
  case (resync st log fates key eps tok errs st')
  obtain targets world where st: "st = (targets, world)" by (cases st)
  show ?case
  proof (cases "replayableTarget targets key")
    case None
    have "st' = st" using resync.hyps(2) None by (simp add: st resyncTarget_def Let_def)
    moreover have "resync_pushes s serve fates key eps tok st = []" using None by (simp add: st resync_pushes_def)
    ultimately show ?thesis using resync.IH by simp
  next
    case (Some tc)
    obtain t cfg where tc: "tc = (t, cfg)" by (cases tc)
    let ?resolved = "resolveEndpoints (pxs_LookupHost s) eps"
    obtain es w where p: "pushToEndpoints s serve fates cfg ?resolved tok world = (es, w)" by (metis surj_pair)
    have "resync_pushes s serve fates key eps tok st =
        [\<lparr> pe_key = key, pe_cfg = cfg, pe_token = tok, pe_endpoints = ?resolved, pe_ok = es = [] \<rparr>]"
      by (simp add: st resync_pushes_def Some tc p Let_def)
    moreover have "fst st' = targets(key \<mapsto>
        if es \<noteq> [] then t \<lparr> tgt_lastPushedHash := '''', tgt_lastPushedEndpoints := {} \<rparr>
        else t \<lparr> tgt_lastPushedHash := hashProxyConfig s cfg, tgt_lastPushedToken := tok, tgt_lastPushedEndpoints := set ?resolved \<rparr>)"
      using resync.hyps(2) by (auto simp: st resyncTarget_def Some tc p Let_def split: if_splits)
    ultimately show ?thesis
      by (simp only:) (rule skip_keys_update [OF resync.IH [unfolded st fst_conv]], auto simp: skip_key_ok_def)
  qed
next
  case (retain targets world log keep)
  then show ?case by (simp add: skip_keys_ok_def RetainPartitions_def)
qed


text \<open>C39: a push is skipped only where it is not needed. In every run in which the calls of the syncer follow one another,
  with any network and any evictions, a push is left out only if the last push of that plane sent a configuration of the
  same content with the same token to all the endpoints, and all of them took it; a failed push is never followed by a skip.\<close>

theorem skip_only_after_delivery:
  assumes "sync_run s serve (targets, counter, replicas) log"
    and "preparePush s key authToken endpoints resolved routes grpcRoutes failedRefs grpcFailedRefs (targets, counter) = (prep, st')"
    and "pp_skip prep"
  shows "\<exists>e. last_push key log = Some e \<and> pe_ok e \<and> hashProxyConfig s (pe_cfg e) = pp_cfgHash prep
    \<and> pe_token e = authToken \<and> set resolved \<subseteq> set (pe_endpoints e)"
proof -
  have "skip_key_ok s log key (targetLocked targets key)" using sync_run_ok [OF assms(1)] by (simp add: skip_keys_target)
  moreover have "shouldSkipPush (pp_cfgHash prep) (tgt_lastPushedHash (targetLocked targets key)) authToken
      (tgt_lastPushedToken (targetLocked targets key)) (tgt_lastPushedEndpoints (targetLocked targets key)) resolved"
    using assms(2,3) by (auto simp: preparePush_def prepare_built_def Let_def case_prod_beta)
  ultimately show ?thesis
    by (auto simp: skip_key_ok_def shouldSkipPush_def endpointSetsEqual_def list_all_iff split: if_splits)
qed

text \<open>C40: where two synchronisations of a plane overlap, the skip key can describe the older of their pushes. The first
  builds configuration \<open>a\<close>, the second builds \<open>b\<close>; both are pushed without an error, \<open>b\<close> last, and the first is recorded
  last. The next synchronisation that asks for the content of \<open>a\<close> is then skipped and reports success, and the replicas
  stay as the push of \<open>b\<close> left them.\<close>

theorem overlapping_syncs_mask_a_push:
  assumes "resolved = resolveEndpoints (pxs_LookupHost s) endpoints" and "distinct resolved"
    and "prepare_built s key authToken endpoints resolved a targets0 = (prep1, targets1)" and "\<not> pp_skip prep1"
    and "prepare_built s key authToken endpoints resolved b targets1 = (prep2, targets2)" and "\<not> pp_skip prep2"
    and "pushToEndpoints s serve fates1 a resolved authToken world0 = ([], world1)"
    and "pushToEndpoints s serve fates2 b resolved authToken world1 = ([], world2)"
    and "targets3 = recordPush key authToken (pp_cfgHash prep2) b resolved [] targets2"
    and "targets4 = recordPush key authToken (pp_cfgHash prep1) a resolved [] targets3"
    and "pp_cfgHash prep1 \<noteq> ''''"
    and "hashProxyConfig s (fst (buildProxyConfig s routes grpcRoutes failedRefs grpcFailedRefs (fst world2))) = pp_cfgHash prep1"
  shows "\<exists>diags targets5 counter.
    SyncPartition s serve fates3 key authToken endpoints routes grpcRoutes failedRefs grpcFailedRefs (targets4, world2)
      = ((diags, []), targets5, counter, snd world2)"
proof -
  obtain counter replicas where w: "world2 = (counter, replicas)" by (cases world2)
  obtain cfg counter' where c: "buildProxyConfig s routes grpcRoutes failedRefs grpcFailedRefs counter = (cfg, counter')" by (metis surj_pair)
  have h: "hashProxyConfig s cfg = pp_cfgHash prep1" using assms(12) by (simp add: w c)
  obtain t where "targets2 key = Some t" using assms(5) by (auto simp: prepare_built_def Let_def)
  then obtain t' where "targets3 key = Some t'" using assms(9) by (auto simp: recordPush_def)
  then have t4: "tgt_lastPushedHash (targetLocked targets4 key) = pp_cfgHash prep1"
    "tgt_lastPushedToken (targetLocked targets4 key) = authToken" "tgt_lastPushedEndpoints (targetLocked targets4 key) = set resolved"
    using assms(10) by (auto simp: recordPush_def targetLocked_def)
  have "endpointSetsEqual (set resolved) resolved" using assms(2) by (simp add: endpointSetsEqual_def distinct_card list_all_iff)
  then have "pp_skip (fst (prepare_built s key authToken endpoints resolved cfg targets4))"
    using assms(11) by (simp add: prepare_built_def Let_def shouldSkipPush_def h t4)
  then show ?thesis
    by (simp add: SyncPartition_def w preparePush_def c Let_def assms(1) [symmetric] case_prod_beta)
qed


section \<open>Examples\<close>

definition tiny_syncer :: "unit ProxySyncer" where
  "tiny_syncer = \<lparr> pxs_clusterDomain = ''cluster.local'', pxs_defaultAuthToken = '''', pxs_controllerName = ''ctrl'',
     pxs_cluster = two_parent_cluster, pxs_backends = empty_reader, pxs_policies = orphan_reader,
     pxs_certs = \<lparr> crd_gateway = \<lambda>ns name. Inl (Sentinel (errK8s NotFound)), crd_classController = \<lambda>name. Inl (Sentinel (errK8s NotFound)),
       crd_grants = open_grants, crd_secret = \<lambda>ns name. Inl (Sentinel (errK8s NotFound)), crd_isKeyPair = \<lambda>c k. False \<rparr>,
     pxs_grants = open_grants, pxs_parseDuration = \<lambda>s. Inr 0, pxs_marshalMatch = \<lambda>m. '''', pxs_codec = tiny_codec, pxs_sha = id,
     pxs_LookupHost = \<lambda>h. None \<rparr>"

definition rpc_route :: GRPCRoute where
  "rpc_route = \<lparr> rt_Namespace = ''a'', rt_Name = ''g'', rt_Kind = ''GRPCRoute'', rt_Created = 0, rt_Hostnames = [''rpc.com''],
     rt_ParentRefs = [], rt_Rules = [\<lparr> grl_Matches = [\<lparr> grm_Method = Some \<lparr> gmm_Type = None, gmm_Service = Some ''s'', gmm_Method = None \<rparr>,
       grm_Headers = [\<lparr> ghm_Type = None, ghm_Name = ''x'', ghm_Value = ''1'' \<rparr>] \<rparr>], grl_Filters = [], grl_BackendRefs = [] \<rparr>] \<rparr>"


text \<open>A replica that keeps the body of the last request, behind a network that delivers everything.\<close>

definition keeping_server :: "string server" where
  "keeping_server r req = (\<lparr> ar_Status = 200, ar_ContentType = '''', ar_Body = '''' \<rparr>,
     case req_Body req of None \<Rightarrow> r | Some b \<Rightarrow> br_Data b)"

definition sample_push :: "Config \<Rightarrow> string world \<Rightarrow> gerr list \<times> string world" where
  "sample_push cfg = pushToEndpoints tiny_syncer keeping_server (\<lambda>_ _. Delivered) cfg [sample_endpoint] ''''"

lemma sample_push_eq:
  "sample_push cfg (n, rs) = ([], n, rs(sample_endpoint := unary (cfg_Rules cfg \<noteq> []) (cfg_Version cfg)))"
  by (simp add: sample_push_def pushToEndpoints_def tiny_syncer_def PushWithToken_def tiny_codec_Marshal pushToEndpoint_def doPush_def
      NewRequest_def sample_endpoint_url client_Do_def keeping_server_def authorize_def set_header_def List.map_filter_def)

lemma tiny_hash: "hashProxyConfig tiny_syncer cfg = unary (cfg_Rules cfg \<noteq> []) 0"
  by (simp add: hashProxyConfig_def tiny_syncer_def tiny_codec_Marshal)

lemma tiny_resolve: "resolveEndpoints (pxs_LookupHost tiny_syncer) [sample_endpoint] = [sample_endpoint]"
  by (simp add: resolveEndpoints_def resolve_endpoint_def tiny_syncer_def split: option.split)

lemma idle_build:
  assumes "0 \<le> n" and "n < 100"
  shows "buildProxyConfig tiny_syncer [] [] [] [] n = (tiny_config False (n + 1), n + 1)"
proof -
  have "wrap64 (n + 1) = n + 1" using assms by (simp add: wrap64_def)
  moreover have "ConvertHTTPRoutes env v [] = tiny_config False v" for env v
    by (simp add: ConvertHTTPRoutes_def convertRoutesGeneric_def sortRoutesByPrecedence_def tiny_config_def)
  moreover have "UnmarkedBackendHosts (tiny_config False v) = {}" for v
    by (simp add: UnmarkedBackendHosts_def tiny_config_def)
  moreover have "DetectShadowedRules m (tiny_config False v) = []" for m v
    by (simp add: DetectShadowedRules_def tiny_config_def shadow_claims_def shadowDiagnostics_def Let_def)
  moreover have "resolveExternalBackends cli (tiny_config False v) = tiny_config False v" for cli v
    by (simp add: resolveExternalBackends_def map_backends_def tiny_config_def)
  moreover have "(tiny_config False v) \<lparr> cfg_HasGRPCRoute := False, cfg_Diagnostics := [] \<rparr> = tiny_config False v"
    "cfg_Diagnostics (tiny_config False v) = []" for v by (simp_all add: tiny_config_def)
  ultimately show ?thesis
    by (simp add: buildProxyConfig_def Let_def withEffectiveHostnames_def withDefaultRedirectScheme_def markUnavailableBackends_def
        expandHeadlessBackends_def markZeroEndpointBackends_def visitAuthorizedServiceBackends_def tiny_config_def)
qed


lemma tiny_shapes: "unary k v \<noteq> ''''" "cfg_Rules (tiny_config k v) \<noteq> [] \<longleftrightarrow> k"
  by (simp_all add: unary_def tiny_config_fields)

lemma tiny_prepare:
  "prepare_built tiny_syncer key '''' [sample_endpoint] [sample_endpoint] (tiny_config k v) targets =
     (let t = (targetLocked targets key) \<lparr> tgt_endpointURLs := [sample_endpoint], tgt_authToken := '''' \<rparr>;
          skip = (unary k 0 = tgt_lastPushedHash t \<and> tgt_lastPushedToken t = '''' \<and> tgt_lastPushedEndpoints t = {sample_endpoint}) in
      (\<lparr> pp_cfg = tiny_config k v, pp_cfgHash = unary k 0, pp_diagnostics = [], pp_skip = skip \<rparr>,
       targets(key \<mapsto> if skip then t \<lparr> tgt_consecutivePushFail := 0 \<rparr> else t)))"
proof -
  have "endpointSetsEqual E [sample_endpoint] \<longleftrightarrow> E = {sample_endpoint}" for E
    by (auto simp: endpointSetsEqual_def card_1_singleton_iff)
  then show ?thesis
    by (auto simp: prepare_built_def Let_def tiny_hash tiny_shapes shouldSkipPush_def tiny_config_def)
qed

theorem skip_only_after_delivery_witness:
  "\<exists>log prep st' e. preparePush tiny_syncer ''shared'' '''' [sample_endpoint] [sample_endpoint] [] [] [] []
       (fst (snd (SyncPartition tiny_syncer keeping_server (\<lambda>_ _. Delivered) ''shared'' '''' [sample_endpoint] [] [] [] []
          (Map.empty, 4, \<lambda>_. ''''))), 5) = (prep, st')
     \<and> pp_skip prep \<and> last_push ''shared'' log = Some e \<and> pe_ok e \<and> sample_endpoint \<in> set (pe_endpoints e)"
proof -
  let ?sync = "SyncPartition tiny_syncer keeping_server (\<lambda>_ _. Delivered) ''shared'' '''' [sample_endpoint] [] [] [] []
    (Map.empty, 4, \<lambda>_. '''')"
  let ?t = "empty_target \<lparr> tgt_endpointURLs := [sample_endpoint], tgt_authToken := '''', tgt_lastCfg := Some (tiny_config False 5),
    tgt_lastPushedHash := unary False 0, tgt_lastPushedToken := '''', tgt_lastPushedEndpoints := {sample_endpoint},
    tgt_consecutivePushFail := 0 \<rparr>"
  have pushed: "pushToEndpoints tiny_syncer keeping_server (\<lambda>_ _. Delivered) (tiny_config False 5) [sample_endpoint] '''' (5, rs) =
      ([], 5, rs(sample_endpoint := unary False 5))" for rs
    using sample_push_eq [of "tiny_config False 5" 5 rs] by (simp add: sample_push_def tiny_config_fields)
  have sync: "?sync = (([], []), [''shared'' \<mapsto> ?t], 5, (\<lambda>_. '''')(sample_endpoint := unary False 5))"
    by (simp add: SyncPartition_def tiny_resolve preparePush_def idle_build tiny_prepare Let_def pushed recordPush_def
        targetLocked_def empty_target_def tiny_shapes)
  have "sync_run tiny_syncer keeping_server (Map.empty, 4, \<lambda>_. '''') []" by (rule sync_run.start)
  from sync_run.sync [OF this sync] obtain log where run: "sync_run tiny_syncer keeping_server
      ([''shared'' \<mapsto> ?t], 5, (\<lambda>_. '''')(sample_endpoint := unary False 5)) log" by blast
  obtain prep st' where prep: "preparePush tiny_syncer ''shared'' '''' [sample_endpoint] [sample_endpoint] [] [] [] []
      ([''shared'' \<mapsto> ?t], 5) = (prep, st')" by (metis surj_pair)
  then have "pp_skip prep"
    by (auto simp: preparePush_def idle_build tiny_prepare Let_def targetLocked_def)
  moreover from skip_only_after_delivery [OF run prep this]
  obtain e where "last_push ''shared'' log = Some e" "pe_ok e" "sample_endpoint \<in> set (pe_endpoints e)" by auto
  ultimately show ?thesis using prep unfolding sync by auto
qed

theorem overlapping_syncs_mask_a_push_witness:
  "\<exists>targets diags targets' counter replicas.
     SyncPartition tiny_syncer keeping_server (\<lambda>_ _. Delivered) ''shared'' '''' [sample_endpoint] [] [] [] [] (targets, 7, replicas)
       = ((diags, []), targets', counter, replicas)
     \<and> replicas sample_endpoint = unary True 7"
proof -
  let ?prep = "\<lambda>k v. prepare_built tiny_syncer ''shared'' '''' [sample_endpoint] [sample_endpoint] (tiny_config k v)"
  obtain p1 t1 where p1: "?prep False 6 Map.empty = (p1, t1)" by (metis surj_pair)
  obtain p2 t2 where p2: "?prep True 7 t1 = (p2, t2)" by (metis surj_pair)
  have s1: "\<not> pp_skip p1" "pp_cfgHash p1 = unary False 0"
    using p1 by (auto simp: tiny_prepare Let_def targetLocked_def empty_target_def tiny_shapes)
  have "tgt_lastPushedHash (targetLocked t1 ''shared'') = ''''"
    using p1 by (auto simp: tiny_prepare Let_def targetLocked_def empty_target_def tiny_shapes)
  then have s2: "\<not> pp_skip p2" using p2 by (auto simp: tiny_prepare Let_def tiny_shapes)
  have push: "pushToEndpoints tiny_syncer keeping_server (\<lambda>_ _. Delivered) (tiny_config k v) [sample_endpoint] '''' (7, rs) =
      ([], 7, rs(sample_endpoint := unary k v))" for k v rs
    using sample_push_eq [of "tiny_config k v" 7 rs] by (simp add: sample_push_def tiny_shapes tiny_config_fields(5))
  have "hashProxyConfig tiny_syncer (fst (buildProxyConfig tiny_syncer [] [] [] [] (fst (7, rs)))) = pp_cfgHash p1" for rs :: "string \<Rightarrow> string"
    by (simp add: idle_build tiny_hash tiny_shapes s1(2))
  from overlapping_syncs_mask_a_push [where ?fates3.0 = "\<lambda>_ _. Delivered", OF tiny_resolve [symmetric] _ p1 s1(1) p2 s2
      push [where rs = "\<lambda>_. ''''"] push refl refl _ this]
  obtain diags targets targets' counter where "SyncPartition tiny_syncer keeping_server (\<lambda>_ _. Delivered) ''shared'' '''' [sample_endpoint]
      [] [] [] [] (targets, 7, (\<lambda>_. '''')(sample_endpoint := unary False 6, sample_endpoint := unary True 7)) =
      ((diags, []), targets', counter, (\<lambda>_. '''')(sample_endpoint := unary False 6, sample_endpoint := unary True 7))"
    by (auto simp: s1(2) tiny_shapes)
  then show ?thesis by fastforce
qed


end
