(* ===== verification/Spec2Isabelle.thy ===== *)
theory Spec2Isabelle
  imports RouterPriority Shadow ConfigPush QueryMerge BackendConn ReferenceGrant EffectiveHosts RoutePartition ConverterSpec
    GrpcConverter TunnelDoc BackendMarks RedirectScheme BackendPolicy ProxySync
begin

text \<open>
  \<^bold>\<open>The Cloudflare Tunnel gateway controller.\<close> A Kubernetes controller serves Gateway API routes through Cloudflare tunnels. It
  decides which routes are attached to which Gateways, distributes them over data planes, writes the ingress document of
  every tunnel through the Cloudflare API, and pushes a routing configuration to the HTTP proxies that run inside the
  tunnel connectors. A proxy compiles the configuration into a routing table and serves requests with it.

  \<^bold>\<open>The parts and where they are modelled.\<close> Names of definitions are those of the Go code; a definition that models a part
  of a function (the body of a loop, a comparison) has a name in small letters with underscores.

  \<^item> Ground: \<^verbatim>\<open>Prelude\<close> (wrapped errors, loops that stop at the first error, the sorting routines and the locale
    \<^verbatim>\<open>strict_weak_order\<close> that every comparison function is shown to satisfy), \<^verbatim>\<open>GoStrings\<close>, \<^verbatim>\<open>GoHttp\<close> (headers, with the
    locale \<^verbatim>\<open>header_store\<close>), \<^verbatim>\<open>GoUrl\<close>, \<^verbatim>\<open>QueryMerge\<close> and \<^verbatim>\<open>Addresses\<close>: what the program uses of Go's library.
  \<^item> The proxy, \<^verbatim>\<open>src/internal/proxy\<close>: \<^verbatim>\<open>ProxyConfig\<close> (\<^verbatim>\<open>config.go\<close>), \<^verbatim>\<open>Matcher\<close> (\<^verbatim>\<open>matcher.go\<close>), \<^verbatim>\<open>Cors\<close> and
    \<^verbatim>\<open>ProxyFilter\<close> (\<^verbatim>\<open>cors.go\<close>, \<^verbatim>\<open>filter.go\<close>), \<^verbatim>\<open>Router\<close>, \<^verbatim>\<open>RouterSpec\<close>, \<^verbatim>\<open>RouterPriority\<close> and \<^verbatim>\<open>RouterState\<close>
    (\<^verbatim>\<open>router.go\<close>, \<^verbatim>\<open>startup_protocol.go\<close>), \<^verbatim>\<open>Shadow\<close> (\<^verbatim>\<open>shadow.go\<close>, \<^verbatim>\<open>diagnostics.go\<close>), \<^verbatim>\<open>Handler\<close> and \<^verbatim>\<open>BackendConn\<close>
    (\<^verbatim>\<open>handler.go\<close>, \<^verbatim>\<open>handler_websocket.go\<close>, \<^verbatim>\<open>headertimeout.go\<close>), \<^verbatim>\<open>ConfigApi\<close> (\<^verbatim>\<open>api.go\<close>).
  \<^item> From routes to configurations: \<^verbatim>\<open>RouteSpec\<close> (the fields of the API types), \<^verbatim>\<open>Converter\<close> and \<^verbatim>\<open>ConverterSpec\<close>
    (\<^verbatim>\<open>converter.go\<close>, \<^verbatim>\<open>backendref_common.go\<close>), \<^verbatim>\<open>GrpcConverter\<close> (\<^verbatim>\<open>grpc_converter.go\<close>), \<^verbatim>\<open>BackendPolicy\<close> (the look-ups
    of \<^verbatim>\<open>proxy_syncer.go\<close> and \<^verbatim>\<open>gateway_client_cert.go\<close>), \<^verbatim>\<open>RedirectScheme\<close> (\<^verbatim>\<open>route_redirect_scheme.go\<close>), \<^verbatim>\<open>BackendMarks\<close>
    (\<^verbatim>\<open>mark_unavailable.go\<close>, \<^verbatim>\<open>expand_headless.go\<close> and their callers in the controller), \<^verbatim>\<open>ConfigPush\<close> (\<^verbatim>\<open>pusher.go\<close>), \<^verbatim>\<open>ProxySync\<close> (the sequence of
    passes and the push state of \<^verbatim>\<open>proxy_syncer.go\<close>).
  \<^item> Attachment, \<^verbatim>\<open>src/internal/controller\<close> and its helper packages: \<^verbatim>\<open>RouteBinding\<close> (\<^verbatim>\<open>routebinding\<close>), \<^verbatim>\<open>ListenerMerge\<close>
    (\<^verbatim>\<open>listenermerge\<close>), \<^verbatim>\<open>HostnameOwnership\<close> (\<^verbatim>\<open>hostnameownership\<close>), \<^verbatim>\<open>ReferenceGrant\<close> (\<^verbatim>\<open>referencegrant\<close>), \<^verbatim>\<open>RouteAttach\<close>
    (\<^verbatim>\<open>route_parent_binding.go\<close>, \<^verbatim>\<open>listenerset_view.go\<close>, \<^verbatim>\<open>listenerset_collect.go\<close>), \<^verbatim>\<open>EffectiveHosts\<close>
    (\<^verbatim>\<open>route_effective_hostnames.go\<close>), \<^verbatim>\<open>CrossType\<close> (\<^verbatim>\<open>route_crosstype.go\<close>).
  \<^item> Planes and tunnels: \<^verbatim>\<open>RenderNames\<close> (\<^verbatim>\<open>render.go\<close>, names only), \<^verbatim>\<open>ConfigResolve\<close> (\<^verbatim>\<open>src/internal/config\<close>),
    \<^verbatim>\<open>RoutePartition\<close> (\<^verbatim>\<open>route_partition.go\<close> and the groups of \<^verbatim>\<open>route_syncer.go\<close>), \<^verbatim>\<open>BackendObjects\<close> and \<^verbatim>\<open>Ingress\<close>
    (\<^verbatim>\<open>src/internal/ingress\<close>), \<^verbatim>\<open>TunnelDoc\<close> (\<^verbatim>\<open>diff.go\<close> and the writing half of \<^verbatim>\<open>route_syncer.go\<close>).

  \<^bold>\<open>State and effects.\<close> Structs are records and enumerations datatypes; strings are byte strings. State is passed
  explicitly: the router and its transport pool (\<^verbatim>\<open>RouterState\<close>, with a step relation over its calls), the version counter
  and the replicas of a push (\<^verbatim>\<open>ConfigPush\<close>, with a relation that interleaves the atomic actions of concurrent pushes; the
  locale \<^verbatim>\<open>config_replica\<close> states what a pusher relies on, and is interpreted by the configuration endpoint of
  \<^verbatim>\<open>ConfigApi\<close>), the push state of the planes (\<^verbatim>\<open>ProxySync\<close>, with a relation over sequences of
  calls), the account cache and the deployed documents (\<^verbatim>\<open>TunnelDoc\<close>), the sink of diagnostics (\<^verbatim>\<open>Converter\<close>). Errors are
  values of \<^verbatim>\<open>gerr\<close>. Reads of the cluster are functions that may fail. Random draws, the iteration order of Go maps, the
  result of an unstable sort and the losses of the network are arguments, so a theorem holds for each of them. Parameters with
  assumptions stated in the theorems are regular expressions, JSON, SHA-256, X.509, PEM, the resolver of durations and the
  Cloudflare API.

  \<^bold>\<open>What is shown.\<close> The router implements the precedence of the Gateway API on the configuration itself, draws every backend
  as often as its weight says, never goes back to an older configuration, and the priority score breaks its documented tiers
  inside the limits of the API. A request is sent only to a backend that may receive it, and every other request fails closed.
  Concurrent pushes never roll a replica back whose version this controller issued, and can do so otherwise. Conversion keeps
  the traffic fractions, reaches only granted destinations and gives a configuration the proxy accepts; later passes keep the
  shares, leave no placeholder to be dialled, and TLS policies are enforced or the backend is cut off. Attachment, hostname
  narrowing, listener conflicts, ownership and conflicts between route kinds are characterised exactly. Planes are isolated, a
  tunnel's document is brought to what its routes ask for in one synchronisation and stays there, and a broken tunnel concerns
  its own routes only. The whole sequence of passes builds
  a valid configuration from any routes the API admits, and a push is skipped only after a delivery. Five theorems record
  behaviour that differs from the intent of the code: overlapping priority tiers, skewed pushes, refused ListenerSets that are
  served, the core group alias that is never granted, and overlapping synchronisations that mask a push.

  \<^bold>\<open>Bounds.\<close> No definition uses fuel; loops are structural recursions, or are shown to terminate by a measure (the greatest
  common divisor of weights). Machine integers are written with their wrap-around or clamping where a theorem depends on it: the
  version counter (64 bits), weights and their products (32 bits). Limits of the code are constants of the model (bodies of the
  configuration endpoint, a thousand rules per document, names of 63 characters).

  \<^bold>\<open>Not modelled.\<close> The reconcilers, the status writers and the object mappers, whose content is the reading and writing of
  cluster objects through the client library; the outermost sequence of \<^verbatim>\<open>route_syncer.go\<close>; the cache of listener views; rendered manifests other than their names; the byte pipe of an upgraded connection and the transport of the
  connector, which run in third-party code; logs, traces, metrics and the texts of messages; flags and process start; generated
  code.
\<close>

end
